theory Spec2Isabelle
  imports Main "HOL-Library.Word" "HOL-Library.Sublist"
begin

unbundle bit_operations_syntax

section \<open>Common types\<close>

text \<open>A Go \<open>error\<close> value is represented by its message; \<open>nil\<close> is \<open>None\<close>.\<close>

type_synonym error = string

text \<open>\<open>time.Duration\<close> is an \<open>int64\<close> count of nanoseconds.\<close>

type_synonym duration = "64 word"

definition Second :: duration where
  "Second = 1000000000"

definition Minute :: duration where
  "Minute = 60 * Second"

text \<open>The single quote, which a string literal cannot hold.\<close>

definition SQ :: string where
  "SQ = [CHR 0x27]"

section \<open>worker.go: the kill executor\<close>

definition killBackoffBaseline :: duration where
  "killBackoffBaseline = 5 * Second"

definition killBackoffLimit :: duration where
  "killBackoffLimit = 2 * Minute"

definition killFailureLimit :: nat where
  "killFailureLimit = 5"

text \<open>
  What \<open>handleDestroy\<close> does besides returning: the calls of \<open>handle.Shutdown\<close>, the
  retry lines it logs, and the sleeps.
\<close>

datatype kill_effect = CallShutdown | LogRetry duration error | Sleep duration

text \<open>
  \<open>backoff := (1 << (2 * uint64(i))) * killBackoffBaseline\<close>, capped by
  \<open>killBackoffLimit\<close>; the arithmetic is that of \<open>int64\<close>.
\<close>

definition kill_backoff :: "nat \<Rightarrow> duration" where
  "kill_backoff i =
     (let backoff = push_bit (2 * i) (1 :: 64 word) * killBackoffBaseline
      in if killBackoffLimit <s backoff then killBackoffLimit else backoff)"

text \<open>
  The handle is opaque; \<open>sd k\<close> is what its \<open>k\<close>-th call of \<open>Shutdown\<close> (counted from
  zero) returns. The loop state is the counter \<open>i\<close>, the named result \<open>err\<close> and the
  effects so far; the result is \<open>(destroyed, err)\<close> and the effects.
\<close>

function handleDestroy_loop ::
  "(nat \<Rightarrow> error option) \<Rightarrow> nat \<Rightarrow> error option \<Rightarrow> kill_effect list
     \<Rightarrow> (bool \<times> error option) \<times> kill_effect list" where
  "handleDestroy_loop sd i err eff =
     (if i < killFailureLimit then
        (case sd i of
           Some e \<Rightarrow>
             handleDestroy_loop sd (i + 1) (Some e)
               (eff @ [CallShutdown, LogRetry (kill_backoff i) e, Sleep (kill_backoff i)])
         | None \<Rightarrow> ((True, None), eff @ [CallShutdown]))
      else ((False, err), eff))"
  by pat_completeness auto
termination
  by (relation "measure (\<lambda>(sd, i, err, eff). killFailureLimit - i)") auto

declare handleDestroy_loop.simps [simp del]

definition handleDestroy ::
  "(nat \<Rightarrow> error option) \<Rightarrow> (bool \<times> error option) \<times> kill_effect list" where
  "handleDestroy sd = handleDestroy_loop sd 0 None []"

definition shutdown_calls :: "kill_effect list \<Rightarrow> nat" where
  "shutdown_calls eff = length (filter (\<lambda>e. e = CallShutdown) eff)"

fun sleeps :: "kill_effect list \<Rightarrow> duration list" where
  "sleeps [] = []"
| "sleeps (Sleep d # es) = d # sleeps es"
| "sleeps (_ # es) = sleeps es"

text \<open>The effects of one failed attempt: the call, the log line and the sleep.\<close>

definition retry_effects :: "(nat \<Rightarrow> error option) \<Rightarrow> nat \<Rightarrow> kill_effect list" where
  "retry_effects sd i = [CallShutdown, LogRetry (kill_backoff i) (the (sd i)), Sleep (kill_backoff i)]"

section \<open>worker.go: data\<close>

text \<open>
  Modelled from the spec: the packages \<open>models\<close>, \<open>config\<close> and \<open>driver\<close> are not among
  the sources. The task event kinds are the ones the specification lists; \<open>TaskOther\<close>
  stands for any other string, since the restart tracker answers with a plain string.
\<close>

datatype event_type =
    TaskReceived | TaskStarted | TaskKilling | TaskKilled | TaskTerminated
  | TaskDriverFailure | TaskSetupFailure | TaskRestarting | TaskNotRestarting
  | TaskRestartSignal | TaskOther string

record TaskEvent =
  Type :: event_type
  FailsTask :: bool
  RestartReason :: string
  KillReason :: string
  KillError :: "error option"
  KillTimeout :: duration
  StartDelay :: duration
  DriverError :: "error option"
  SetupError :: "error option"
  ExitMessage :: "error option"

definition NewTaskEvent :: "event_type \<Rightarrow> TaskEvent" where
  "NewTaskEvent k =
     \<lparr>Type = k, FailsTask = False, RestartReason = [], KillReason = [], KillError = None,
      KillTimeout = 0, StartDelay = 0, DriverError = None, SetupError = None,
      ExitMessage = None\<rparr>"

text \<open>The state symbols given to the updater; the empty string changes no state.\<close>

definition TaskStatePending :: string where
  "TaskStatePending = ''pending''"

definition TaskStateRunning :: string where
  "TaskStateRunning = ''running''"

definition TaskStateDead :: string where
  "TaskStateDead = ''dead''"

record Task =
  TaskType :: string
  TaskDriver :: string

record Allocation =
  AllocID :: string
  JobName :: string
  AllocTask :: string

record ClientConfig =
  StateDir :: string
  Version :: string
  StatsCollectionInterval :: duration
  PublishAllocationMetrics :: bool

text \<open>
  A driver handle, as far as the worker uses it: its id, and what the successive calls of
  \<open>Shutdown\<close> return. What \<open>WaitCh\<close> and \<open>Stats\<close> deliver comes from outside, at the
  time it is asked for.
\<close>

record DriverHandle =
  ID :: string
  Shutdown :: "nat \<Rightarrow> error option"

record ExecContext =
  CtxJobName :: string
  CtxTaskType :: string

definition NewExecContext :: "string \<Rightarrow> string \<Rightarrow> ExecContext" where
  "NewExecContext job ty = \<lparr>CtxJobName = job, CtxTaskType = ty\<rparr>"

record Driver =
  Open :: "ExecContext \<Rightarrow> string \<Rightarrow> error + DriverHandle"
  Start :: "ExecContext \<Rightarrow> Task \<Rightarrow> error + DriverHandle"

record table_stats =
  InsertCount :: int
  UpdateCount :: int
  DelCount :: int

record num_time =
  Num :: int
  Time :: int

record TaskStatistics =
  TableStats :: "table_stats option"
  DelayCount :: "num_time option"
  ThroughputStat :: "num_time option"

text \<open>A channel that is only ever closed: \<open>destroyCh\<close>, \<open>unblockCh\<close>, \<open>waitCh\<close>.\<close>

datatype signal_chan = Open_chan | Closed_chan

text \<open>What the logger and the updater have received, oldest first.\<close>

datatype log_arg = S string | E "error option" | D duration | Ev "TaskEvent option"

datatype log_line = Printf string "log_arg list"

record update =
  upd_task :: string
  upd_state :: string
  upd_event :: "TaskEvent option"

text \<open>
  The \<open>Worker\<close> struct without its locks. \<open>startCh\<close> has capacity 1 and carries empty
  structs, so it is the number of buffered signals; \<open>restartCh\<close> is unbuffered and has
  no state. \<open>'rt\<close> is the restart tracker.
\<close>

record 'rt Worker =
  config :: ClientConfig
  updater :: "update list"
  logger :: "log_line list"
  alloc :: Allocation
  restartTracker :: 'rt
  running :: bool
  taskStats :: "TaskStatistics option"
  task :: "Task option"
  handle :: "DriverHandle option"
  payloadRendered :: bool
  startCh :: nat
  unblockCh :: signal_chan
  unblocked :: bool
  destroy :: bool
  destroyCh :: signal_chan
  destroyEvent :: "TaskEvent option"
  waitCh :: signal_chan

text \<open>A panic ends the program; the message is kept.\<close>

type_synonym 'a or_panic = "string + 'a"

definition close_chan :: "signal_chan \<Rightarrow> signal_chan or_panic" where
  "close_chan c = (case c of Open_chan \<Rightarrow> Inr Closed_chan
                   | Closed_chan \<Rightarrow> Inl ''close of closed channel'')"

definition nil_deref :: string where
  "nil_deref = ''invalid memory address or nil pointer dereference''"

text \<open>\<open>NewWorker\<close>, after the lookup of the task in the job has succeeded.\<close>

definition NewWorker ::
  "ClientConfig \<Rightarrow> Allocation \<Rightarrow> 'rt \<Rightarrow> Task option \<Rightarrow> 'rt Worker" where
  "NewWorker cfg al rt t =
     \<lparr>config = cfg, updater = [], logger = [], alloc = al, restartTracker = rt,
      running = False, taskStats = None, task = t, handle = None,
      payloadRendered = False, startCh = 0, unblockCh = Open_chan, unblocked = False,
      destroy = False, destroyCh = Open_chan, destroyEvent = None, waitCh = Open_chan\<rparr>"

text \<open>A worker and a handle for the examples.\<close>

definition sample_worker :: "unit Worker" where
  "sample_worker =
     NewWorker \<lparr>StateDir = ''/var'', Version = ''1'', StatsCollectionInterval = Second,
                 PublishAllocationMetrics = True\<rparr>
       \<lparr>AllocID = ''a1'', JobName = ''job'', AllocTask = ''src''\<rparr> ()
       (Some \<lparr>TaskType = ''src'', TaskDriver = ''mysql''\<rparr>)"

definition sample_handle :: DriverHandle where
  "sample_handle = \<lparr>ID = ''h1'', Shutdown = (\<lambda>k. None)\<rparr>"

section \<open>worker.go: Destroy and UnblockStart\<close>

text \<open>
  Both run under their own lock from the first statement to the last, so a call is one
  atomic step on the worker.
\<close>

definition Destroy :: "TaskEvent option \<Rightarrow> 'rt Worker \<Rightarrow> 'rt Worker or_panic" where
  "Destroy event r =
     (if destroy r then Inr r
      else (case close_chan (destroyCh r) of
              Inl p \<Rightarrow> Inl p
            | Inr c \<Rightarrow> Inr (r\<lparr>destroy := True, destroyEvent := event, destroyCh := c\<rparr>)))"

definition UnblockStart :: "string \<Rightarrow> 'rt Worker \<Rightarrow> 'rt Worker or_panic" where
  "UnblockStart source r =
     (if unblocked r then Inr r
      else (case task r of
              None \<Rightarrow> Inl nil_deref
            | Some t \<Rightarrow>
               (let r1 = r\<lparr>logger := logger r @
                            [Printf ''[DEBUG] client: unblocking task %v for alloc %q: %v''
                               [S (TaskType t), S (AllocID (alloc r)), S source] ]\<rparr>
                in case close_chan (unblockCh r1) of
                     Inl p \<Rightarrow> Inl p
                   | Inr c \<Rightarrow> Inr (r1\<lparr>unblocked := True, unblockCh := c\<rparr>))))"

text \<open>Calls one after the other; a panic ends the sequence.\<close>

fun Destroy_calls :: "TaskEvent option list \<Rightarrow> 'rt Worker \<Rightarrow> 'rt Worker or_panic" where
  "Destroy_calls [] r = Inr r"
| "Destroy_calls (e # es) r =
     (case Destroy e r of Inl p \<Rightarrow> Inl p | Inr r' \<Rightarrow> Destroy_calls es r')"

fun UnblockStart_calls :: "string list \<Rightarrow> 'rt Worker \<Rightarrow> 'rt Worker or_panic" where
  "UnblockStart_calls [] r = Inr r"
| "UnblockStart_calls (s # ss) r =
     (case UnblockStart s r of Inl p \<Rightarrow> Inl p | Inr r' \<Rightarrow> UnblockStart_calls ss r')"

section \<open>worker.go: the persisted state\<close>

record workerState =
  snap_Version :: string
  snap_Task :: "Task option"
  snap_HandleID :: string
  snap_PayloadRendered :: bool

text \<open>
  Modelled from the spec: \<open>persistState\<close> and \<open>restoreState\<close> are declared in a file that
  is not among the sources. The specification gives \<open>persist(path, snapshot)\<close> as an
  atomic write that succeeds or fails with an i/o error, and \<open>restore(path)\<close> as returning
  the snapshot, or failing when there is no file or the file is corrupt. A disk is its
  files, each a snapshot or corrupt, and the error with which it refuses writes, if it
  does. The encoding of a snapshot is taken to be lossless.
\<close>

datatype stored = Snapshot workerState | Corrupt

type_synonym path = "string list"

record disk =
  files :: "path \<rightharpoonup> stored"
  write_error :: "error option"

definition persistState :: "path \<Rightarrow> workerState \<Rightarrow> disk \<Rightarrow> error option \<times> disk" where
  "persistState p snap d =
     (case write_error d of
        Some e \<Rightarrow> (Some e, d)
      | None \<Rightarrow> (None, d\<lparr>files := (files d)(p \<mapsto> Snapshot snap)\<rparr>))"

definition restoreState :: "path \<Rightarrow> disk \<Rightarrow> error + workerState" where
  "restoreState p d =
     (case files d p of
        None \<Rightarrow> Inl ''no such file''
      | Some Corrupt \<Rightarrow> Inl ''failed to decode state''
      | Some (Snapshot snap) \<Rightarrow> Inr snap)"

text \<open>
  \<open>stateFilePath\<close>: the components that \<open>filepath.Join\<close> puts together. \<open>md5hex\<close> is
  the hexadecimal MD5 of the Go library, a parameter.
\<close>

definition stateFilePath :: "(string \<Rightarrow> string) \<Rightarrow> 'rt Worker \<Rightarrow> path or_panic" where
  "stateFilePath md5hex r =
     (case task r of
        None \<Rightarrow> Inl nil_deref
      | Some t \<Rightarrow>
          Inr [StateDir (config r), ''alloc'', AllocID (alloc r),
               ''task-'' @ md5hex (TaskType t), ''store.json''])"

definition SaveState ::
  "(string \<Rightarrow> string) \<Rightarrow> 'rt Worker \<Rightarrow> disk \<Rightarrow> (error option \<times> disk) or_panic" where
  "SaveState md5hex r d =
     (let snap = \<lparr>snap_Version = Version (config r), snap_Task = task r,
                  snap_HandleID = [], snap_PayloadRendered = payloadRendered r\<rparr>;
          snap = (case handle r of
                    Some h \<Rightarrow> snap\<lparr>snap_HandleID := ID h\<rparr>
                  | None \<Rightarrow> snap)
      in case stateFilePath md5hex r of
           Inl p \<Rightarrow> Inl p
         | Inr file \<Rightarrow> Inr (persistState file snap d))"

text \<open>
  \<open>createDriver\<close>: \<open>nd\<close> is what \<open>driver.NewDriver\<close> returns when it is called, a driver
  or an error.
\<close>

definition createDriver :: "error + Driver \<Rightarrow> 'rt Worker \<Rightarrow> (error + Driver) or_panic" where
  "createDriver nd r =
     (case task r of
        None \<Rightarrow> Inl nil_deref
      | Some t \<Rightarrow>
         (case nd of
            Inl err \<Rightarrow>
              Inr (Inl (''failed to create driver '' @ SQ @ TaskDriver t @ SQ @ '' for alloc ''
                        @ AllocID (alloc r) @ '': '' @ err))
          | Inr d \<Rightarrow> Inr (Inr d)))"

text \<open>The result is the error returned and the worker as \<open>RestoreState\<close> leaves it.\<close>

definition RestoreState ::
  "(string \<Rightarrow> string) \<Rightarrow> error + Driver \<Rightarrow> 'rt Worker \<Rightarrow> disk
     \<Rightarrow> (error option \<times> 'rt Worker) or_panic" where
  "RestoreState md5hex nd r d =
     (case stateFilePath md5hex r of
        Inl p \<Rightarrow> Inl p
      | Inr file \<Rightarrow>
         (case restoreState file d of
            Inl err \<Rightarrow> Inr (Some err, r)
          | Inr snap \<Rightarrow>
             (case snap_Task snap of
                None \<Rightarrow> Inr (Some ''task runner snapshot includes nil Task'', r)
              | Some t \<Rightarrow>
                 (let r = r\<lparr>task := Some t, payloadRendered := snap_PayloadRendered snap\<rparr>
                  in if snap_HandleID snap \<noteq> [] then
                       (case createDriver nd r of
                          Inl p \<Rightarrow> Inl p
                        | Inr (Inl err) \<Rightarrow> Inr (Some err, r)
                        | Inr (Inr drv) \<Rightarrow>
                           (case Open drv (NewExecContext (JobName (alloc r)) (TaskType t))
                                   (snap_HandleID snap) of
                              Inl err \<Rightarrow>
                                Inr (None,
                                     r\<lparr>logger := logger r @
                                        [Printf ''[ERR] client: failed to open handle to task %q for alloc %q: %v''
                                           [S (TaskType t), S (AllocID (alloc r)), E (Some err)] ]\<rparr>)
                            | Inr h \<Rightarrow> Inr (None, r\<lparr>handle := Some h, running := True\<rparr>)))
                     else Inr (None, r)))))"

text \<open>A driver that opens every handle id, and an empty disk, for the examples.\<close>

definition sample_driver :: Driver where
  "sample_driver =
     \<lparr>Open = (\<lambda>ctx hid. Inr \<lparr>ID = hid, Shutdown = (\<lambda>k. None)\<rparr>),
      Start = (\<lambda>ctx t. Inr \<lparr>ID = ''h1'', Shutdown = (\<lambda>k. None)\<rparr>)\<rparr>"

definition empty_disk :: disk where
  "empty_disk = \<lparr>files = Map.empty, write_error = None\<rparr>"

section \<open>worker.go: prestart\<close>

text \<open>
  A statement either falls through to the next one, returns from the function, or blocks
  for good on a channel. A block runs its statements in order and stops at the first that
  does not fall through, so statements written after a \<open>return\<close> stay in the model.
\<close>

datatype flow = Next | Return | Blocked

fun block :: "('s \<Rightarrow> flow \<times> 's) list \<Rightarrow> 's \<Rightarrow> flow \<times> 's" where
  "block [] s = (Next, s)"
| "block (c # cs) s = (case c s of (Next, s') \<Rightarrow> block cs s' | (f, s') \<Rightarrow> (f, s'))"

text \<open>\<open>for { body }\<close>: the loop ends when the body returns or blocks.\<close>

partial_function (option) forever :: "('s \<Rightarrow> flow \<times> 's) \<Rightarrow> 's \<Rightarrow> (flow \<times> 's) option" where
  "forever body s =
     (case body s of
        (Next, s') \<Rightarrow> forever body s'
      | (f, s') \<Rightarrow> Some (f, s'))"

declare forever.simps [code]

text \<open>A buffered channel of booleans: its capacity and what it holds.\<close>

record bool_chan =
  cap :: nat
  buf :: "bool list"

type_synonym 'rt prestart_state = "'rt Worker \<times> bool_chan"

text \<open>\<open>select { case r.startCh <- struct{}{}: default: }\<close>, on a channel of capacity 1.\<close>

definition send_start :: "'rt prestart_state \<Rightarrow> flow \<times> 'rt prestart_state" where
  "send_start s =
     (case s of (r, ch) \<Rightarrow>
        if startCh r < 1 then (Next, (r\<lparr>startCh := startCh r + 1\<rparr>, ch)) else (Next, (r, ch)))"

text \<open>\<open>resultCh <- v\<close>: blocks while the buffer is full.\<close>

definition send_result :: "bool \<Rightarrow> 'rt prestart_state \<Rightarrow> flow \<times> 'rt prestart_state" where
  "send_result v s =
     (case s of (r, ch) \<Rightarrow>
        if length (buf ch) < cap ch then (Next, (r, ch\<lparr>buf := buf ch @ [v]\<rparr>))
        else (Blocked, (r, ch)))"

definition return_stmt :: "'s \<Rightarrow> flow \<times> 's" where
  "return_stmt s = (Return, s)"

text \<open>
  The second \<open>select\<close>, on \<open>unblockCh\<close> and \<open>waitCh\<close>: a closed channel is ready; when both
  are ready Go picks one, here by \<open>pick_unblock\<close>; when none is, the select blocks.
\<close>

definition wait_unblock :: "bool \<Rightarrow> 'rt prestart_state \<Rightarrow> flow \<times> 'rt prestart_state" where
  "wait_unblock pick_unblock s =
     (case s of (r, ch) \<Rightarrow>
        if unblockCh r = Closed_chan \<and> (waitCh r = Open_chan \<or> pick_unblock)
        then block [send_start, send_result True, return_stmt] s
        else if waitCh r = Closed_chan
        then block [send_result False, return_stmt] s
        else (Blocked, s))"

definition prestart_body :: "bool \<Rightarrow> 'rt prestart_state \<Rightarrow> flow \<times> 'rt prestart_state" where
  "prestart_body pick_unblock =
     block [send_start, send_result True, return_stmt, wait_unblock pick_unblock]"

definition prestart ::
  "bool \<Rightarrow> 'rt Worker \<Rightarrow> bool_chan \<Rightarrow> (flow \<times> 'rt prestart_state) option" where
  "prestart pick_unblock r resultCh = forever (prestart_body pick_unblock) (r, resultCh)"

section \<open>worker.go: the stats collector\<close>

text \<open>\<open>strings.Contains s substr\<close>.\<close>

fun Contains :: "string \<Rightarrow> string \<Rightarrow> bool" where
  "Contains [] substr = (substr = [])"
| "Contains (c # s) substr = (prefix substr (c # s) \<or> Contains s substr)"

text \<open>
  A gauge set on the metrics sink: its key and the count it was given (the source converts
  the count to \<open>float32\<close>; the count itself is kept here).
\<close>

record gauge =
  gauge_key :: "string list"
  gauge_value :: int

definition alloc_gauge :: "'rt Worker \<Rightarrow> Task \<Rightarrow> string \<Rightarrow> string \<Rightarrow> int \<Rightarrow> gauge" where
  "alloc_gauge r t grp name v =
     \<lparr>gauge_key = [''client'', ''allocs'', JobName (alloc r), AllocTask (alloc r),
                   AllocID (alloc r), TaskType t, grp, name],
      gauge_value = v\<rparr>"

text \<open>\<open>emitStats\<close>: \<open>r.task.Type\<close> is read only where a gauge is set.\<close>

definition emitStats :: "'rt Worker \<Rightarrow> TaskStatistics \<Rightarrow> gauge list or_panic" where
  "emitStats r ru =
     (let wanted =
        (case TableStats ru of
           Some ts \<Rightarrow> if PublishAllocationMetrics (config r)
                      then [(''table'', ''insert'', InsertCount ts),
                            (''table'', ''update'', UpdateCount ts),
                            (''table'', ''delete'', DelCount ts)] else []
         | None \<Rightarrow> []) @
        (case DelayCount ru of
           Some dc \<Rightarrow> if PublishAllocationMetrics (config r)
                      then [(''delay'', ''num'', Num dc), (''delay'', ''time'', Time dc)] else []
         | None \<Rightarrow> []) @
        (case ThroughputStat ru of
           Some tp \<Rightarrow> if PublishAllocationMetrics (config r)
                      then [(''throughput'', ''num'', Num tp), (''throughput'', ''time'', Time tp)]
                      else []
         | None \<Rightarrow> [])
      in if wanted = [] then Inr []
         else (case task r of
                 None \<Rightarrow> Inl nil_deref
               | Some t \<Rightarrow> Inr (map (\<lambda>(grp, name, v). alloc_gauge r t grp name v) wanted)))"

text \<open>
  What the collector's \<open>select\<close> receives: the timer, with what \<open>handle.Stats()\<close> returns
  if it is called then, or the close of \<open>stopCollection\<close>. The run loop assigns
  \<open>r.handle\<close> while the collector runs; \<open>HandleIs\<close> is such an assignment.
\<close>

datatype collector_event =
    Tick "error + TaskStatistics option"
  | StopCollection
  | HandleIs "DriverHandle option"

datatype collector_status = Collecting | Returned | Panicked string

text \<open>The worker, the gauges set so far, and the number of calls of \<open>Stats\<close>.\<close>

record 'rt collector =
  cw :: "'rt Worker"
  gauges :: "gauge list"
  stats_calls :: nat

text \<open>
  \<open>notImpl\<close> is the message of \<open>driver.DriverStatsNotImplemented\<close>, which is declared in
  a package that is not among the sources.
\<close>

fun collectResourceUsageStats ::
  "error \<Rightarrow> collector_event list \<Rightarrow> 'rt collector \<Rightarrow> collector_status \<times> 'rt collector" where
  "collectResourceUsageStats notImpl [] c = (Collecting, c)"
| "collectResourceUsageStats notImpl (StopCollection # evs) c = (Returned, c)"
| "collectResourceUsageStats notImpl (HandleIs h # evs) c =
     collectResourceUsageStats notImpl evs (c\<lparr>cw := (cw c)\<lparr>handle := h\<rparr>\<rparr>)"
| "collectResourceUsageStats notImpl (Tick res # evs) c =
     (case handle (cw c) of
        None \<Rightarrow> collectResourceUsageStats notImpl evs c
      | Some h \<Rightarrow>
         (let c1 = c\<lparr>stats_calls := stats_calls c + 1\<rparr> in
          case res of
            Inl err \<Rightarrow>
              if err = notImpl then
                (case task (cw c1) of
                   None \<Rightarrow> (Panicked nil_deref, c1)
                 | Some t \<Rightarrow>
                    (Returned,
                     c1\<lparr>cw := (cw c1)\<lparr>logger := logger (cw c1) @
                       [Printf ''[DEBUG] client: driver for task %q in allocation %q doesn't support stats''
                          [S (TaskType t), S (AllocID (alloc (cw c1)))] ]\<rparr>\<rparr>))
              else if \<not> Contains err ''connection is shut down'' then
                (case task (cw c1) of
                   None \<Rightarrow> (Panicked nil_deref, c1)
                 | Some t \<Rightarrow>
                    collectResourceUsageStats notImpl evs
                      (c1\<lparr>cw := (cw c1)\<lparr>logger := logger (cw c1) @
                         [Printf ''[WARN] client: error fetching stats of task %v: %v''
                            [S (TaskType t), E (Some err)] ]\<rparr>\<rparr>))
              else collectResourceUsageStats notImpl evs c1
          | Inr ru \<Rightarrow>
              (let c2 = c1\<lparr>cw := (cw c1)\<lparr>taskStats := ru\<rparr>\<rparr> in
               case ru of
                 None \<Rightarrow> collectResourceUsageStats notImpl evs c2
               | Some u \<Rightarrow>
                  (case emitStats (cw c2) u of
                     Inl p \<Rightarrow> (Panicked p, c2)
                   | Inr gs \<Rightarrow>
                      collectResourceUsageStats notImpl evs (c2\<lparr>gauges := gauges c2 @ gs\<rparr>)))))"

section \<open>builder.go: strings\<close>

text \<open>\<open>strings.Join\<close>.\<close>

fun Join :: "string list \<Rightarrow> string \<Rightarrow> string" where
  "Join [] sep = []"
| "Join [x] sep = x"
| "Join (x # y # ys) sep = x @ sep @ Join (y # ys) sep"

text \<open>The verb \<open>%d\<close> of \<open>fmt\<close>: a decimal numeral, with a sign when negative.\<close>

definition digit_char :: "nat \<Rightarrow> char" where
  "digit_char d = ''0123456789'' ! d"

function Utoa :: "nat \<Rightarrow> string" where
  "Utoa n = (if n < 10 then [digit_char n] else Utoa (n div 10) @ [digit_char (n mod 10)])"
  by pat_completeness auto
termination
  by (relation "measure id") auto

declare Utoa.simps [simp del]

definition Itoa :: "int \<Rightarrow> string" where
  "Itoa i = (if i < 0 then ''-'' @ Utoa (nat (- i)) else Utoa (nat i))"

definition NL :: string where
  "NL = [CHR 0x0A]"

definition TAB :: string where
  "TAB = [CHR 0x09]"

section \<open>builder.go: column lists\<close>

text \<open>
  Modelled from the spec: the column list of the package \<open>config/mysql\<close> is not among the
  sources. A column has a name, a type (only the enum type matters to the builder) and
  an optional timezone conversion, given by its target timezone; a column list is the
  columns in order and the map \<open>Ordinals\<close> from a name to its position. \<open>IsSubsetOf\<close>
  holds when every name of the one list is a key of the other's \<open>Ordinals\<close>.
\<close>

datatype column_type = EnumColumnType | OtherColumnType

record Column =
  Name :: string
  ColType :: column_type
  TimezoneConversion :: "string option"

record ColumnList =
  columns :: "Column list"
  Ordinals :: "string \<rightharpoonup> nat"

definition Names :: "ColumnList \<Rightarrow> string list" where
  "Names cl = map Name (columns cl)"

definition Len :: "ColumnList \<Rightarrow> nat" where
  "Len cl = length (columns cl)"

definition IsSubsetOf :: "ColumnList \<Rightarrow> ColumnList \<Rightarrow> bool" where
  "IsSubsetOf this other = list_all (\<lambda>c. Ordinals other (Name c) \<noteq> None) (columns this)"

text \<open>Reading a Go map of ints at a missing key gives 0.\<close>

definition ordinal :: "ColumnList \<Rightarrow> string \<Rightarrow> nat" where
  "ordinal cl name = (case Ordinals cl name of Some i \<Rightarrow> i | None \<Rightarrow> 0)"

text \<open>Indexing a slice panics out of range.\<close>

definition index :: "'a list \<Rightarrow> nat \<Rightarrow> 'a or_panic" where
  "index xs i = (if i < length xs then Inr (xs ! i) else Inl ''index out of range'')"

section \<open>builder.go: comparisons\<close>

text \<open>
  \<open>strconv.Unquote\<close> belongs to the Go library; it is the parameter \<open>Unquote\<close> of every
  function that escapes a name, \<open>None\<close> being its error.
\<close>

definition EscapeName :: "(string \<Rightarrow> string option) \<Rightarrow> string \<Rightarrow> string" where
  "EscapeName Unquote name =
     (let name = (case Unquote name of Some unquoted \<Rightarrow> unquoted | None \<Rightarrow> name)
      in ''`'' @ name @ ''`'')"

text \<open>\<open>make\<close> followed by an assignment to every index.\<close>

definition buildPreparedValues :: "nat \<Rightarrow> string list" where
  "buildPreparedValues n = fold (\<lambda>i values. values[i := ''?'']) [0..<n] (replicate n [])"

definition buildColumnsPreparedValues :: "ColumnList \<Rightarrow> string list" where
  "buildColumnsPreparedValues cl =
     fold (\<lambda>i values.
             values[i := (case TimezoneConversion (columns cl ! i) of
                            Some tz \<Rightarrow> ''convert_tz(?, '' @ SQ @ tz @ SQ @ '', '' @ SQ @ ''+00:00'' @ SQ @ '')''
                          | None \<Rightarrow> ''?'')])
       [0..<Len cl] (replicate (Len cl) [])"

definition duplicateNames :: "string list \<Rightarrow> string list" where
  "duplicateNames names = fold (\<lambda>i d. d[i := names ! i]) [0..<length names]
                             (replicate (length names) [])"

text \<open>A Go function that returns \<open>(result, err)\<close> returns that pair here.\<close>

definition BuildValueComparison ::
  "(string \<Rightarrow> string option) \<Rightarrow> string \<Rightarrow> string \<Rightarrow> string \<Rightarrow> string \<times> error option" where
  "BuildValueComparison Unquote column val comparisonSign =
     (if column = [] then ([], Some ''Empty column in GetValueComparison'')
      else if val = [] then ([], Some ''Empty value in GetValueComparison'')
      else (''('' @ EscapeName Unquote column @ '' '' @ comparisonSign @ '' '' @ val @ '')'',
            None))"

text \<open>
  A \<open>range\<close> loop that may return from inside: once \<open>err\<close> is set the remaining rounds do
  nothing.
\<close>

definition equals_round ::
  "(string \<Rightarrow> string option) \<Rightarrow> string list \<Rightarrow> string list \<Rightarrow> nat
     \<Rightarrow> string list \<times> error option \<Rightarrow> string list \<times> error option" where
  "equals_round Unquote cols vals i st =
     (case st of
        (comparisons, Some e) \<Rightarrow> (comparisons, Some e)
      | (comparisons, None) \<Rightarrow>
          (case BuildValueComparison Unquote (cols ! i) (vals ! i) ''='' of
             (comparison, Some e) \<Rightarrow> (comparisons, Some e)
           | (comparison, None) \<Rightarrow> (comparisons @ [comparison], None)))"

definition BuildEqualsComparison ::
  "(string \<Rightarrow> string option) \<Rightarrow> string list \<Rightarrow> string list \<Rightarrow> string \<times> error option" where
  "BuildEqualsComparison Unquote cols vals =
     (if length cols = 0 then ([], Some ''Got 0 columns in GetEqualsComparison'')
      else if length cols \<noteq> length vals then
        ([], Some (''Got '' @ Itoa (int (length cols)) @ '' columns but ''
                   @ Itoa (int (length vals)) @ '' values in GetEqualsComparison''))
      else (case fold (equals_round Unquote cols vals) [0..<length cols] ([], None) of
              (comparisons, Some e) \<Rightarrow> ([], Some e)
            | (comparisons, None) \<Rightarrow> (''('' @ Join comparisons '' and '' @ '')'', None)))"

definition BuildEqualsPreparedComparison ::
  "(string \<Rightarrow> string option) \<Rightarrow> string list \<Rightarrow> string \<times> error option" where
  "BuildEqualsPreparedComparison Unquote cols =
     BuildEqualsComparison Unquote cols (buildPreparedValues (length cols))"

definition BuildSetPreparedClause ::
  "(string \<Rightarrow> string option) \<Rightarrow> ColumnList \<Rightarrow> string \<times> error option" where
  "BuildSetPreparedClause Unquote cl =
     (if Len cl = 0 then ([], Some ''Got 0 columns in BuildSetPreparedClause'')
      else (Join (map (\<lambda>column.
                    case TimezoneConversion column of
                      Some tz \<Rightarrow> EscapeName Unquote (Name column) @ ''=convert_tz(?, '' @ SQ
                                   @ tz @ SQ @ '', '' @ SQ @ ''+00:00'' @ SQ @ '')''
                    | None \<Rightarrow> EscapeName Unquote (Name column) @ ''=?'') (columns cl)) '', '',
            None))"

definition range_round ::
  "(string \<Rightarrow> string option) \<Rightarrow> string list \<Rightarrow> string list \<Rightarrow> 'a list \<Rightarrow> string \<Rightarrow> nat
     \<Rightarrow> string list \<times> 'a list \<times> error option \<Rightarrow> string list \<times> 'a list \<times> error option" where
  "range_round Unquote cols vals args comparisonSign i st =
     (case st of
        (comparisons, explodedArgs, Some e) \<Rightarrow> (comparisons, explodedArgs, Some e)
      | (comparisons, explodedArgs, None) \<Rightarrow>
          (case BuildValueComparison Unquote (cols ! i) (vals ! i) comparisonSign of
             (rangeComparison, Some e) \<Rightarrow> (comparisons, explodedArgs, Some e)
           | (rangeComparison, None) \<Rightarrow>
               if length (take i cols) > 0 then
                 (case BuildEqualsComparison Unquote (take i cols) (take i vals) of
                    (equalitiesComparison, Some e) \<Rightarrow> (comparisons, explodedArgs, Some e)
                  | (equalitiesComparison, None) \<Rightarrow>
                      (comparisons @
                         [''('' @ equalitiesComparison @ '' AND '' @ rangeComparison @ '')''],
                       (explodedArgs @ take i args) @ [args ! i], None))
               else (comparisons @ [rangeComparison], explodedArgs @ [args ! i], None)))"

text \<open>The result is \<open>(result, explodedArgs, err)\<close>.\<close>

definition BuildRangeComparison ::
  "(string \<Rightarrow> string option) \<Rightarrow> string list \<Rightarrow> string list \<Rightarrow> 'a list \<Rightarrow> string
     \<Rightarrow> string \<times> 'a list \<times> error option" where
  "BuildRangeComparison Unquote cols vals args comparisonSign =
     (if length cols = 0 then ([], [], Some ''Got 0 columns in GetRangeComparison'')
      else if length cols \<noteq> length vals then
        ([], [], Some (''Got '' @ Itoa (int (length cols)) @ '' columns but ''
                       @ Itoa (int (length vals)) @ '' values in GetEqualsComparison''))
      else if length cols \<noteq> length args then
        ([], [], Some (''Got '' @ Itoa (int (length cols)) @ '' columns but ''
                       @ Itoa (int (length args)) @ '' args in GetEqualsComparison''))
      else
        (let (sign1, includeEquals1) =
               (if comparisonSign = ''<='' then (''<'', True) else (comparisonSign, False));
             (sign2, includeEquals) =
               (if sign1 = ''>='' then (''>'', True) else (sign1, includeEquals1))
         in case fold (range_round Unquote cols vals args sign2) [0..<length cols]
                   ([], [], None) of
              (comparisons, explodedArgs, Some e) \<Rightarrow> ([], explodedArgs, Some e)
            | (comparisons, explodedArgs, None) \<Rightarrow>
                if includeEquals then
                  (case BuildEqualsComparison Unquote cols vals of
                     (comparison, Some e) \<Rightarrow> ([], explodedArgs, None)
                   | (comparison, None) \<Rightarrow>
                       (''('' @ Join (comparisons @ [comparison]) '' or '' @ '')'',
                        explodedArgs @ args, None))
                else (''('' @ Join comparisons '' or '' @ '')'', explodedArgs, None)))"

definition BuildRangePreparedComparison ::
  "(string \<Rightarrow> string option) \<Rightarrow> ColumnList \<Rightarrow> 'a list \<Rightarrow> string
     \<Rightarrow> string \<times> 'a list \<times> error option" where
  "BuildRangePreparedComparison Unquote cl args comparisonSign =
     BuildRangeComparison Unquote (Names cl) (buildColumnsPreparedValues cl) args comparisonSign"

section \<open>The range predicate as the specification writes it\<close>

text \<open>
  The predicate is a disjunction of fragments. The strict fragment \<open>i\<close> says that the
  columns before \<open>i\<close> equal their values and column \<open>i\<close> compares by \<open>op\<close>; the last
  fragment of the inclusive form says that all columns equal their values. An atom is a
  column index with its operator; a fragment's atoms are listed in the order in which the
  fragment prints them, and so in the order of their placeholders.
\<close>

datatype fragment = Strict string nat | AllEqual nat

fun atoms_of :: "fragment \<Rightarrow> (nat \<times> string) list" where
  "atoms_of (Strict op i) = map (\<lambda>j. (j, ''='')) [0..<i] @ [(i, op)]"
| "atoms_of (AllEqual n) = map (\<lambda>j. (j, ''='')) [0..<n]"

definition range_fragments :: "nat \<Rightarrow> string \<Rightarrow> bool \<Rightarrow> fragment list" where
  "range_fragments n op inclusive =
     map (Strict op) [0..<n] @ (if inclusive then [AllEqual n] else [])"

definition render_atom ::
  "(string \<Rightarrow> string option) \<Rightarrow> string list \<Rightarrow> string list \<Rightarrow> nat \<times> string \<Rightarrow> string" where
  "render_atom Unquote cols vals a =
     ''('' @ EscapeName Unquote (cols ! fst a) @ '' '' @ snd a @ '' '' @ vals ! fst a @ '')''"

definition render_conjunction ::
  "(string \<Rightarrow> string option) \<Rightarrow> string list \<Rightarrow> string list \<Rightarrow> (nat \<times> string) list \<Rightarrow> string" where
  "render_conjunction Unquote cols vals as =
     ''('' @ Join (map (render_atom Unquote cols vals) as) '' and '' @ '')''"

fun render_fragment ::
  "(string \<Rightarrow> string option) \<Rightarrow> string list \<Rightarrow> string list \<Rightarrow> fragment \<Rightarrow> string" where
  "render_fragment Unquote cols vals (Strict op i) =
     (if i = 0 then render_atom Unquote cols vals (0, op)
      else ''('' @ render_conjunction Unquote cols vals (butlast (atoms_of (Strict op i)))
           @ '' AND '' @ render_atom Unquote cols vals (i, op) @ '')'')"
| "render_fragment Unquote cols vals (AllEqual n) =
     render_conjunction Unquote cols vals (atoms_of (AllEqual n))"

definition range_predicate ::
  "(string \<Rightarrow> string option) \<Rightarrow> string list \<Rightarrow> string list \<Rightarrow> string \<Rightarrow> bool \<Rightarrow> string" where
  "range_predicate Unquote cols vals op inclusive =
     ''('' @ Join (map (render_fragment Unquote cols vals)
                     (range_fragments (length cols) op inclusive)) '' or '' @ '')''"

text \<open>The arguments in the order of the placeholders of the fragments.\<close>

definition placeholder_args :: "'a list \<Rightarrow> string \<Rightarrow> bool \<Rightarrow> 'a list" where
  "placeholder_args args op inclusive =
     map (\<lambda>a. args ! fst a) (concat (map atoms_of (range_fragments (length args) op inclusive)))"

section \<open>builder.go: queries\<close>

text \<open>
  \<open>names = duplicateNames(names)\<close> followed by
  \<open>for i := range names { names[i] = EscapeName(names[i]) }\<close>.
\<close>

definition escape_each :: "(string \<Rightarrow> string option) \<Rightarrow> string list \<Rightarrow> string list" where
  "escape_each Unquote names =
     fold (\<lambda>i ns. ns[i := EscapeName Unquote (ns ! i)]) [0..<length names]
       (duplicateNames names)"

definition BuildRangeInsertQuery ::
  "(string \<Rightarrow> string option) \<Rightarrow> string \<Rightarrow> string \<Rightarrow> string \<Rightarrow> string list \<Rightarrow> string list
     \<Rightarrow> string \<Rightarrow> ColumnList \<Rightarrow> string list \<Rightarrow> string list \<Rightarrow> 'a list \<Rightarrow> 'a list
     \<Rightarrow> bool \<Rightarrow> bool \<Rightarrow> string \<times> 'a list \<times> error option" where
  "BuildRangeInsertQuery Unquote databaseName originalTableName ghostTableName sharedColumns
     mappedSharedColumns uniqueKey uniqueKeyColumns rangeStartValues rangeEndValues
     rangeStartArgs rangeEndArgs includeRangeStartValues transactionalTable =
     (if length sharedColumns = 0 then
        ([], [], Some ''Got 0 shared columns in BuildRangeInsertQuery'')
      else
        (let databaseName = EscapeName Unquote databaseName;
             originalTableName = EscapeName Unquote originalTableName;
             ghostTableName = EscapeName Unquote ghostTableName;
             mappedSharedColumnsListing = Join (escape_each Unquote mappedSharedColumns) '', '';
             sharedColumnsListing = Join (escape_each Unquote sharedColumns) '', '';
             uniqueKey = EscapeName Unquote uniqueKey;
             minRangeComparisonSign = (if includeRangeStartValues then ''>='' else ''>'')
         in case BuildRangeComparison Unquote (Names uniqueKeyColumns) rangeStartValues
                   rangeStartArgs minRangeComparisonSign of
              (rangeStartComparison, rangeExplodedArgs, Some e) \<Rightarrow> ([], [], Some e)
            | (rangeStartComparison, rangeExplodedArgs, None) \<Rightarrow>
                (let explodedArgs = [] @ rangeExplodedArgs
                 in case BuildRangeComparison Unquote (Names uniqueKeyColumns) rangeEndValues
                           rangeEndArgs ''<='' of
                      (rangeEndComparison, rangeExplodedArgs, Some e) \<Rightarrow>
                        ([], explodedArgs, Some e)
                    | (rangeEndComparison, rangeExplodedArgs, None) \<Rightarrow>
                        (let explodedArgs = explodedArgs @ rangeExplodedArgs;
                             transactionalClause =
                               (if transactionalTable then ''lock in share mode'' else [])
                         in (NL @ ''      insert ignore into '' @ databaseName @ ''.''
                               @ ghostTableName @ '' ('' @ mappedSharedColumnsListing @ '')'' @ NL
                             @ ''      (select '' @ sharedColumnsListing @ '' from ''
                               @ databaseName @ ''.'' @ originalTableName
                               @ '' force index ('' @ uniqueKey @ '')'' @ NL
                             @ ''        where ('' @ rangeStartComparison @ '' and ''
                               @ rangeEndComparison @ '') '' @ transactionalClause @ NL
                             @ ''      )'' @ NL
                             @ ''    '',
                             explodedArgs, None)))))"

text \<open>
  One round of the loop over the unique key columns: the name is escaped in place, and
  the ascending and descending order terms are stored at the same index.
\<close>

definition order_round ::
  "(string \<Rightarrow> string option) \<Rightarrow> ColumnList \<Rightarrow> nat
     \<Rightarrow> string list \<times> string list \<times> string list \<Rightarrow> string list \<times> string list \<times> string list" where
  "order_round Unquote cl i st =
     (case st of (names, ascending, descending) \<Rightarrow>
        (let names = names[i := EscapeName Unquote (names ! i)]
         in if ColType (columns cl ! i) = EnumColumnType
            then (names, ascending[i := ''concat('' @ names ! i @ '') asc''],
                  descending[i := ''concat('' @ names ! i @ '') desc''])
            else (names, ascending[i := names ! i @ '' asc''],
                  descending[i := names ! i @ '' desc''])))"

text \<open>\<open>chunkSize\<close> is an \<open>int64\<close>, printed by \<open>%d\<close>.\<close>

definition BuildRangeSelectQuery ::
  "(string \<Rightarrow> string option) \<Rightarrow> string \<Rightarrow> string \<Rightarrow> string \<Rightarrow> string list \<Rightarrow> string list
     \<Rightarrow> string \<Rightarrow> ColumnList \<Rightarrow> string list \<Rightarrow> string list \<Rightarrow> 'a list \<Rightarrow> 'a list
     \<Rightarrow> bool \<Rightarrow> 64 word \<Rightarrow> string \<times> 'a list \<times> error option" where
  "BuildRangeSelectQuery Unquote databaseName originalTableName ghostTableName sharedColumns
     mappedSharedColumns uniqueKey uniqueKeyColumns rangeStartValues rangeEndValues
     rangeStartArgs rangeEndArgs includeRangeStartValues chunkSize =
     (if length sharedColumns = 0 then
        ([], [], Some ''Got 0 shared columns in BuildRangeSelectQuery'')
      else
        (let databaseName = EscapeName Unquote databaseName;
             originalTableName = EscapeName Unquote originalTableName;
             ghostTableName = EscapeName Unquote ghostTableName;
             sharedColumnsListing = Join (escape_each Unquote sharedColumns) '', '';
             uniqueKey = EscapeName Unquote uniqueKey
         in case BuildRangeComparison Unquote (Names uniqueKeyColumns) rangeEndValues
                   rangeEndArgs ''<='' of
              (rangeEndComparison, rangeExplodedArgs, Some e) \<Rightarrow> ([], [], Some e)
            | (rangeEndComparison, rangeExplodedArgs, None) \<Rightarrow>
                (let explodedArgs = [] @ rangeExplodedArgs;
                     uniqueKeyColumnNames = duplicateNames (Names uniqueKeyColumns);
                     n = length uniqueKeyColumnNames;
                     (uniqueKeyColumnNames, uniqueKeyColumnAscending, uniqueKeyColumnDescending) =
                        fold (order_round Unquote uniqueKeyColumns) [0..<Len uniqueKeyColumns]
                          (uniqueKeyColumnNames, replicate n [], replicate n [])
                 in (NL @ TAB @ ''select '' @ sharedColumnsListing @ NL
                     @ TAB @ TAB @ ''from'' @ NL
                     @ TAB @ TAB @ TAB @ databaseName @ ''.'' @ originalTableName @ NL
                     @ TAB @ TAB @ ''force index ('' @ uniqueKey @ '')'' @ NL
                     @ TAB @ TAB @ ''where ('' @ rangeEndComparison @ '')'' @ NL
                     @ TAB @ TAB @ ''order by'' @ NL
                     @ TAB @ TAB @ TAB @ Join uniqueKeyColumnAscending '', '' @ NL
                     @ TAB @ TAB @ ''limit '' @ Itoa (sint chunkSize) @ NL
                     @ ''    '',
                     explodedArgs, None))))"

text \<open>
  \<open>ConvertArg\<close> is a method of the column type, which is not among the sources; it is a
  parameter. The rows of \<open>columnValues\<close> are their abstract values.
\<close>

fun convert_columns ::
  "(Column \<Rightarrow> 'a \<Rightarrow> 'a) \<Rightarrow> ColumnList \<Rightarrow> Column list \<Rightarrow> 'a list \<Rightarrow> 'a list
     \<Rightarrow> 'a list or_panic" where
  "convert_columns ConvertArg tableColumns [] args acc = Inr acc"
| "convert_columns ConvertArg tableColumns (column # cs) args acc =
     (case index args (ordinal tableColumns (Name column)) of
        Inl p \<Rightarrow> Inl p
      | Inr a \<Rightarrow> convert_columns ConvertArg tableColumns cs args (acc @ [ConvertArg column a]))"

fun convert_rows ::
  "(Column \<Rightarrow> 'a \<Rightarrow> 'a) \<Rightarrow> ColumnList \<Rightarrow> Column list \<Rightarrow> 'a list list \<Rightarrow> 'a list
     \<Rightarrow> 'a list or_panic" where
  "convert_rows ConvertArg tableColumns cs [] acc = Inr acc"
| "convert_rows ConvertArg tableColumns cs (valueArgs # rows) acc =
     (case convert_columns ConvertArg tableColumns cs valueArgs acc of
        Inl p \<Rightarrow> Inl p
      | Inr acc' \<Rightarrow> convert_rows ConvertArg tableColumns cs rows acc')"

text \<open>The result is \<open>(result, sharedArgs, uniqueKeyArgs, err)\<close>, or a panic.\<close>

definition BuildDMLUpdateQuery ::
  "(string \<Rightarrow> string option) \<Rightarrow> (Column \<Rightarrow> 'a \<Rightarrow> 'a) \<Rightarrow> string \<Rightarrow> string
     \<Rightarrow> ColumnList \<Rightarrow> ColumnList \<Rightarrow> ColumnList \<Rightarrow> 'a list list \<Rightarrow> 'a list
     \<Rightarrow> (string \<times> 'a list \<times> 'a list \<times> error option) or_panic" where
  "BuildDMLUpdateQuery Unquote ConvertArg databaseName tableName tableColumns sharedColumns
     mappedSharedColumns columnValues whereArgs =
     (if \<exists>valueArgs \<in> set columnValues. length valueArgs \<noteq> Len tableColumns then
        Inr ([], [], [],
             Some ''value args count differs from table column count in BuildDMLUpdateQuery'')
      else if length whereArgs \<noteq> Len tableColumns then
        Inr ([], [], [],
             Some ''where args count differs from table column count in BuildDMLUpdateQuery'')
      else if \<not> IsSubsetOf sharedColumns tableColumns then
        Inr ([], [], [],
             Some ''shared columns is not a subset of table columns in BuildDMLUpdateQuery'')
      else if Len sharedColumns = 0 then
        Inr ([], [], [], Some ''No shared columns found in BuildDMLUpdateQuery'')
      else
        (let databaseName = EscapeName Unquote databaseName;
             tableName = EscapeName Unquote tableName
         in case convert_rows ConvertArg tableColumns (columns sharedColumns) columnValues [] of
              Inl p \<Rightarrow> Inl p
            | Inr sharedArgs \<Rightarrow>
               (case convert_columns ConvertArg tableColumns (columns tableColumns) whereArgs [] of
                  Inl p \<Rightarrow> Inl p
                | Inr uniqueKeyArgs \<Rightarrow>
                   (let (setClause, err) = BuildSetPreparedClause Unquote mappedSharedColumns;
                        (equalsComparison, err) =
                          BuildEqualsPreparedComparison Unquote (Names tableColumns)
                    in Inr (NL @ '' '' @ TAB @ TAB @ TAB @ ''update'' @ NL
                            @ '' '' @ TAB @ TAB @ TAB @ TAB @ TAB
                              @ databaseName @ ''.'' @ tableName @ NL
                            @ TAB @ TAB @ TAB @ TAB @ ''set'' @ NL
                            @ TAB @ TAB @ TAB @ TAB @ TAB @ setClause @ NL
                            @ TAB @ TAB @ TAB @ TAB @ ''where'' @ NL
                            @ '' '' @ TAB @ TAB @ TAB @ TAB @ TAB @ equalsComparison @ NL
                            @ '' '' @ TAB @ TAB,
                            sharedArgs, uniqueKeyArgs, None)))))"

text \<open>
  The order term of a unique key column as the specification gives it: the escaped name,
  wrapped in \<open>concat\<close> for a column of enum type.
\<close>

definition order_term :: "(string \<Rightarrow> string option) \<Rightarrow> string \<Rightarrow> Column \<Rightarrow> string" where
  "order_term Unquote dir c =
     (if ColType c = EnumColumnType
      then ''concat('' @ EscapeName Unquote (Name c) @ '') '' @ dir
      else EscapeName Unquote (Name c) @ '' '' @ dir)"

text \<open>A unique key of two columns, the second of enum type, for the examples.\<close>

definition sample_key :: ColumnList where
  "sample_key =
     \<lparr>columns = [\<lparr>Name = ''id'', ColType = OtherColumnType, TimezoneConversion = None\<rparr>,
                 \<lparr>Name = ''kind'', ColType = EnumColumnType, TimezoneConversion = None\<rparr>],
      Ordinals = [''id'' \<mapsto> 0, ''kind'' \<mapsto> 1]\<rparr>"

section \<open>worker.go: the run loop\<close>

text \<open>
  What the run loop uses and the sources do not hold: the restart tracker, whose methods
  act on a tracker state \<open>'rt\<close>; \<open>models.DefaultKillTimeout\<close>; and, from the Go library,
  the MD5 digest in hexadecimal and the quoting of the verb \<open>%q\<close>.
\<close>

record 'rt externals =
  SetStartError :: "error option \<Rightarrow> 'rt \<Rightarrow> 'rt"
  SetWaitResult :: "error \<Rightarrow> 'rt \<Rightarrow> 'rt"
  SetRestartTriggered :: "'rt \<Rightarrow> 'rt"
  GetState :: "'rt \<Rightarrow> (event_type \<times> duration) \<times> 'rt"
  GetReason :: "'rt \<Rightarrow> string"
  DefaultKillTimeout :: duration
  ext_md5hex :: "string \<Rightarrow> string"
  ext_quote :: "string \<Rightarrow> string"

text \<open>
  The run loop is one thread that blocks at a few places; between two of them it runs
  alone. A location is where it is blocked: at the \<open>select\<close> of the \<open>WAIT\<close> loop, at the
  receive from \<open>handleWaitCh\<close> in the restart case or in the destroy case, or at the
  \<open>select\<close> of \<open>shouldRestart\<close>, sleeping the restart delay. \<open>Exited\<close> is after \<open>Run\<close> has
  returned, with the \<open>return\<close> that ended it: the one of \<open>Run\<close> after the driver could
  not be created; those of the \<open>WAIT\<close> loop after a failed prestart, after a destroy of a
  task that is not running, and after a destroy of a running task; and the one after
  \<open>shouldRestart\<close> has returned false, which it does for the answer
  \<open>TaskNotRestarting\<close>, for the answer \<open>TaskTerminated\<close>, for an unknown answer, and when
  the worker is destroyed during the restart delay. \<open>Crashed\<close> is after a panic.
\<close>

datatype exit_reason =
    ExitSetupFailure | ExitPrestart | ExitDestroyIdle | ExitDestroyKilled
  | ExitNotRestarting | ExitTerminated | ExitUnknownState | ExitDestroyedInDelay

datatype location =
  AtWait | RestartDrain | DestroyDrain | RestartSleep duration
  | Exited exit_reason | Crashed string

text \<open>
  The worker, the disk, and the local variables of \<open>run\<close>: \<open>stopCollection\<close> is nil or a
  channel, \<open>handleWaitCh\<close> is nil or the handle's channel, \<open>prestartResultCh\<close> is the
  channel of the last \<open>prestart\<close>. \<open>collectors\<close> counts the collectors started.
\<close>

record 'rt machine =
  wk :: "'rt Worker"
  dsk :: disk
  pc :: location
  stopCollection :: "signal_chan option"
  handleWaitCh :: bool
  prestartResultCh :: bool_chan
  collectors :: nat

text \<open>
  A panic in the run loop: what has been done stays done, the deferred
  \<open>close(r.waitCh)\<close> of \<open>Run\<close> runs, and the program ends. A statement that follows a
  panic is not run.
\<close>

definition panic :: "string \<Rightarrow> 'rt machine \<Rightarrow> 'rt machine" where
  "panic p m = m\<lparr>wk := (wk m)\<lparr>waitCh := Closed_chan\<rparr>, pc := Crashed p\<rparr>"

definition crashed :: "'rt machine \<Rightarrow> bool" where
  "crashed m = (case pc m of Crashed p \<Rightarrow> True | _ \<Rightarrow> False)"

definition andthen :: "'rt machine \<Rightarrow> ('rt machine \<Rightarrow> 'rt machine) \<Rightarrow> 'rt machine" where
  "andthen m f = (if crashed m then m else f m)"

definition logf :: "string \<Rightarrow> log_arg list \<Rightarrow> 'rt Worker \<Rightarrow> 'rt Worker" where
  "logf fmt args r = r\<lparr>logger := logger r @ [Printf fmt args]\<rparr>"

definition setState ::
  "'rt externals \<Rightarrow> string \<Rightarrow> TaskEvent option \<Rightarrow> 'rt machine \<Rightarrow> 'rt machine" where
  "setState X state event m =
     (case SaveState (ext_md5hex X) (wk m) (dsk m) of
        Inl p \<Rightarrow> panic p m
      | Inr (err, d) \<Rightarrow>
         (case task (wk m) of
            None \<Rightarrow> panic nil_deref (m\<lparr>dsk := d\<rparr>)
          | Some t \<Rightarrow>
             (let r = (case err of
                         Some e \<Rightarrow>
                           logf ''[ERR] client: failed to save store of Task Runner for task %q: %v''
                             [S (TaskType t), E (Some e)] (wk m)
                       | None \<Rightarrow> wk m)
              in m\<lparr>wk := r\<lparr>updater := updater r @
                        [\<lparr>upd_task = TaskType t, upd_state = state, upd_event = event\<rparr>]\<rparr>,
                    dsk := d\<rparr>)))"

text \<open>The lines that \<open>handleDestroy\<close> logs.\<close>

fun kill_log :: "Task \<Rightarrow> Allocation \<Rightarrow> kill_effect list \<Rightarrow> log_line list" where
  "kill_log t al [] = []"
| "kill_log t al (LogRetry d e # es) =
     Printf (''[ERR] client: failed to kill task '' @ SQ @ ''%s'' @ SQ
             @ '' for alloc %q. Retrying in %v: %v'')
       [S (TaskType t), S (AllocID al), D d, E (Some e)] # kill_log t al es"
| "kill_log t al (_ # es) = kill_log t al es"

text \<open>
  \<open>killTask\<close>. A killing event that is passed is changed in place; the one caller that
  passes an event passes \<open>r.destroyEvent\<close>, so the change shows there.
\<close>

definition killTask ::
  "'rt externals \<Rightarrow> TaskEvent option \<Rightarrow> 'rt machine \<Rightarrow> 'rt machine" where
  "killTask X killingEvent m =
     (if \<not> running (wk m) then m
      else
        (let event = (case killingEvent of
                        Some e \<Rightarrow> e\<lparr>Type := TaskKilling\<rparr>
                      | None \<Rightarrow> NewTaskEvent TaskKilling);
             event = event\<lparr>KillTimeout := DefaultKillTimeout X\<rparr>;
             m = (case killingEvent of
                    Some e \<Rightarrow> m\<lparr>wk := (wk m)\<lparr>destroyEvent := Some event\<rparr>\<rparr>
                  | None \<Rightarrow> m)
         in andthen (setState X TaskStateRunning (Some event) m) (\<lambda>m.
              case handle (wk m) of
                None \<Rightarrow> panic nil_deref m
              | Some h \<Rightarrow>
                 (case task (wk m) of
                    None \<Rightarrow> panic nil_deref m
                  | Some t \<Rightarrow>
                     (case handleDestroy (Shutdown h) of
                        ((destroySuccess, err), eff) \<Rightarrow>
                          (let r = (wk m)\<lparr>logger := logger (wk m) @ kill_log t (alloc (wk m)) eff\<rparr>;
                               r = (if \<not> destroySuccess
                                    then logf ''[ERR] client: failed to kill task %q. Resources may have been leaked: %v''
                                           [S (TaskType t), E err] r
                                    else r);
                               r = r\<lparr>running := False\<rparr>
                           in setState X []
                                (Some ((NewTaskEvent TaskKilled)\<lparr>KillError := err\<rparr>))
                                (m\<lparr>wk := r\<rparr>)))))))"

text \<open>\<open>startTask\<close>: the error it returns, and the machine.\<close>

definition startTask ::
  "'rt externals \<Rightarrow> error + Driver \<Rightarrow> 'rt machine \<Rightarrow> error option \<times> 'rt machine" where
  "startTask X nd m =
     (case createDriver nd (wk m) of
        Inl p \<Rightarrow> (None, panic p m)
      | Inr res \<Rightarrow>
         (case task (wk m) of
            None \<Rightarrow> (None, panic nil_deref m)
          | Some t \<Rightarrow>
             (case res of
                Inl err \<Rightarrow>
                  (Some (''failed to create driver of task '' @ ext_quote X (TaskType t)
                         @ '' for alloc '' @ ext_quote X (AllocID (alloc (wk m)))
                         @ '': '' @ err), m)
              | Inr drv \<Rightarrow>
                 (case Start drv (NewExecContext (JobName (alloc (wk m))) (TaskType t)) t of
                    Inl err \<Rightarrow>
                      (let wrapped = ''failed to start task '' @ ext_quote X (TaskType t)
                             @ '' for alloc '' @ ext_quote X (AllocID (alloc (wk m)))
                             @ '': '' @ err
                       in (Some wrapped,
                           m\<lparr>wk := logf ''[WARN] client: %s'' [S wrapped] (wk m)\<rparr>))
                  | Inr h \<Rightarrow> (None, m\<lparr>wk := (wk m)\<lparr>handle := Some h\<rparr>\<rparr>)))))"

definition waitErrorToEvent :: "error \<Rightarrow> TaskEvent" where
  "waitErrorToEvent res = (NewTaskEvent TaskTerminated)\<lparr>ExitMessage := Some res\<rparr>"

text \<open>
  \<open>Run\<close> returns by the \<open>return\<close> \<open>e\<close>: the deferred \<open>close(r.waitCh)\<close> runs, and
  panics if the channel is closed already.
\<close>

definition exit_run :: "exit_reason \<Rightarrow> 'rt machine \<Rightarrow> 'rt machine" where
  "exit_run e m =
     (case close_chan (waitCh (wk m)) of
        Inl p \<Rightarrow> m\<lparr>pc := Crashed p\<rparr>
      | Inr c \<Rightarrow> m\<lparr>wk := (wk m)\<lparr>waitCh := c\<rparr>, pc := Exited e\<rparr>)"

text \<open>
  \<open>if !restart { r.setState(models.TaskStateDead, nil); return }\<close>; \<open>e\<close> is the reason
  for which \<open>shouldRestart\<close> has returned false.
\<close>

definition not_restarting ::
  "'rt externals \<Rightarrow> exit_reason \<Rightarrow> 'rt machine \<Rightarrow> 'rt machine" where
  "not_restarting X e m = andthen (setState X TaskStateDead None m) (exit_run e)"

text \<open>
  From the label \<open>RESTART\<close>: \<open>shouldRestart\<close> up to its \<open>select\<close>, where the machine
  sleeps, or up to its \<open>return false\<close>, after which \<open>run\<close> returns.
\<close>

definition restart_gate :: "'rt externals \<Rightarrow> 'rt machine \<Rightarrow> 'rt machine" where
  "restart_gate X m =
     (case GetState X (restartTracker (wk m)) of
        ((state, when), rt) \<Rightarrow>
          (let reason = GetReason X rt;
               m = m\<lparr>wk := (wk m)\<lparr>restartTracker := rt\<rparr>\<rparr>
           in case task (wk m) of
                None \<Rightarrow> panic nil_deref m
              | Some t \<Rightarrow>
                 if state = TaskNotRestarting \<or> state = TaskTerminated then
                   (let m = m\<lparr>wk := logf ''[INFO] client: Not restarting task: %v for alloc: %v ''
                                       [S (TaskType t), S (AllocID (alloc (wk m)))] (wk m)\<rparr>
                    in if state = TaskNotRestarting then
                         andthen (setState X TaskStateDead
                                    (Some ((NewTaskEvent TaskNotRestarting)
                                             \<lparr>RestartReason := reason, FailsTask := True\<rparr>)) m)
                           (not_restarting X ExitNotRestarting)
                       else not_restarting X ExitTerminated m)
                 else if state = TaskRestarting then
                   (let m = m\<lparr>wk := logf ''[INFO] client: Restarting task %q for alloc %q in %v''
                                       [S (TaskType t), S (AllocID (alloc (wk m))), D when]
                                       (wk m)\<rparr>
                    in andthen (setState X TaskStatePending
                                  (Some ((NewTaskEvent TaskRestarting)
                                           \<lparr>StartDelay := when, RestartReason := reason\<rparr>)) m)
                         (\<lambda>m. m\<lparr>pc := RestartSleep when\<rparr>))
                 else
                   not_restarting X ExitUnknownState
                     (m\<lparr>wk := logf ''[ERR] client: restart tracker returned unknown store: %q''
                                  [S (case state of TaskOther s \<Rightarrow> s | _ \<Rightarrow> [])] (wk m)\<rparr>)))"

text \<open>
  The head of the outer loop: a fresh result channel of capacity 1, and \<open>prestart\<close> in
  its own thread. It touches nothing but the two channels it sends on, so it is run
  here to its end.
\<close>

definition loop_head :: "'rt machine \<Rightarrow> 'rt machine" where
  "loop_head m =
     (case prestart False (wk m) \<lparr>cap = 1, buf = []\<rparr> of
        Some (f, (r, ch)) \<Rightarrow> m\<lparr>wk := r, prestartResultCh := ch, pc := AtWait\<rparr>
      | None \<Rightarrow> m\<lparr>prestartResultCh := \<lparr>cap = 1, buf = []\<rparr>, pc := AtWait\<rparr>)"

text \<open>
  \<open>shouldRestart\<close> after its \<open>select\<close>, and, when it returns true, the end of the outer
  loop's body.
\<close>

definition after_sleep :: "'rt externals \<Rightarrow> 'rt machine \<Rightarrow> 'rt machine" where
  "after_sleep X m =
     (if destroy (wk m) then
        (case task (wk m) of
           None \<Rightarrow> panic nil_deref m
         | Some t \<Rightarrow>
            andthen (setState X TaskStateDead (destroyEvent (wk m))
                       (m\<lparr>wk := logf ''[DEBUG] client: Not restarting task: %v because it has been destroyed''
                                    [S (TaskType t)] (wk m)\<rparr>))
              (not_restarting X ExitDestroyedInDelay))
      else
        loop_head (m\<lparr>wk := (wk m)\<lparr>handle := None\<rparr>, handleWaitCh := False,
                     stopCollection := None\<rparr>))"

definition close_stopCollection :: "'rt machine \<Rightarrow> 'rt machine" where
  "close_stopCollection m =
     (case stopCollection m of
        None \<Rightarrow> panic ''close of nil channel'' m
      | Some c \<Rightarrow>
         (case close_chan c of
            Inl p \<Rightarrow> panic p m
          | Inr c \<Rightarrow> m\<lparr>stopCollection := Some c\<rparr>))"

definition start_collector :: "'rt machine \<Rightarrow> 'rt machine" where
  "start_collector m = m\<lparr>stopCollection := Some Open_chan, collectors := collectors m + 1\<rparr>"

text \<open>The restart case after its receive from \<open>handleWaitCh\<close>.\<close>

definition after_restart_drain :: "'rt externals \<Rightarrow> 'rt machine \<Rightarrow> 'rt machine" where
  "after_restart_drain X m =
     restart_gate X
       (m\<lparr>wk := (wk m)\<lparr>restartTracker := SetRestartTriggered X (restartTracker (wk m))\<rparr>\<rparr>)"

text \<open>
  What happens to the run loop where it is blocked. A receive comes with what is
  received: from \<open>startCh\<close>, with what \<open>driver.NewDriver\<close> returns should the task be
  started; from \<open>handleWaitCh\<close>, the wait result; from \<open>restartCh\<close>, the event that
  \<open>Restart\<close> sends. \<open>CallDestroy\<close> is a call of \<open>Destroy\<close> by another thread.
\<close>

datatype run_input =
    RecvPrestart
  | RecvStart "error + Driver"
  | RecvHandleWait "error option"
  | RecvRestart TaskEvent
  | RecvDestroy
  | TimerFired
  | CallDestroy "TaskEvent option"

text \<open>
  The \<open>select\<close> of the \<open>WAIT\<close> loop. A case that is not ready does not happen: the
  machine stays as it is.
\<close>

definition wait_prestart :: "'rt externals \<Rightarrow> 'rt machine \<Rightarrow> 'rt machine" where
  "wait_prestart X m =
     (case buf (prestartResultCh m) of
        [] \<Rightarrow> m
      | success # rest \<Rightarrow>
         (let m = m\<lparr>prestartResultCh := (prestartResultCh m)\<lparr>buf := rest\<rparr>\<rparr>
          in if \<not> success then andthen (setState X TaskStateDead None m) (exit_run ExitPrestart)
             else m))"

definition wait_start :: "'rt externals \<Rightarrow> error + Driver \<Rightarrow> 'rt machine \<Rightarrow> 'rt machine" where
  "wait_start X nd m =
     (if startCh (wk m) = 0 then m
      else
        (let m = m\<lparr>wk := (wk m)\<lparr>startCh := startCh (wk m) - 1\<rparr>\<rparr>
         in if handle (wk m) = None then
              (case startTask X nd m of
                 (startErr, m) \<Rightarrow>
                   andthen m (\<lambda>m.
                     let m = m\<lparr>wk := (wk m)\<lparr>restartTracker :=
                                    SetStartError X startErr (restartTracker (wk m))\<rparr>\<rparr>
                     in case startErr of
                          Some e \<Rightarrow>
                            andthen (setState X []
                                       (Some ((NewTaskEvent TaskDriverFailure)
                                                \<lparr>DriverError := Some e\<rparr>)) m)
                              (restart_gate X)
                        | None \<Rightarrow>
                            andthen (setState X TaskStateRunning
                                       (Some (NewTaskEvent TaskStarted)) m)
                              (\<lambda>m. let m = m\<lparr>wk := (wk m)\<lparr>running := True\<rparr>\<rparr>;
                                       m = (if stopCollection m = None then start_collector m
                                            else m)
                                   in m\<lparr>handleWaitCh := True\<rparr>)))
            else m))"

definition wait_handle :: "'rt externals \<Rightarrow> error option \<Rightarrow> 'rt machine \<Rightarrow> 'rt machine" where
  "wait_handle X waitRes m =
     (if \<not> handleWaitCh m then m
      else
        (case waitRes of
           None \<Rightarrow> panic ''nil wait'' m
         | Some res \<Rightarrow>
            andthen (close_stopCollection (m\<lparr>wk := (wk m)\<lparr>running := False\<rparr>\<rparr>)) (\<lambda>m.
              andthen (setState X [] (Some (waitErrorToEvent res))
                         (m\<lparr>wk := (wk m)\<lparr>restartTracker :=
                                SetWaitResult X res (restartTracker (wk m))\<rparr>\<rparr>)) (\<lambda>m.
                case task (wk m) of
                  None \<Rightarrow> panic nil_deref m
                | Some t \<Rightarrow>
                   restart_gate X
                     (m\<lparr>wk := logf ''[ERR] client: task %q for alloc %q failed: %v''
                                 [S (TaskType t), S (AllocID (alloc (wk m))), E (Some res)]
                                 (wk m)\<rparr>)))))"

definition wait_restart :: "'rt externals \<Rightarrow> TaskEvent \<Rightarrow> 'rt machine \<Rightarrow> 'rt machine" where
  "wait_restart X event m =
     (case task (wk m) of
        None \<Rightarrow> panic nil_deref m
      | Some t \<Rightarrow>
         if \<not> running (wk m) then
           m\<lparr>wk := logf ''[DEBUG] client: skipping restart of %v: task isn't running''
                      [S (TaskType t), S (AllocID (alloc (wk m)))] (wk m)\<rparr>
         else
           andthen (setState X TaskStateRunning (Some event)
                      (m\<lparr>wk := logf ''[DEBUG] client: restarting %s: %v''
                                  [S (TaskType t), S (AllocID (alloc (wk m))),
                                   S (RestartReason event)] (wk m)\<rparr>)) (\<lambda>m.
             andthen (killTask X None m) (\<lambda>m.
               andthen (close_stopCollection m) (\<lambda>m.
                 if handleWaitCh m then m\<lparr>pc := RestartDrain\<rparr>
                 else after_restart_drain X m))))"

definition wait_destroy :: "'rt externals \<Rightarrow> 'rt machine \<Rightarrow> 'rt machine" where
  "wait_destroy X m =
     (if destroyCh (wk m) \<noteq> Closed_chan then m
      else if \<not> running (wk m) then
        andthen (setState X TaskStateDead (destroyEvent (wk m)) m) (exit_run ExitDestroyIdle)
      else
        (case destroyEvent (wk m) of
           None \<Rightarrow> panic nil_deref m
         | Some de \<Rightarrow>
            (case (if Type de \<noteq> TaskKilled then
                     (if Type de = TaskKilling then (Some de, m)
                      else (None, setState X TaskStateRunning (Some de) m))
                   else (None, m)) of
               (killEvent, m) \<Rightarrow>
                 andthen m (\<lambda>m.
                   andthen (killTask X killEvent m) (\<lambda>m.
                     andthen (close_stopCollection m) (\<lambda>m. m\<lparr>pc := DestroyDrain\<rparr>))))))"

text \<open>The destroy case after its receive from \<open>handleWaitCh\<close>.\<close>

definition after_destroy_drain :: "'rt externals \<Rightarrow> 'rt machine \<Rightarrow> 'rt machine" where
  "after_destroy_drain X m =
     andthen (setState X TaskStateDead None m) (exit_run ExitDestroyKilled)"

text \<open>
  A panic in \<open>Destroy\<close>, which another thread runs, ends the program as well; it is
  the \<open>close\<close> that panics, after the two assignments. The deferred \<open>close\<close> of \<open>Run\<close>
  belongs to the thread of the run loop and does not run then.
\<close>

fun step_at :: "'rt externals \<Rightarrow> location \<Rightarrow> run_input \<Rightarrow> 'rt machine \<Rightarrow> 'rt machine" where
  "step_at X l (CallDestroy event) m =
     (case Destroy event (wk m) of
        Inl p \<Rightarrow> m\<lparr>wk := (wk m)\<lparr>destroy := True, destroyEvent := event\<rparr>,
                   pc := Crashed p\<rparr>
      | Inr r \<Rightarrow> m\<lparr>wk := r\<rparr>)"
| "step_at X AtWait RecvPrestart m = wait_prestart X m"
| "step_at X AtWait (RecvStart nd) m = wait_start X nd m"
| "step_at X AtWait (RecvHandleWait waitRes) m = wait_handle X waitRes m"
| "step_at X AtWait (RecvRestart event) m = wait_restart X event m"
| "step_at X AtWait RecvDestroy m = wait_destroy X m"
| "step_at X RestartDrain (RecvHandleWait waitRes) m =
     (if handleWaitCh m then after_restart_drain X m else m)"
| "step_at X DestroyDrain (RecvHandleWait waitRes) m =
     (if handleWaitCh m then after_destroy_drain X m else m)"
| "step_at X (RestartSleep when) TimerFired m = after_sleep X m"
| "step_at X (RestartSleep when) RecvDestroy m =
     (if destroyCh (wk m) = Closed_chan then after_sleep X m else m)"
| "step_at X l i m = m"

text \<open>After the return of \<open>Run\<close> and after a panic nothing happens any more.\<close>

definition step :: "'rt externals \<Rightarrow> run_input \<Rightarrow> 'rt machine \<Rightarrow> 'rt machine" where
  "step X i m =
     (case pc m of
        Exited e \<Rightarrow> m
      | Crashed p \<Rightarrow> m
      | l \<Rightarrow> step_at X l i m)"

text \<open>
  \<open>run\<close> up to the first \<open>select\<close>, and \<open>Run\<close> up to there or to its return; \<open>nd\<close> is
  what \<open>driver.NewDriver\<close> returns to \<open>Run\<close>.
\<close>

definition run_entry :: "'rt machine \<Rightarrow> 'rt machine" where
  "run_entry m =
     loop_head (if handle (wk m) \<noteq> None then (start_collector m)\<lparr>handleWaitCh := True\<rparr>
                else m)"

definition Run :: "'rt externals \<Rightarrow> error + Driver \<Rightarrow> 'rt Worker \<Rightarrow> disk \<Rightarrow> 'rt machine" where
  "Run X nd r d =
     (let m = \<lparr>wk = r, dsk = d, pc = AtWait, stopCollection = None, handleWaitCh = False,
               prestartResultCh = \<lparr>cap = 1, buf = []\<rparr>, collectors = 0\<rparr>
      in case task r of
           None \<Rightarrow> panic nil_deref m
         | Some t \<Rightarrow>
            (let m = m\<lparr>wk := logf (''[DEBUG] client: starting task context for '' @ SQ
                                  @ ''%s'' @ SQ @ '' (alloc '' @ SQ @ ''%s'' @ SQ @ '')'')
                                [S (TaskType t), S (AllocID (alloc r))] r\<rparr>
             in case createDriver nd (wk m) of
                  Inl p \<Rightarrow> panic p m
                | Inr (Inl err) \<Rightarrow>
                    andthen (setState X TaskStateDead
                               (Some ((NewTaskEvent TaskSetupFailure)
                                  \<lparr>SetupError :=
                                     Some (''failed to create driver of task ''
                                           @ ext_quote X (TaskType t) @ '' for alloc ''
                                           @ ext_quote X (AllocID (alloc r)) @ '': '' @ err),
                                   FailsTask := True\<rparr>)) m)
                      (exit_run ExitSetupFailure)
                | Inr (Inr drv) \<Rightarrow> run_entry m))"

text \<open>The machine after \<open>Run\<close> has been called and the inputs have happened in order.\<close>

definition run_trace ::
  "'rt externals \<Rightarrow> error + Driver \<Rightarrow> 'rt Worker \<Rightarrow> disk \<Rightarrow> run_input list \<Rightarrow> 'rt machine" where
  "run_trace X nd r d ins = fold (step X) ins (Run X nd r d)"

text \<open>
  The state symbols that the updater has received since the worker \<open>r\<close>, the empty ones
  left out.
\<close>

definition symbols_since :: "'rt Worker \<Rightarrow> 'rt machine \<Rightarrow> string list" where
  "symbols_since r m =
     filter (\<lambda>s. s \<noteq> []) (map upd_state (drop (length (updater r)) (updater (wk m))))"

text \<open>
  The events that the updater has received with the symbol \<open>Dead\<close> since the worker
  \<open>r\<close>.
\<close>

definition dead_events_since :: "'rt Worker \<Rightarrow> 'rt machine \<Rightarrow> TaskEvent option list" where
  "dead_events_since r m =
     map upd_event (filter (\<lambda>u. upd_state u = TaskStateDead)
                      (drop (length (updater r)) (updater (wk m))))"

text \<open>
  The language \<open>Pending? (Running | Pending)* Dead\<close> of the specification.
\<close>

definition live_symbol :: "string \<Rightarrow> bool" where
  "live_symbol s = (s = TaskStatePending \<or> s = TaskStateRunning)"

definition dead_final :: "string list \<Rightarrow> bool" where
  "dead_final xs = (xs \<noteq> [] \<and> last xs = TaskStateDead \<and> list_all live_symbol (butlast xs))"

text \<open>
  Live symbols followed by \<open>n\<close> times \<open>Dead\<close>, and the number of \<open>Dead\<close> symbols with
  which each \<open>return\<close> ends a run: two where \<open>shouldRestart\<close> has given \<open>Dead\<close> to the
  updater itself before \<open>run\<close> gives it again, one everywhere else.
\<close>

definition ends_with_deads :: "nat \<Rightarrow> string list \<Rightarrow> bool" where
  "ends_with_deads n xs =
     (n \<le> length xs \<and> list_all live_symbol (take (length xs - n) xs)
      \<and> drop (length xs - n) xs = replicate n TaskStateDead)"

fun deaths :: "exit_reason \<Rightarrow> nat" where
  "deaths ExitNotRestarting = 2"
| "deaths ExitDestroyedInDelay = 2"
| "deaths ExitSetupFailure = 1"
| "deaths ExitPrestart = 1"
| "deaths ExitDestroyIdle = 1"
| "deaths ExitDestroyKilled = 1"
| "deaths ExitTerminated = 1"
| "deaths ExitUnknownState = 1"

text \<open>
  The kinds of the events that come with these \<open>Dead\<close> symbols, in order; \<open>None\<close> is
  the nil event of \<open>r.setState(models.TaskStateDead, nil)\<close>, and \<open>de\<close> is
  \<open>r.destroyEvent\<close>. Where there are two, the first is the one of \<open>shouldRestart\<close>
  and the second the one of \<open>run\<close>.
\<close>

fun dead_event_types :: "exit_reason \<Rightarrow> TaskEvent option \<Rightarrow> event_type option list" where
  "dead_event_types ExitNotRestarting de = [Some TaskNotRestarting, None]"
| "dead_event_types ExitDestroyedInDelay de = [map_option Type de, None]"
| "dead_event_types ExitSetupFailure de = [Some TaskSetupFailure]"
| "dead_event_types ExitPrestart de = [None]"
| "dead_event_types ExitDestroyIdle de = [map_option Type de]"
| "dead_event_types ExitDestroyKilled de = [None]"
| "dead_event_types ExitTerminated de = [None]"
| "dead_event_types ExitUnknownState de = [None]"

text \<open>Where the run loop waits: it has neither returned nor panicked.\<close>

definition blocked :: "location \<Rightarrow> bool" where
  "blocked l = (case l of Exited e \<Rightarrow> False | Crashed p \<Rightarrow> False | _ \<Rightarrow> True)"

text \<open>A restart tracker for the examples: it never restarts.\<close>

definition sample_externals :: "unit externals" where
  "sample_externals =
     \<lparr>SetStartError = (\<lambda>e rt. rt), SetWaitResult = (\<lambda>res rt. rt),
      SetRestartTriggered = (\<lambda>rt. rt), GetState = (\<lambda>rt. ((TaskNotRestarting, 0), rt)),
      GetReason = (\<lambda>rt. ''Policy allows no restarts''), DefaultKillTimeout = 5 * Second,
      ext_md5hex = (\<lambda>s. s), ext_quote = (\<lambda>s. ''\"'' @ s @ ''\"'')\<rparr>"

text \<open>
  For the proofs. \<open>gives m us m'\<close>: from the machine \<open>m\<close> to the machine \<open>m'\<close> the updater
  has received \<open>us\<close>. \<open>lives\<close>: updates whose symbol is empty, \<open>Pending\<close> or
  \<open>Running\<close>. \<open>finals\<close>: the updates with which the return \<open>e\<close> ends a run.
  \<open>dying\<close>: what a panic leaves of them.
\<close>

definition gives :: "'rt machine \<Rightarrow> update list \<Rightarrow> 'rt machine \<Rightarrow> bool" where
  "gives m us m' = (updater (wk m') = updater (wk m) @ us)"

definition lives :: "update list \<Rightarrow> bool" where
  "lives us = list_all (\<lambda>u. upd_state u = [] \<or> live_symbol (upd_state u)) us"

definition finals :: "exit_reason \<Rightarrow> TaskEvent option \<Rightarrow> update list \<Rightarrow> bool" where
  "finals e de fin =
     (map upd_state fin = replicate (deaths e) TaskStateDead
      \<and> map (\<lambda>u. map_option Type (upd_event u)) fin = dead_event_types e de)"

definition dying :: "update list \<Rightarrow> bool" where
  "dying fin = (length fin \<le> 2 \<and> list_all (\<lambda>u. upd_state u = TaskStateDead) fin)"

text \<open>
  The updates \<open>us\<close> fit the machine \<open>m\<close>: all live where the run loop waits; live ones
  and then the final ones of the return after \<open>Run\<close> has returned; live ones and then
  at most two \<open>Dead\<close> after a panic.
\<close>

definition fine :: "update list \<Rightarrow> 'rt machine \<Rightarrow> bool" where
  "fine us m =
     (case pc m of
        Exited e \<Rightarrow>
          (\<exists>live fin. us = live @ fin \<and> lives live \<and> finals e (destroyEvent (wk m)) fin)
      | Crashed p \<Rightarrow> (\<exists>live fin. us = live @ fin \<and> lives live \<and> dying fin)
      | _ \<Rightarrow> lives us)"

text \<open>
  A stretch of the run loop that gives only live updates and stays where it is, unless
  it panics; and a stretch after which the updates given fit the machine.
\<close>

definition quiet :: "'rt machine \<Rightarrow> 'rt machine \<Rightarrow> bool" where
  "quiet m m' = ((crashed m' \<or> pc m' = pc m) \<and> (\<exists>us. gives m us m' \<and> lives us))"

definition advance :: "'rt machine \<Rightarrow> 'rt machine \<Rightarrow> bool" where
  "advance m m' = (\<exists>us. gives m us m' \<and> fine us m')"

text \<open>What holds of every machine of a run that \<open>Run\<close> began on the worker \<open>r\<close>.\<close>

definition lifecycle_inv :: "'rt Worker \<Rightarrow> 'rt machine \<Rightarrow> bool" where
  "lifecycle_inv r m = (\<exists>us. updater (wk m) = updater r @ us \<and> fine us m)"

section \<open>The kill executor: bounded attempts and backoff\<close>


lemma handleDestroy_loop_fail:
  "i < 5 \<Longrightarrow> sd i = Some e \<Longrightarrow>
   handleDestroy_loop sd i err eff = handleDestroy_loop sd (Suc i) (Some e) (eff @ retry_effects sd i)"
  by (subst handleDestroy_loop.simps) (simp add: killFailureLimit_def retry_effects_def)

lemma handleDestroy_loop_ok:
  "i < 5 \<Longrightarrow> sd i = None \<Longrightarrow> handleDestroy_loop sd i err eff = ((True, None), eff @ [CallShutdown])"
  by (subst handleDestroy_loop.simps) (simp add: killFailureLimit_def)

lemma handleDestroy_loop_end: "handleDestroy_loop sd 5 err eff = ((False, err), eff)"
  by (subst handleDestroy_loop.simps) (simp add: killFailureLimit_def)

lemma handleDestroy_loop_success:
  "k < 5 \<Longrightarrow> i \<le> k \<Longrightarrow> \<forall>j. i \<le> j \<and> j < k \<longrightarrow> sd j \<noteq> None \<Longrightarrow> sd k = None \<Longrightarrow>
   handleDestroy_loop sd i err eff =
     ((True, None), eff @ concat (map (retry_effects sd) [i..<k]) @ [CallShutdown])"
proof (induction "k - i" arbitrary: i err eff)
  case 0
  then have "i = k" by simp
  with 0 show ?case by (simp add: handleDestroy_loop_ok)
next
  case (Suc d)
  then have lt: "i < k" and i5: "i < 5" by simp_all
  with Suc.prems obtain e where e: "sd i = Some e" by auto
  have "handleDestroy_loop sd (Suc i) (Some e) (eff @ retry_effects sd i) =
        ((True, None), (eff @ retry_effects sd i) @ concat (map (retry_effects sd) [Suc i..<k]) @ [CallShutdown])"
    using Suc.hyps(2) Suc.prems lt by (intro Suc.hyps(1)) auto
  then show ?case
    using lt i5 e by (simp add: handleDestroy_loop_fail [of i sd e] upt_conv_Cons)
qed

lemma handleDestroy_loop_exhaust:
  "i \<le> 5 \<Longrightarrow> \<forall>j. i \<le> j \<and> j < 5 \<longrightarrow> sd j \<noteq> None \<Longrightarrow>
   handleDestroy_loop sd i err eff =
     ((False, if i = 5 then err else sd 4), eff @ concat (map (retry_effects sd) [i..<5]))"
proof (induction "5 - i" arbitrary: i err eff)
  case 0
  then have "i = 5" by simp
  then show ?case by (simp add: handleDestroy_loop_end)
next
  case (Suc d)
  then have i5: "i < 5" by simp
  with Suc.prems obtain e where e: "sd i = Some e" by auto
  have "handleDestroy_loop sd (Suc i) (Some e) (eff @ retry_effects sd i) =
        ((False, if Suc i = 5 then Some e else sd 4),
         (eff @ retry_effects sd i) @ concat (map (retry_effects sd) [Suc i..<5]))"
    using Suc.hyps(2) Suc.prems i5 by (intro Suc.hyps(1)) auto
  moreover have "(if Suc i = 5 then Some e else sd 4) = sd 4"
    using e by auto
  ultimately show ?case
    using i5 e by (simp add: handleDestroy_loop_fail [of i sd e] upt_conv_Cons)
qed

lemma shutdown_calls_append: "shutdown_calls (xs @ ys) = shutdown_calls xs + shutdown_calls ys"
  by (simp add: shutdown_calls_def)

lemma shutdown_calls_retries: "shutdown_calls (concat (map (retry_effects sd) [i..<k])) = k - i"
  by (induction k) (simp_all add: shutdown_calls_def retry_effects_def Suc_diff_le)

lemma shutdown_calls_single: "shutdown_calls [CallShutdown] = 1"
  by (simp add: shutdown_calls_def)

lemma sleeps_append: "sleeps (xs @ ys) = sleeps xs @ sleeps ys"
  by (induction xs rule: sleeps.induct) simp_all

lemma sleeps_retries: "sleeps (concat (map (retry_effects sd) [i..<k])) = map kill_backoff [i..<k]"
  by (induction k) (simp_all add: sleeps_append retry_effects_def)

lemmas kill_consts = kill_backoff_def killBackoffBaseline_def killBackoffLimit_def Second_def Minute_def word_sless_alt

lemma kill_backoff_values:
  "kill_backoff 0 = 5 * Second" "kill_backoff (Suc 0) = 20 * Second" "kill_backoff 2 = 80 * Second"
  "kill_backoff 3 = 120 * Second" "kill_backoff 4 = 120 * Second"
  by (simp_all add: kill_consts)

lemma upt5: "[0..<5] = [0,1,2,3,4]"
  by (simp add: upt_rec)

lemma kill_backoff_list:
  "map kill_backoff [0..<5] = [5 * Second, 20 * Second, 80 * Second, 120 * Second, 120 * Second]"
  unfolding upt5 by (simp add: kill_backoff_values)

lemma kill_backoff_min:
  "i < 5 \<Longrightarrow> unat (kill_backoff i) = min (unat (5 * Second) * 4 ^ i) (unat (120 * Second))"
proof -
  assume "i < 5"
  then have "i = 0 \<or> i = 1 \<or> i = 2 \<or> i = 3 \<or> i = 4" by arith
  then show ?thesis
    by (elim disjE) (simp_all add: kill_backoff_values, simp_all add: Second_def)
qed

text \<open>
  Claim C2. Whatever the handle's \<open>Shutdown\<close> answers, \<open>handleDestroy\<close> calls it at
  most 5 times. If the call with zero-based index \<open>k < 5\<close> is the first to succeed, the
  result is \<open>(true, nil)\<close> after \<open>k + 1\<close> calls and the sleeps of the failed attempts
  \<open>0 .. k - 1\<close>. If the first 5 calls all fail, the result is \<open>(false, err)\<close> with the
  error of the fifth call, after sleeping 5s, 20s, 80s, 120s and 120s. The sleep after
  the failed attempt \<open>i\<close> is \<open>min (5s * 4^i) 120s\<close>.
\<close>

theorem handleDestroy_attempts_and_backoff:
  "shutdown_calls (snd (handleDestroy sd)) \<le> 5
   \<and> (\<forall>k<5. (\<forall>j<k. sd j \<noteq> None) \<and> sd k = None \<longrightarrow>
         fst (handleDestroy sd) = (True, None)
         \<and> shutdown_calls (snd (handleDestroy sd)) = k + 1
         \<and> sleeps (snd (handleDestroy sd)) = map kill_backoff [0..<k])
   \<and> ((\<forall>j<5. sd j \<noteq> None) \<longrightarrow>
         fst (handleDestroy sd) = (False, sd 4)
         \<and> shutdown_calls (snd (handleDestroy sd)) = 5
         \<and> sleeps (snd (handleDestroy sd))
             = [5 * Second, 20 * Second, 80 * Second, 120 * Second, 120 * Second])
   \<and> (\<forall>i<5. unat (kill_backoff i) = min (unat (5 * Second) * 4 ^ i) (unat (120 * Second)))"
proof -
  have ok: "fst (handleDestroy sd) = (True, None)
         \<and> shutdown_calls (snd (handleDestroy sd)) = k + 1
         \<and> sleeps (snd (handleDestroy sd)) = map kill_backoff [0..<k]"
    if "k < 5" "\<forall>j<k. sd j \<noteq> None" "sd k = None" for k
    using handleDestroy_loop_success [of k 0 sd None "[]"] that
    by (simp add: handleDestroy_def shutdown_calls_append shutdown_calls_retries
        sleeps_append sleeps_retries shutdown_calls_single)
  have bad: "fst (handleDestroy sd) = (False, sd 4)
         \<and> shutdown_calls (snd (handleDestroy sd)) = 5
         \<and> sleeps (snd (handleDestroy sd))
             = [5 * Second, 20 * Second, 80 * Second, 120 * Second, 120 * Second]"
    if "\<forall>j<5. sd j \<noteq> None"
    using handleDestroy_loop_exhaust [of 0 sd None "[]"] that
    by (simp add: handleDestroy_def shutdown_calls_retries sleeps_retries kill_backoff_list)
  have le: "shutdown_calls (snd (handleDestroy sd)) \<le> 5"
  proof (cases "\<forall>j<5. sd j \<noteq> None")
    case True
    with bad show ?thesis by simp
  next
    case False
    then obtain k where k: "k < 5 \<and> sd k = None" by auto
    define m where "m = (LEAST k. k < 5 \<and> sd k = None)"
    have m: "m < 5 \<and> sd m = None" unfolding m_def using k by (rule LeastI)
    have "\<forall>j<m. sd j \<noteq> None"
    proof (intro allI impI notI)
      fix j assume "j < m" "sd j = None"
      then have "j < 5 \<and> sd j = None" using m by simp
      then have "m \<le> j" unfolding m_def by (rule Least_le)
      with \<open>j < m\<close> show False by simp
    qed
    with ok [of m] m show ?thesis by simp
  qed
  from le ok bad kill_backoff_min show ?thesis by blast
qed

theorem handleDestroy_attempts_and_backoff_witness:
  "fst (handleDestroy (\<lambda>k. if k < 2 then Some ''busy'' else None)) = (True, None)
   \<and> shutdown_calls (snd (handleDestroy (\<lambda>k. if k < 2 then Some ''busy'' else None))) = 3
   \<and> sleeps (snd (handleDestroy (\<lambda>k. if k < 2 then Some ''busy'' else None)))
        = [5 * Second, 20 * Second]
   \<and> fst (handleDestroy (\<lambda>k. Some ''busy'')) = (False, Some ''busy'')
   \<and> shutdown_calls (snd (handleDestroy (\<lambda>k. Some ''busy''))) = 5
   \<and> sleeps (snd (handleDestroy (\<lambda>k. Some ''busy'')))
        = [5 * Second, 20 * Second, 80 * Second, 120 * Second, 120 * Second]"
proof -
  let ?sd = "\<lambda>k::nat. if k < 2 then Some ''busy'' else None"
  have "\<forall>k<5. (\<forall>j<k. ?sd j \<noteq> None) \<and> ?sd k = None \<longrightarrow>
         fst (handleDestroy ?sd) = (True, None)
         \<and> shutdown_calls (snd (handleDestroy ?sd)) = k + 1
         \<and> sleeps (snd (handleDestroy ?sd)) = map kill_backoff [0..<k]"
    using handleDestroy_attempts_and_backoff [of ?sd] by blast
  then have "(2::nat) < 5 \<and> (\<forall>j<2. ?sd j \<noteq> None) \<and> ?sd 2 = None \<longrightarrow>
         fst (handleDestroy ?sd) = (True, None)
         \<and> shutdown_calls (snd (handleDestroy ?sd)) = 2 + 1
         \<and> sleeps (snd (handleDestroy ?sd)) = map kill_backoff [0..<2]"
    by blast
  moreover have "[0..<2] = [0, Suc 0]"
    by (simp add: upt_rec)
  ultimately have first: "fst (handleDestroy ?sd) = (True, None)
         \<and> shutdown_calls (snd (handleDestroy ?sd)) = 3
         \<and> sleeps (snd (handleDestroy ?sd)) = [5 * Second, 20 * Second]"
    by (simp add: kill_backoff_values)
  have second: "fst (handleDestroy (\<lambda>k. Some ''busy'')) = (False, Some ''busy'')
         \<and> shutdown_calls (snd (handleDestroy (\<lambda>k. Some ''busy''))) = 5
         \<and> sleeps (snd (handleDestroy (\<lambda>k. Some ''busy'')))
             = [5 * Second, 20 * Second, 80 * Second, 120 * Second, 120 * Second]"
    using handleDestroy_attempts_and_backoff [of "\<lambda>k. Some ''busy''"] by simp
  from first second show ?thesis by simp
qed
section \<open>Destroy and UnblockStart are one-shot\<close>


lemma Destroy_after: "Destroy e r = Inr r' \<Longrightarrow> Destroy e' r' = Inr r'"
  by (auto simp: Destroy_def split: if_splits sum.splits)

lemma Destroy_calls_after: "destroy r \<Longrightarrow> Destroy_calls es r = Inr r"
  by (induction es) (simp_all add: Destroy_def)

lemma Destroy_sets: "Destroy e r = Inr r' \<Longrightarrow> destroy r'"
  by (auto simp: Destroy_def split: if_splits sum.splits)

lemma UnblockStart_sets: "UnblockStart e r = Inr r' \<Longrightarrow> unblocked r'"
  by (auto simp: UnblockStart_def Let_def split: if_splits sum.splits option.splits)

lemma UnblockStart_calls_after: "unblocked r \<Longrightarrow> UnblockStart_calls es r = Inr r"
  by (induction es) (simp_all add: UnblockStart_def)

text \<open>
  Claim C6. \<open>Destroy\<close> and \<open>UnblockStart\<close> are idempotent: any number of calls, one after
  the other, gives what the first call alone gives. The first \<open>Destroy\<close> on a worker
  whose latch is unset sets \<open>destroy\<close>, stores its event and closes \<open>destroyCh\<close>; a call
  on a worker whose latch is set changes nothing, so the event stays that of the first
  call and the channel is not closed a second time (which would panic).
  \<open>UnblockStart\<close> does the same with \<open>unblocked\<close> and \<open>unblockCh\<close>, and logs one line.
\<close>

theorem Destroy_UnblockStart_idempotent:
  "Destroy_calls (e # es) r = Destroy e r
   \<and> UnblockStart_calls (s # ss) r = UnblockStart s r
   \<and> (\<not> destroy r \<and> destroyCh r = Open_chan \<longrightarrow>
        Destroy e r = Inr (r\<lparr>destroy := True, destroyEvent := e, destroyCh := Closed_chan\<rparr>))
   \<and> (destroy r \<longrightarrow> Destroy e r = Inr r)
   \<and> (\<not> unblocked r \<and> unblockCh r = Open_chan \<and> task r = Some t \<longrightarrow>
        UnblockStart s r =
          Inr (r\<lparr>logger := logger r @
                    [Printf ''[DEBUG] client: unblocking task %v for alloc %q: %v''
                       [S (TaskType t), S (AllocID (alloc r)), S s] ],
                 unblocked := True, unblockCh := Closed_chan\<rparr>))
   \<and> (unblocked r \<longrightarrow> UnblockStart s r = Inr r)"
proof -
  have a: "Destroy_calls (e # es) r = Destroy e r"
    by (cases "Destroy e r") (simp_all add: Destroy_sets Destroy_calls_after)
  have b: "UnblockStart_calls (s # ss) r = UnblockStart s r"
    by (cases "UnblockStart s r") (simp_all add: UnblockStart_sets UnblockStart_calls_after)
  show ?thesis
    unfolding a b by (simp add: Destroy_def UnblockStart_def close_chan_def)
qed


theorem Destroy_UnblockStart_idempotent_witness:
  "Destroy_calls [Some (NewTaskEvent TaskKilling), Some (NewTaskEvent TaskKilled), None]
      (NewWorker \<lparr>StateDir = ''/var'', Version = ''1'', StatsCollectionInterval = Second,
                   PublishAllocationMetrics = True\<rparr>
         \<lparr>AllocID = ''a1'', JobName = ''job'', AllocTask = ''src''\<rparr> ()
         (Some \<lparr>TaskType = ''src'', TaskDriver = ''mysql''\<rparr>))
    = Inr ((NewWorker \<lparr>StateDir = ''/var'', Version = ''1'', StatsCollectionInterval = Second,
                   PublishAllocationMetrics = True\<rparr>
         \<lparr>AllocID = ''a1'', JobName = ''job'', AllocTask = ''src''\<rparr> ()
         (Some \<lparr>TaskType = ''src'', TaskDriver = ''mysql''\<rparr>))
           \<lparr>destroy := True, destroyEvent := Some (NewTaskEvent TaskKilling),
            destroyCh := Closed_chan\<rparr>)
   \<and> UnblockStart_calls [''template'', ''again'']
      (NewWorker \<lparr>StateDir = ''/var'', Version = ''1'', StatsCollectionInterval = Second,
                   PublishAllocationMetrics = True\<rparr>
         \<lparr>AllocID = ''a1'', JobName = ''job'', AllocTask = ''src''\<rparr> ()
         (Some \<lparr>TaskType = ''src'', TaskDriver = ''mysql''\<rparr>))
    = Inr ((NewWorker \<lparr>StateDir = ''/var'', Version = ''1'', StatsCollectionInterval = Second,
                   PublishAllocationMetrics = True\<rparr>
         \<lparr>AllocID = ''a1'', JobName = ''job'', AllocTask = ''src''\<rparr> ()
         (Some \<lparr>TaskType = ''src'', TaskDriver = ''mysql''\<rparr>))
           \<lparr>logger := [Printf ''[DEBUG] client: unblocking task %v for alloc %q: %v''
                          [S ''src'', S ''a1'', S ''template''] ],
            unblocked := True, unblockCh := Closed_chan\<rparr>)"
  using Destroy_UnblockStart_idempotent
    [of "Some (NewTaskEvent TaskKilling)" "[Some (NewTaskEvent TaskKilled), None]"
        "NewWorker \<lparr>StateDir = ''/var'', Version = ''1'', StatsCollectionInterval = Second,
                   PublishAllocationMetrics = True\<rparr>
         \<lparr>AllocID = ''a1'', JobName = ''job'', AllocTask = ''src''\<rparr> ()
         (Some \<lparr>TaskType = ''src'', TaskDriver = ''mysql''\<rparr>)"
        "''template''" "[''again'']" "\<lparr>TaskType = ''src'', TaskDriver = ''mysql''\<rparr>"]
  by (simp add: NewWorker_def del: Destroy_calls.simps UnblockStart_calls.simps)
section \<open>Saving and restoring the state\<close>

lemma SaveState_file:
  assumes "SaveState md5hex r d = Inr (None, d')" and "stateFilePath md5hex r = Inr fp"
  shows "restoreState fp d' =
           Inr \<lparr>snap_Version = Version (config r), snap_Task = task r,
                snap_HandleID = (case handle r of Some h \<Rightarrow> ID h | None \<Rightarrow> []),
                snap_PayloadRendered = payloadRendered r\<rparr>"
  using assms
  by (auto simp: SaveState_def persistState_def restoreState_def Let_def
           split: option.splits)

text \<open>
  Claim C7. Let \<open>SaveState\<close> succeed on a worker that has a task, and let \<open>RestoreState\<close>
  run on a worker with the same state file (\<open>r0\<close>, for instance a fresh one for the same
  allocation and task type). Then \<open>RestoreState\<close> does not panic and leaves the saved task
  and \<open>payloadRendered\<close> in the worker. If the saved worker had a handle, whose id, not
  empty, was therefore recorded, and the driver is created and opens that id, the result is
  no error, the opened handle installed and \<open>running\<close> set. If opening fails, the result
  is still no error, with a line logged and the handle as it was, that is none in a fresh
  worker.
\<close>

theorem SaveState_RestoreState_roundtrip:
  assumes "task r = Some t"
    and "SaveState md5hex r d = Inr (None, d')"
    and "stateFilePath md5hex r0 = stateFilePath md5hex r"
  shows "(\<exists>res r1. RestoreState md5hex nd r0 d' = Inr (res, r1)
            \<and> task r1 = Some t \<and> payloadRendered r1 = payloadRendered r)
       \<and> (\<forall>h drv h'. handle r = Some h \<and> ID h \<noteq> [] \<and> nd = Inr drv
             \<and> Open drv (NewExecContext (JobName (alloc r0)) (TaskType t)) (ID h) = Inr h' \<longrightarrow>
            RestoreState md5hex nd r0 d' =
              Inr (None, r0\<lparr>task := Some t, payloadRendered := payloadRendered r,
                             handle := Some h', running := True\<rparr>))
       \<and> (\<forall>h drv err. handle r = Some h \<and> ID h \<noteq> [] \<and> nd = Inr drv
             \<and> Open drv (NewExecContext (JobName (alloc r0)) (TaskType t)) (ID h) = Inl err \<longrightarrow>
            RestoreState md5hex nd r0 d' =
              Inr (None, r0\<lparr>task := Some t, payloadRendered := payloadRendered r,
                     logger := logger r0 @
                       [Printf ''[ERR] client: failed to open handle to task %q for alloc %q: %v''
                          [S (TaskType t), S (AllocID (alloc r0)), E (Some err)] ]\<rparr>)
            \<and> (handle r0 = None \<longrightarrow>
                 (\<forall>res r1. RestoreState md5hex nd r0 d' = Inr (res, r1) \<longrightarrow> handle r1 = None)))"
proof -
  from assms(1) obtain fp where fp: "stateFilePath md5hex r = Inr fp"
    by (simp add: stateFilePath_def)
  note snap = SaveState_file [OF assms(2) fp]
  have f0: "stateFilePath md5hex r0 = Inr fp"
    using assms(3) fp by simp
  show ?thesis
    using assms(1) f0 snap
    by (auto simp: RestoreState_def createDriver_def Let_def split: sum.splits)
qed

lemma RestoreState_empty_handle_id:
  assumes "task r = Some t" and "SaveState md5hex r d = Inr (None, d')"
    and "stateFilePath md5hex r0 = stateFilePath md5hex r"
    and "handle r = Some h" and "ID h = []"
  shows "RestoreState md5hex nd r0 d' =
           Inr (None, r0\<lparr>task := Some t, payloadRendered := payloadRendered r\<rparr>)"
proof -
  from assms(1) obtain fp where fp: "stateFilePath md5hex r = Inr fp"
    by (simp add: stateFilePath_def)
  note snap = SaveState_file [OF assms(2) fp]
  have f0: "stateFilePath md5hex r0 = Inr fp"
    using assms(3) fp by simp
  show ?thesis
    using assms(1,4,5) f0 snap
    by (simp add: RestoreState_def)
qed

theorem SaveState_RestoreState_roundtrip_witness:
  "SaveState (\<lambda>s. s) (sample_worker\<lparr>handle := Some sample_handle, payloadRendered := True\<rparr>)
     empty_disk =
   Inr (None,
        \<lparr>files = [ [''/var'', ''alloc'', ''a1'', ''task-src'', ''store.json''] \<mapsto>
                   Snapshot \<lparr>snap_Version = ''1'',
                             snap_Task = Some \<lparr>TaskType = ''src'', TaskDriver = ''mysql''\<rparr>,
                             snap_HandleID = ''h1'', snap_PayloadRendered = True\<rparr>],
         write_error = None\<rparr>)
   \<and> RestoreState (\<lambda>s. s) (Inr sample_driver) sample_worker
        \<lparr>files = [ [''/var'', ''alloc'', ''a1'', ''task-src'', ''store.json''] \<mapsto>
                   Snapshot \<lparr>snap_Version = ''1'',
                             snap_Task = Some \<lparr>TaskType = ''src'', TaskDriver = ''mysql''\<rparr>,
                             snap_HandleID = ''h1'', snap_PayloadRendered = True\<rparr>],
         write_error = None\<rparr> =
       Inr (None,
            sample_worker\<lparr>task := Some \<lparr>TaskType = ''src'', TaskDriver = ''mysql''\<rparr>,
                           payloadRendered := True, handle := Some sample_handle,
                           running := True\<rparr>)"
proof -
  let ?r = "sample_worker\<lparr>handle := Some sample_handle, payloadRendered := True\<rparr>"
  let ?t = "\<lparr>TaskType = ''src'', TaskDriver = ''mysql''\<rparr>"
  let ?d = "\<lparr>files = [ [''/var'', ''alloc'', ''a1'', ''task-src'', ''store.json''] \<mapsto>
                   Snapshot \<lparr>snap_Version = ''1'', snap_Task = Some ?t,
                             snap_HandleID = ''h1'', snap_PayloadRendered = True\<rparr>],
         write_error = None\<rparr>"
  have t: "task ?r = Some ?t"
    by (simp add: sample_worker_def NewWorker_def)
  have save: "SaveState (\<lambda>s. s) ?r empty_disk = Inr (None, ?d)"
    by (simp add: SaveState_def stateFilePath_def persistState_def empty_disk_def
        sample_worker_def NewWorker_def sample_handle_def)
  have same: "stateFilePath (\<lambda>s. s) sample_worker = stateFilePath (\<lambda>s. s) ?r"
    by (simp add: stateFilePath_def sample_worker_def NewWorker_def)
  have opened: "handle ?r = Some sample_handle \<and> ID sample_handle \<noteq> []
      \<and> (Inr sample_driver :: error + Driver) = Inr sample_driver
      \<and> Open sample_driver (NewExecContext (JobName (alloc sample_worker)) (TaskType ?t))
           (ID sample_handle) = Inr sample_handle"
    by (simp add: sample_handle_def sample_driver_def)
  from SaveState_RestoreState_roundtrip [OF t save same, of "Inr sample_driver"] opened
  have "RestoreState (\<lambda>s. s) (Inr sample_driver) sample_worker ?d =
          Inr (None, sample_worker\<lparr>task := Some ?t, payloadRendered := payloadRendered ?r,
                             handle := Some sample_handle, running := True\<rparr>)"
    by blast
  with save show ?thesis by simp
qed

section \<open>prestart always signals and reports success\<close>

lemma prestart_body_eq:
  "length (buf ch) < cap ch \<Longrightarrow>
   prestart_body p (r, ch) =
     (Return, (if startCh r < 1 then r\<lparr>startCh := startCh r + 1\<rparr> else r,
               ch\<lparr>buf := buf ch @ [True]\<rparr>))"
  by (simp add: prestart_body_def send_start_def send_result_def return_stmt_def)

lemma prestart_body_dead_code:
  "prestart_body p s = block [send_start, send_result True, return_stmt] s"
  by (cases s) (simp add: prestart_body_def send_start_def send_result_def return_stmt_def)

lemma prestart_returns:
  "length (buf ch) < cap ch \<Longrightarrow>
   prestart p r ch =
     Some (Return, (if startCh r < 1 then r\<lparr>startCh := startCh r + 1\<rparr> else r,
                    ch\<lparr>buf := buf ch @ [True]\<rparr>))"
  unfolding prestart_def
  by (subst forever.simps) (simp add: prestart_body_eq)

text \<open>
  Claim C8. \<open>prestart\<close> does a non-blocking send on \<open>startCh\<close>, which has capacity 1, so
  that at most one signal is buffered; then, given room in its result channel (the run
  loop passes a fresh channel of capacity 1), it sends \<open>true\<close> and returns, whatever the
  state of \<open>unblockCh\<close> and \<open>waitCh\<close>. The second \<open>select\<close> is never reached: the function
  is the same as the one without it, and \<open>false\<close> is never sent.
\<close>

theorem prestart_signals_and_succeeds:
  "(length (buf resultCh) < cap resultCh \<longrightarrow>
      prestart pick_unblock r resultCh =
        Some (Return,
              (if startCh r < 1 then r\<lparr>startCh := startCh r + 1\<rparr> else r,
               resultCh\<lparr>buf := buf resultCh @ [True]\<rparr>)))
   \<and> prestart pick_unblock r resultCh =
        forever (block [send_start, send_result True, return_stmt]) (r, resultCh)
   \<and> (startCh r \<le> 1 \<longrightarrow>
        startCh (if startCh r < 1 then r\<lparr>startCh := startCh r + 1\<rparr> else r) \<le> 1)"
proof -
  have "prestart_body pick_unblock = block [send_start, send_result True, return_stmt]"
    by (rule ext) (rule prestart_body_dead_code)
  then have "prestart pick_unblock r resultCh =
        forever (block [send_start, send_result True, return_stmt]) (r, resultCh)"
    unfolding prestart_def by (rule arg_cong [where f = "\<lambda>b. forever b (r, resultCh)"])
  moreover have "prestart pick_unblock r resultCh =
        Some (Return,
              (if startCh r < 1 then r\<lparr>startCh := startCh r + 1\<rparr> else r,
               resultCh\<lparr>buf := buf resultCh @ [True]\<rparr>))"
    if "length (buf resultCh) < cap resultCh"
    using that by (rule prestart_returns)
  ultimately show ?thesis by simp
qed

theorem prestart_signals_and_succeeds_witness:
  "prestart False
     ((NewWorker \<lparr>StateDir = ''/var'', Version = ''1'', StatsCollectionInterval = Second,
                   PublishAllocationMetrics = True\<rparr>
         \<lparr>AllocID = ''a1'', JobName = ''job'', AllocTask = ''src''\<rparr> ()
         (Some \<lparr>TaskType = ''src'', TaskDriver = ''mysql''\<rparr>))\<lparr>waitCh := Closed_chan\<rparr>)
     \<lparr>cap = 1, buf = []\<rparr>
   = Some (Return,
      ((NewWorker \<lparr>StateDir = ''/var'', Version = ''1'', StatsCollectionInterval = Second,
                   PublishAllocationMetrics = True\<rparr>
         \<lparr>AllocID = ''a1'', JobName = ''job'', AllocTask = ''src''\<rparr> ()
         (Some \<lparr>TaskType = ''src'', TaskDriver = ''mysql''\<rparr>))
           \<lparr>waitCh := Closed_chan, startCh := 1\<rparr>,
       \<lparr>cap = 1, buf = [True]\<rparr>))"
  using prestart_signals_and_succeeds
    [of "\<lparr>cap = 1, buf = []\<rparr>" False
        "(NewWorker \<lparr>StateDir = ''/var'', Version = ''1'', StatsCollectionInterval = Second,
                   PublishAllocationMetrics = True\<rparr>
         \<lparr>AllocID = ''a1'', JobName = ''job'', AllocTask = ''src''\<rparr> ()
         (Some \<lparr>TaskType = ''src'', TaskDriver = ''mysql''\<rparr>))\<lparr>waitCh := Closed_chan\<rparr>"]
  by (simp add: NewWorker_def)

section \<open>The stats collector's error policy\<close>

lemma Contains_sublist: "Contains s substr \<longleftrightarrow> sublist substr s"
  by (induction s) (auto simp: sublist_Cons_right)

lemma emitStats_taskStats [simp]: "emitStats (r\<lparr>taskStats := x\<rparr>) u = emitStats r u"
  by (simp add: emitStats_def alloc_gauge_def cong: option.case_cong if_cong)

lemma emitStats_no_panic: "task r = Some t \<Longrightarrow> \<exists>gs. emitStats r u = Inr gs"
  by (simp add: emitStats_def Let_def)

text \<open>
  Claim C9. One sampling step of the collector, on a worker that has a handle. If
  \<open>Stats\<close> returns the error whose message is that of \<open>DriverStatsNotImplemented\<close>, the
  collector logs at debug level and returns, whatever events follow, so no further sample
  is taken. Another error whose message contains \<open>connection is shut down\<close> is
  not logged and sampling goes on; any other error is logged as a warning and sampling
  goes on. On success \<open>taskStats\<close> is set to the sample, and a sample that is not nil is
  given to \<open>emitStats\<close>, whose gauges reach the sink.
\<close>

theorem collector_error_policy:
  assumes "handle (cw c) = Some h" and "task (cw c) = Some t"
  shows "collectResourceUsageStats notImpl (Tick (Inl notImpl) # evs) c =
           (Returned,
            c\<lparr>stats_calls := stats_calls c + 1,
              cw := (cw c)\<lparr>logger := logger (cw c) @
                [Printf ''[DEBUG] client: driver for task %q in allocation %q doesn't support stats''
                   [S (TaskType t), S (AllocID (alloc (cw c)))] ]\<rparr>\<rparr>)
   \<and> (err \<noteq> notImpl \<and> Contains err ''connection is shut down'' \<longrightarrow>
         collectResourceUsageStats notImpl (Tick (Inl err) # evs) c =
           collectResourceUsageStats notImpl evs (c\<lparr>stats_calls := stats_calls c + 1\<rparr>))
   \<and> (err \<noteq> notImpl \<and> \<not> Contains err ''connection is shut down'' \<longrightarrow>
         collectResourceUsageStats notImpl (Tick (Inl err) # evs) c =
           collectResourceUsageStats notImpl evs
             (c\<lparr>stats_calls := stats_calls c + 1,
                cw := (cw c)\<lparr>logger := logger (cw c) @
                  [Printf ''[WARN] client: error fetching stats of task %v: %v''
                     [S (TaskType t), E (Some err)] ]\<rparr>\<rparr>))
   \<and> (collectResourceUsageStats notImpl (Tick (Inr None) # evs) c =
           collectResourceUsageStats notImpl evs
             (c\<lparr>stats_calls := stats_calls c + 1, cw := (cw c)\<lparr>taskStats := None\<rparr>\<rparr>))
   \<and> (\<exists>gs. emitStats (cw c) u = Inr gs \<and>
         collectResourceUsageStats notImpl (Tick (Inr (Some u)) # evs) c =
           collectResourceUsageStats notImpl evs
             (c\<lparr>stats_calls := stats_calls c + 1, cw := (cw c)\<lparr>taskStats := Some u\<rparr>,
                gauges := gauges c @ gs\<rparr>))"
proof -
  from assms(2) obtain gs where gs: "emitStats (cw c) u = Inr gs"
    using emitStats_no_panic by blast
  with assms show ?thesis
    by (simp add: Let_def)
qed

theorem collector_error_policy_witness:
  "collectResourceUsageStats ''stats not implemented''
      [Tick (Inl ''stats not implemented''), Tick (Inr None)]
      \<lparr>cw = sample_worker\<lparr>handle := Some sample_handle\<rparr>, gauges = [], stats_calls = 0\<rparr>
    = (Returned,
       \<lparr>cw = sample_worker\<lparr>handle := Some sample_handle,
               logger := [Printf ''[DEBUG] client: driver for task %q in allocation %q doesn't support stats''
                            [S ''src'', S ''a1''] ]\<rparr>,
        gauges = [], stats_calls = 1\<rparr>)
   \<and> collectResourceUsageStats ''stats not implemented''
      [Tick (Inl ''rpc: connection is shut down'')]
      \<lparr>cw = sample_worker\<lparr>handle := Some sample_handle\<rparr>, gauges = [], stats_calls = 0\<rparr>
    = (Collecting,
       \<lparr>cw = sample_worker\<lparr>handle := Some sample_handle\<rparr>, gauges = [], stats_calls = 1\<rparr>)
   \<and> collectResourceUsageStats ''stats not implemented''
      [Tick (Inl ''timeout'')]
      \<lparr>cw = sample_worker\<lparr>handle := Some sample_handle\<rparr>, gauges = [], stats_calls = 0\<rparr>
    = (Collecting,
       \<lparr>cw = sample_worker\<lparr>handle := Some sample_handle,
               logger := [Printf ''[WARN] client: error fetching stats of task %v: %v''
                            [S ''src'', E (Some ''timeout'')] ]\<rparr>,
        gauges = [], stats_calls = 1\<rparr>)
   \<and> collectResourceUsageStats ''stats not implemented''
      [Tick (Inr (Some \<lparr>TableStats = None, DelayCount = Some \<lparr>Num = 3, Time = 7\<rparr>,
                         ThroughputStat = None\<rparr>))]
      \<lparr>cw = sample_worker\<lparr>handle := Some sample_handle\<rparr>, gauges = [], stats_calls = 0\<rparr>
    = (Collecting,
       \<lparr>cw = sample_worker\<lparr>handle := Some sample_handle,
               taskStats := Some \<lparr>TableStats = None, DelayCount = Some \<lparr>Num = 3, Time = 7\<rparr>,
                         ThroughputStat = None\<rparr>\<rparr>,
        gauges = [\<lparr>gauge_key = [''client'', ''allocs'', ''job'', ''src'', ''a1'', ''src'',
                                 ''delay'', ''num''], gauge_value = 3\<rparr>,
                  \<lparr>gauge_key = [''client'', ''allocs'', ''job'', ''src'', ''a1'', ''src'',
                                 ''delay'', ''time''], gauge_value = 7\<rparr>],
        stats_calls = 1\<rparr>)"
proof -
  let ?c = "\<lparr>cw = sample_worker\<lparr>handle := Some sample_handle\<rparr>, gauges = [],
             stats_calls = 0 :: nat\<rparr>"
  let ?t = "\<lparr>TaskType = ''src'', TaskDriver = ''mysql''\<rparr>"
  let ?u = "\<lparr>TableStats = None, DelayCount = Some \<lparr>Num = 3, Time = 7\<rparr>,
             ThroughputStat = None\<rparr>"
  let ?gs = "[\<lparr>gauge_key = [''client'', ''allocs'', ''job'', ''src'', ''a1'', ''src'',
                                 ''delay'', ''num''], gauge_value = 3\<rparr>,
              \<lparr>gauge_key = [''client'', ''allocs'', ''job'', ''src'', ''a1'', ''src'',
                                 ''delay'', ''time''], gauge_value = 7\<rparr>]"
  have h: "handle (cw ?c) = Some sample_handle" by simp
  have t: "task (cw ?c) = Some ?t" by (simp add: sample_worker_def NewWorker_def)
  have e: "emitStats (cw ?c) ?u = Inr ?gs"
    by (simp add: emitStats_def alloc_gauge_def sample_worker_def NewWorker_def)
  note T = collector_error_policy [OF h t, where notImpl = "''stats not implemented''"]
  from T [where evs = "[Tick (Inr None)]" and err = "''rpc: connection is shut down''"
             and u = ?u]
       T [where evs = "[]" and err = "''rpc: connection is shut down''" and u = ?u]
       T [where evs = "[]" and err = "''timeout''" and u = ?u] e
  show ?thesis
    by (simp add: sample_worker_def NewWorker_def
             del: collectResourceUsageStats.simps(4))
qed

section \<open>The range comparison\<close>

lemma map_nth_upt: "n \<le> length xs \<Longrightarrow> map ((!) xs) [0..<n] = take n xs"
  by (rule nth_equalityI) simp_all

lemma BuildValueComparison_ok:
  "c \<noteq> [] \<Longrightarrow> v \<noteq> [] \<Longrightarrow>
   BuildValueComparison U c v op = (''('' @ EscapeName U c @ '' '' @ op @ '' '' @ v @ '')'', None)"
  by (simp add: BuildValueComparison_def)

lemma equals_fold:
  "n \<le> length cols \<Longrightarrow> n \<le> length vals \<Longrightarrow>
   \<forall>c\<in>set cols. c \<noteq> [] \<Longrightarrow> \<forall>v\<in>set vals. v \<noteq> [] \<Longrightarrow>
   fold (equals_round U cols vals) [0..<n] ([], None) =
     (map (\<lambda>j. render_atom U cols vals (j, ''='')) [0..<n], None)"
proof (induction n)
  case 0
  then show ?case by simp
next
  case (Suc n)
  then have "cols ! n \<noteq> []" "vals ! n \<noteq> []" by simp_all
  with Suc show ?case
    by (simp add: equals_round_def BuildValueComparison_ok render_atom_def)
qed

lemma BuildEqualsComparison_ok:
  assumes "cols \<noteq> []" "length vals = length cols"
    "\<forall>c\<in>set cols. c \<noteq> []" "\<forall>v\<in>set vals. v \<noteq> []"
  shows "BuildEqualsComparison U cols vals =
           (render_conjunction U cols vals (atoms_of (AllEqual (length cols))), None)"
  using assms equals_fold [of "length cols" cols vals U]
  by (simp add: BuildEqualsComparison_def render_conjunction_def comp_def)

lemma render_atom_take:
  "j < i \<Longrightarrow> i \<le> length cols \<Longrightarrow> i \<le> length vals \<Longrightarrow>
   render_atom U (take i cols) (take i vals) (j, op) = render_atom U cols vals (j, op)"
  by (simp add: render_atom_def)

lemma BuildEqualsComparison_take:
  assumes "0 < i" "i \<le> length cols" "length vals = length cols"
    "\<forall>c\<in>set cols. c \<noteq> []" "\<forall>v\<in>set vals. v \<noteq> []"
  shows "BuildEqualsComparison U (take i cols) (take i vals) =
           (render_conjunction U cols vals (map (\<lambda>j. (j, ''='')) [0..<i]), None)"
proof -
  have "take i cols \<noteq> []" "length (take i vals) = length (take i cols)"
    "\<forall>c\<in>set (take i cols). c \<noteq> []" "\<forall>v\<in>set (take i vals). v \<noteq> []"
    using assms by (auto dest: in_set_takeD)
  then have "BuildEqualsComparison U (take i cols) (take i vals) =
           (render_conjunction U (take i cols) (take i vals)
              (atoms_of (AllEqual (length (take i cols)))), None)"
    by (rule BuildEqualsComparison_ok)
  moreover have "length (take i cols) = i" using assms by simp
  moreover have "map (render_atom U (take i cols) (take i vals)) (map (\<lambda>j. (j, ''='')) [0..<i])
                 = map (render_atom U cols vals) (map (\<lambda>j. (j, ''='')) [0..<i])"
    using assms by (simp add: render_atom_take)
  ultimately show ?thesis
    by (simp only: render_conjunction_def atoms_of.simps)
qed

lemma range_fold:
  assumes "length vals = length cols" "length args = length cols"
    "\<forall>c\<in>set cols. c \<noteq> []" "\<forall>v\<in>set vals. v \<noteq> []"
  shows "k \<le> length cols \<Longrightarrow>
   fold (range_round U cols vals args op) [0..<k] ([], [], None) =
     (map (render_fragment U cols vals) (map (Strict op) [0..<k]),
      concat (map (\<lambda>i. take (Suc i) args) [0..<k]), None)"
proof (induction k)
  case 0
  then show ?case by simp
next
  case (Suc k)
  then have k: "k < length cols" by simp
  with assms have ka: "k < length args" by simp
  from k assms have ne: "cols ! k \<noteq> []" "vals ! k \<noteq> []" by simp_all
  show ?case
  proof (cases "k = 0")
    case True
    with Suc assms ne ka show ?thesis
      by (simp add: range_round_def BuildValueComparison_ok render_atom_def take_Suc_conv_app_nth)
  next
    case False
    then have "BuildEqualsComparison U (take k cols) (take k vals) =
           (render_conjunction U cols vals (map (\<lambda>j. (j, ''='')) [0..<k]), None)"
      using k assms by (intro BuildEqualsComparison_take) simp_all
    with Suc assms ne k ka False show ?thesis
      by (simp add: range_round_def BuildValueComparison_ok render_atom_def take_Suc_conv_app_nth)
  qed
qed

lemma placeholder_strict:
  "k \<le> length args \<Longrightarrow>
   map (\<lambda>a. args ! fst a) (concat (map atoms_of (map (Strict op) [0..<k])))
     = concat (map (\<lambda>i. take (Suc i) args) [0..<k])"
proof (induction k)
  case 0
  then show ?case by simp
next
  case (Suc k)
  then show ?case
    by (simp add: comp_def map_nth_upt take_Suc_conv_app_nth)
qed

lemma placeholder_args_eq:
  "placeholder_args args op inclusive =
     concat (map (\<lambda>i. take (Suc i) args) [0..<length args]) @ (if inclusive then args else [])"
proof -
  have "map (\<lambda>a. args ! fst a) (atoms_of (AllEqual (length args))) = args"
    by (simp add: comp_def map_nth)
  then show ?thesis
    using placeholder_strict [of "length args" args op]
    by (simp add: placeholder_args_def range_fragments_def del: atoms_of.simps)
qed

lemma BuildRangeComparison_gen:
  assumes "cols \<noteq> []" "length vals = length cols" "length args = length cols"
    "\<forall>c\<in>set cols. c \<noteq> []" "\<forall>v\<in>set vals. v \<noteq> []"
  shows "BuildRangeComparison U cols vals args sign =
     (let op = (if sign = ''<='' then ''<'' else if sign = ''>='' then ''>'' else sign);
          inclusive = (sign = ''<='' \<or> sign = ''>='')
      in (range_predicate U cols vals op inclusive, placeholder_args args op inclusive, None))"
proof -
  have eq: "BuildEqualsComparison U cols vals =
           (render_fragment U cols vals (AllEqual (length cols)), None)"
    using assms by (simp add: BuildEqualsComparison_ok)
  have fold: "fold (range_round U cols vals args op) [0..<length cols] ([], [], None) =
     (map (render_fragment U cols vals) (map (Strict op) [0..<length cols]),
      concat (map (\<lambda>i. take (Suc i) args) [0..<length cols]), None)" for op
    using assms by (intro range_fold) simp_all
  show ?thesis
    using assms
    by (simp add: BuildRangeComparison_def fold eq range_predicate_def range_fragments_def
        placeholder_args_eq Let_def)
qed



section \<open>The chunked select and the ranged insert\<close>

lemma fold_update_upt:
  "k \<le> length xs \<Longrightarrow>
   fold (\<lambda>i ys. ys[i := g i (ys ! i)]) [0..<k] xs = map (\<lambda>i. g i (xs ! i)) [0..<k] @ drop k xs"
proof (induction k)
  case 0
  then show ?case by simp
next
  case (Suc k)
  then have k: "k < length xs" by simp
  then have "drop k xs = xs ! k # drop (Suc k) xs"
    by (simp add: Cons_nth_drop_Suc)
  with Suc k show ?case
    by (simp add: nth_append list_update_append)
qed

lemma duplicateNames_copy: "duplicateNames names = names"
proof -
  have "duplicateNames names =
        map (\<lambda>i. names ! i) [0..<length names] @ drop (length names) (replicate (length names) [])"
    unfolding duplicateNames_def
    using fold_update_upt [of "length names" "replicate (length names) []" "\<lambda>i y. names ! i"]
    by simp
  then show ?thesis by (simp add: map_nth)
qed

lemma escape_each_map: "escape_each U names = map (EscapeName U) names"
proof -
  have "escape_each U names =
        map (\<lambda>i. EscapeName U (names ! i)) [0..<length names] @ drop (length names) names"
    unfolding escape_each_def duplicateNames_copy
    using fold_update_upt [of "length names" names "\<lambda>i y. EscapeName U y"]
    by simp
  also have "\<dots> = map (EscapeName U) (map ((!) names) [0..<length names])"
    by (simp add: comp_def)
  finally show ?thesis by (simp add: map_nth)
qed

lemma buildPreparedValues_replicate: "buildPreparedValues n = replicate n ''?''"
proof -
  have "buildPreparedValues n = map (\<lambda>i. ''?'') [0..<n] @ drop n (replicate n [])"
    unfolding buildPreparedValues_def
    using fold_update_upt [of n "replicate n []" "\<lambda>i y. ''?''"]
    by simp
  then show ?thesis by (simp add: map_replicate_const)
qed

lemma order_fold:
  "k \<le> length cs \<Longrightarrow>
   fold (order_round U \<lparr>columns = cs, Ordinals = ords\<rparr>) [0..<k]
     (map Name cs, replicate (length cs) [], replicate (length cs) []) =
   (map (\<lambda>c. EscapeName U (Name c)) (take k cs) @ map Name (drop k cs),
    map (order_term U ''asc'') (take k cs) @ replicate (length cs - k) [],
    map (order_term U ''desc'') (take k cs) @ replicate (length cs - k) [])"
proof (induction k)
  case 0
  then show ?case by simp
next
  case (Suc k)
  then have k: "k < length cs" by simp
  then have d: "drop k cs = cs ! k # drop (Suc k) cs"
    by (simp add: Cons_nth_drop_Suc)
  have r: "replicate (length cs - k) ([]::string) = [] # replicate (length cs - Suc k) []"
    using k by (simp add: Suc_diff_Suc flip: replicate_Suc)
  from Suc k show ?case
    by (simp add: order_round_def order_term_def nth_append list_update_append d r
        take_Suc_conv_app_nth Let_def)
qed

lemma order_fold_all:
  "fold (order_round U cl) [0..<Len cl]
     (duplicateNames (Names cl), replicate (length (duplicateNames (Names cl))) [],
      replicate (length (duplicateNames (Names cl))) []) =
   (map (EscapeName U) (Names cl), map (order_term U ''asc'') (columns cl),
    map (order_term U ''desc'') (columns cl))"
proof -
  obtain cs ords where cl: "cl = \<lparr>columns = cs, Ordinals = ords\<rparr>"
    by (cases cl) simp
  show ?thesis
    unfolding cl duplicateNames_copy
    using order_fold [of "length cs" cs U ords]
    by (simp add: Names_def Len_def comp_def)
qed

lemma BuildRangeComparison_valid:
  assumes "columns cl \<noteq> []" "length vals = Len cl" "length args = Len cl"
    "\<forall>c\<in>set (columns cl). Name c \<noteq> []" "\<forall>v\<in>set vals. v \<noteq> []"
  shows "BuildRangeComparison U (Names cl) vals args sign =
     (let op = (if sign = ''<='' then ''<'' else if sign = ''>='' then ''>'' else sign);
          inclusive = (sign = ''<='' \<or> sign = ''>='')
      in (range_predicate U (Names cl) vals op inclusive, placeholder_args args op inclusive, None))"
  using assms by (intro BuildRangeComparison_gen) (simp_all add: Names_def Len_def)

lemma BuildRangeSelectQuery_valid:
  assumes "sharedColumns \<noteq> []" "columns uniqueKeyColumns \<noteq> []"
    "length rangeEndValues = Len uniqueKeyColumns" "length rangeEndArgs = Len uniqueKeyColumns"
    "\<forall>c\<in>set (columns uniqueKeyColumns). Name c \<noteq> []" "\<forall>v\<in>set rangeEndValues. v \<noteq> []"
  shows "BuildRangeSelectQuery Unquote databaseName originalTableName ghostTableName
           sharedColumns mappedSharedColumns uniqueKey uniqueKeyColumns rangeStartValues
           rangeEndValues rangeStartArgs rangeEndArgs includeRangeStartValues chunkSize =
         (NL @ TAB @ ''select '' @ Join (map (EscapeName Unquote) sharedColumns) '', '' @ NL
          @ TAB @ TAB @ ''from'' @ NL
          @ TAB @ TAB @ TAB @ EscapeName Unquote databaseName @ ''.''
            @ EscapeName Unquote originalTableName @ NL
          @ TAB @ TAB @ ''force index ('' @ EscapeName Unquote uniqueKey @ '')'' @ NL
          @ TAB @ TAB @ ''where (''
            @ range_predicate Unquote (Names uniqueKeyColumns) rangeEndValues ''<'' True
            @ '')'' @ NL
          @ TAB @ TAB @ ''order by'' @ NL
          @ TAB @ TAB @ TAB
            @ Join (map (order_term Unquote ''asc'') (columns uniqueKeyColumns)) '', '' @ NL
          @ TAB @ TAB @ ''limit '' @ Itoa (sint chunkSize) @ NL
          @ ''    '',
          placeholder_args rangeEndArgs ''<'' True, None)"
  using assms
  by (simp add: BuildRangeSelectQuery_def BuildRangeComparison_valid order_fold_all
      escape_each_map Let_def)

lemma BuildRangeInsertQuery_valid:
  assumes "sharedColumns \<noteq> []" "columns uniqueKeyColumns \<noteq> []"
    "length rangeStartValues = Len uniqueKeyColumns" "length rangeStartArgs = Len uniqueKeyColumns"
    "length rangeEndValues = Len uniqueKeyColumns" "length rangeEndArgs = Len uniqueKeyColumns"
    "\<forall>c\<in>set (columns uniqueKeyColumns). Name c \<noteq> []"
    "\<forall>v\<in>set rangeStartValues. v \<noteq> []" "\<forall>v\<in>set rangeEndValues. v \<noteq> []"
  shows "snd (BuildRangeInsertQuery Unquote databaseName originalTableName ghostTableName
           sharedColumns mappedSharedColumns uniqueKey uniqueKeyColumns rangeStartValues
           rangeEndValues rangeStartArgs rangeEndArgs includeRangeStartValues transactionalTable) =
         (placeholder_args rangeStartArgs ''>'' includeRangeStartValues
            @ placeholder_args rangeEndArgs ''<'' True, None)"
  using assms
  by (simp add: BuildRangeInsertQuery_def BuildRangeComparison_valid Let_def)

lemma sample_key_valid:
  "columns sample_key \<noteq> []" "Len sample_key = 2" "Names sample_key = [''id'', ''kind'']"
  "\<forall>c\<in>set (columns sample_key). Name c \<noteq> []"
  by (simp_all add: sample_key_def Len_def Names_def)


lemma upt_2: "[0..<2] = [0, Suc 0]" "[0..<Suc 0] = [0]"
  by (simp_all add: upt_rec)

lemma placeholder_args_2:
  "placeholder_args [a, b] op True = [a, a, b, a, b]"
  "placeholder_args [a, b] op False = [a, a, b]"
  by (simp_all add: placeholder_args_def range_fragments_def upt_2)




text \<open>
  Claim C4, as stated, fails: with the unique key \<open>(id, kind)\<close>, start arguments
  \<open>[1, 2]\<close> and end arguments \<open>[3, 4]\<close>, the insert query's \<open>explodedArgs\<close> are
  \<open>[1, 1, 2, 3, 3, 4, 3, 4]\<close> and the select query's are \<open>[3, 3, 4, 3, 4]\<close>: neither list is
  a prefix of the other.
\<close>

theorem explodedArgs_prefix_counterexample:
  "fst (snd (BuildRangeInsertQuery (\<lambda>name. None) ''db'' ''t'' ''_t_gho'' [''id'', ''x'']
        [''id'', ''x''] ''PRIMARY'' sample_key [''?'', ''?''] [''?'', ''?''] [1, 2] [3, 4 :: nat]
        False True)) = [1, 1, 2, 3, 3, 4, 3, 4]
   \<and> fst (snd (BuildRangeSelectQuery (\<lambda>name. None) ''db'' ''t'' ''_t_gho'' [''id'', ''x'']
        [''id'', ''x''] ''PRIMARY'' sample_key [''?'', ''?''] [''?'', ''?''] [1, 2] [3, 4 :: nat]
        False 100)) = [3, 3, 4, 3, 4]
   \<and> \<not> prefix
        (fst (snd (BuildRangeSelectQuery (\<lambda>name. None) ''db'' ''t'' ''_t_gho'' [''id'', ''x'']
           [''id'', ''x''] ''PRIMARY'' sample_key [''?'', ''?''] [''?'', ''?''] [1, 2] [3, 4 :: nat]
           False 100)))
        (fst (snd (BuildRangeInsertQuery (\<lambda>name. None) ''db'' ''t'' ''_t_gho'' [''id'', ''x'']
           [''id'', ''x''] ''PRIMARY'' sample_key [''?'', ''?''] [''?'', ''?''] [1, 2] [3, 4 :: nat]
           False True)))
   \<and> \<not> prefix
        (fst (snd (BuildRangeInsertQuery (\<lambda>name. None) ''db'' ''t'' ''_t_gho'' [''id'', ''x'']
           [''id'', ''x''] ''PRIMARY'' sample_key [''?'', ''?''] [''?'', ''?''] [1, 2] [3, 4 :: nat]
           False True)))
        (fst (snd (BuildRangeSelectQuery (\<lambda>name. None) ''db'' ''t'' ''_t_gho'' [''id'', ''x'']
           [''id'', ''x''] ''PRIMARY'' sample_key [''?'', ''?''] [''?'', ''?''] [1, 2] [3, 4 :: nat]
           False 100)))"
proof -
  have ins: "snd (BuildRangeInsertQuery (\<lambda>name. None) ''db'' ''t'' ''_t_gho'' [''id'', ''x'']
        [''id'', ''x''] ''PRIMARY'' sample_key [''?'', ''?''] [''?'', ''?''] [1, 2] [3, 4 :: nat]
        False True) = ([1, 1, 2, 3, 3, 4, 3, 4], None)"
    by (subst BuildRangeInsertQuery_valid) (simp_all add: sample_key_valid placeholder_args_2)
  have sel: "snd (BuildRangeSelectQuery (\<lambda>name. None) ''db'' ''t'' ''_t_gho'' [''id'', ''x'']
        [''id'', ''x''] ''PRIMARY'' sample_key [''?'', ''?''] [''?'', ''?''] [1, 2] [3, 4 :: nat]
        False 100) = ([3, 3, 4, 3, 4], None)"
    by (subst BuildRangeSelectQuery_valid) (simp_all add: sample_key_valid placeholder_args_2)
  show ?thesis
    unfolding ins sel by simp
qed

text \<open>
  Claim C4, amended. For valid input the insert query's \<open>explodedArgs\<close> are the exploded
  arguments of its lower-bound predicate followed by the select query's \<open>explodedArgs\<close>:
  the arguments of the upper-bound predicate, which the two queries share, are the whole
  list of the select query and the suffix of the insert query's list.
\<close>

theorem explodedArgs_select_is_suffix_of_insert:
  assumes "sharedColumns \<noteq> []" and "columns uniqueKeyColumns \<noteq> []"
    and "length rangeStartValues = Len uniqueKeyColumns"
    and "length rangeStartArgs = Len uniqueKeyColumns"
    and "length rangeEndValues = Len uniqueKeyColumns"
    and "length rangeEndArgs = Len uniqueKeyColumns"
    and "\<forall>c\<in>set (columns uniqueKeyColumns). Name c \<noteq> []"
    and "\<forall>v\<in>set rangeStartValues. v \<noteq> []" and "\<forall>v\<in>set rangeEndValues. v \<noteq> []"
  shows "fst (snd (BuildRangeInsertQuery Unquote databaseName originalTableName ghostTableName
           sharedColumns mappedSharedColumns uniqueKey uniqueKeyColumns rangeStartValues
           rangeEndValues rangeStartArgs rangeEndArgs includeRangeStartValues transactionalTable))
         = fst (snd (BuildRangeComparison Unquote (Names uniqueKeyColumns) rangeStartValues
                  rangeStartArgs (if includeRangeStartValues then ''>='' else ''>'')))
           @ fst (snd (BuildRangeSelectQuery Unquote databaseName originalTableName
                  ghostTableName sharedColumns mappedSharedColumns uniqueKey uniqueKeyColumns
                  rangeStartValues rangeEndValues rangeStartArgs rangeEndArgs
                  includeRangeStartValues chunkSize))
       \<and> fst (snd (BuildRangeSelectQuery Unquote databaseName originalTableName
                  ghostTableName sharedColumns mappedSharedColumns uniqueKey uniqueKeyColumns
                  rangeStartValues rangeEndValues rangeStartArgs rangeEndArgs
                  includeRangeStartValues chunkSize))
         = fst (snd (BuildRangeComparison Unquote (Names uniqueKeyColumns) rangeEndValues
                  rangeEndArgs ''<=''))
       \<and> snd (snd (BuildRangeInsertQuery Unquote databaseName originalTableName ghostTableName
           sharedColumns mappedSharedColumns uniqueKey uniqueKeyColumns rangeStartValues
           rangeEndValues rangeStartArgs rangeEndArgs includeRangeStartValues transactionalTable))
         = None
       \<and> snd (snd (BuildRangeSelectQuery Unquote databaseName originalTableName
                  ghostTableName sharedColumns mappedSharedColumns uniqueKey uniqueKeyColumns
                  rangeStartValues rangeEndValues rangeStartArgs rangeEndArgs
                  includeRangeStartValues chunkSize))
         = None"
  using assms
  by (simp add: BuildRangeInsertQuery_valid BuildRangeSelectQuery_valid
      BuildRangeComparison_valid Let_def)

theorem explodedArgs_select_is_suffix_of_insert_witness:
  "fst (snd (BuildRangeInsertQuery (\<lambda>name. None) ''db'' ''t'' ''_t_gho'' [''id'', ''x'']
        [''id'', ''x''] ''PRIMARY'' sample_key [''?'', ''?''] [''?'', ''?''] [1, 2] [3, 4 :: nat]
        True True))
   = [1, 1, 2, 1, 2]
     @ fst (snd (BuildRangeSelectQuery (\<lambda>name. None) ''db'' ''t'' ''_t_gho'' [''id'', ''x'']
        [''id'', ''x''] ''PRIMARY'' sample_key [''?'', ''?''] [''?'', ''?''] [1, 2] [3, 4 :: nat]
        True 100))"
proof -
  have v: "[''id'', ''x''] \<noteq> []" "columns sample_key \<noteq> []"
    "length [''?'', ''?''] = Len sample_key" "length [1, 2 :: nat] = Len sample_key"
    "length [''?'', ''?''] = Len sample_key" "length [3, 4 :: nat] = Len sample_key"
    "\<forall>c\<in>set (columns sample_key). Name c \<noteq> []"
    "\<forall>v\<in>set [''?'', ''?'']. v \<noteq> []" "\<forall>v\<in>set [''?'', ''?'']. v \<noteq> []"
    by (simp_all add: sample_key_valid)
  have "fst (snd (BuildRangeComparison (\<lambda>name. None) (Names sample_key) [''?'', ''?'']
          [1, 2 :: nat] (if True then ''>='' else ''>''))) = [1, 1, 2, 1, 2]"
    by (subst BuildRangeComparison_valid) (simp_all add: sample_key_valid placeholder_args_2)
  with explodedArgs_select_is_suffix_of_insert [OF v,
      of "\<lambda>name. None" "''db''" "''t''" "''_t_gho''" "[''id'', ''x'']" "''PRIMARY''" True True 100]
  show ?thesis by simp
qed

section \<open>The update statement drops the errors of its clause builders\<close>

lemma convert_columns_ok:
  "\<forall>c\<in>set cs. ordinal tc (Name c) < length args \<Longrightarrow>
   convert_columns CA tc cs args acc =
     Inr (acc @ map (\<lambda>c. CA c (args ! ordinal tc (Name c))) cs)"
  by (induction cs arbitrary: acc) (simp_all add: index_def)

lemma convert_rows_ok:
  "\<forall>row\<in>set rows. \<forall>c\<in>set cs. ordinal tc (Name c) < length row \<Longrightarrow>
   convert_rows CA tc cs rows acc =
     Inr (acc @ concat (map (\<lambda>row. map (\<lambda>c. CA c (row ! ordinal tc (Name c))) cs) rows))"
  by (induction rows arbitrary: acc) (simp_all add: convert_columns_ok)

lemma ordinal_in_range:
  assumes "\<forall>name i. Ordinals tc name = Some i \<longrightarrow> i < Len tc" and "0 < Len tc"
  shows "ordinal tc name < Len tc"
  using assms by (simp add: ordinal_def split: option.split)

lemma subset_nonempty:
  assumes "IsSubsetOf sc tc" "Len sc \<noteq> 0" "\<forall>name i. Ordinals tc name = Some i \<longrightarrow> i < Len tc"
  shows "0 < Len tc"
proof -
  from assms(2) obtain c where "c \<in> set (columns sc)"
    by (cases "columns sc") (auto simp: Len_def)
  with assms(1) obtain i where "Ordinals tc (Name c) = Some i"
    by (auto simp: IsSubsetOf_def list_all_iff)
  with assms(3) show ?thesis by fastforce
qed

text \<open>
  Claim C10, as stated, fails: the four checks do not look at the values of
  \<open>tableColumns.Ordinals\<close>, which the function then uses as indices. With a table of one
  column \<open>id\<close> whose ordinal is 7, one row of one value and one where argument, the four
  checks pass and the function panics on the index instead of returning a nil error.
\<close>

theorem BuildDMLUpdateQuery_panics_counterexample:
  "length [10 :: nat] =
     Len \<lparr>columns = [\<lparr>Name = ''id'', ColType = OtherColumnType, TimezoneConversion = None\<rparr>],
          Ordinals = [''id'' \<mapsto> 7]\<rparr>
   \<and> length [1 :: nat] =
     Len \<lparr>columns = [\<lparr>Name = ''id'', ColType = OtherColumnType, TimezoneConversion = None\<rparr>],
          Ordinals = [''id'' \<mapsto> 7]\<rparr>
   \<and> IsSubsetOf
        \<lparr>columns = [\<lparr>Name = ''id'', ColType = OtherColumnType, TimezoneConversion = None\<rparr>],
         Ordinals = [''id'' \<mapsto> 0]\<rparr>
        \<lparr>columns = [\<lparr>Name = ''id'', ColType = OtherColumnType, TimezoneConversion = None\<rparr>],
         Ordinals = [''id'' \<mapsto> 7]\<rparr>
   \<and> Len \<lparr>columns = [\<lparr>Name = ''id'', ColType = OtherColumnType, TimezoneConversion = None\<rparr>],
           Ordinals = [''id'' \<mapsto> 0]\<rparr> \<noteq> 0
   \<and> BuildDMLUpdateQuery (\<lambda>name. None) (\<lambda>c a. a) ''db'' ''t''
        \<lparr>columns = [\<lparr>Name = ''id'', ColType = OtherColumnType, TimezoneConversion = None\<rparr>],
         Ordinals = [''id'' \<mapsto> 7]\<rparr>
        \<lparr>columns = [\<lparr>Name = ''id'', ColType = OtherColumnType, TimezoneConversion = None\<rparr>],
         Ordinals = [''id'' \<mapsto> 0]\<rparr>
        \<lparr>columns = [\<lparr>Name = ''id'', ColType = OtherColumnType, TimezoneConversion = None\<rparr>],
         Ordinals = [''id'' \<mapsto> 0]\<rparr>
        [ [10 :: nat] ] [1]
       = Inl ''index out of range''"
  by (simp add: BuildDMLUpdateQuery_def Len_def IsSubsetOf_def ordinal_def index_def)

text \<open>
  Claim C10, amended. When the four checks of \<open>BuildDMLUpdateQuery\<close> pass (every row of
  values and the where arguments have as many entries as the table has columns, the shared
  columns are a subset of the table's and there is one at least), the function never
  returns an error that is not nil: it panics on an index out of range, or it returns a
  nil error together with the statement built from whatever strings
  \<open>BuildSetPreparedClause\<close> and \<open>BuildEqualsPreparedComparison\<close> returned, their errors
  dropped. When every ordinal of the table is a position of the table it does not panic,
  and the arguments are the converted values at the ordinals of the shared columns and of
  the table's columns. With no mapped shared column \<open>BuildSetPreparedClause\<close> fails and
  returns the empty string, and the statement has an empty \<open>set\<close> clause.
\<close>

theorem BuildDMLUpdateQuery_drops_clause_errors:
  assumes "\<forall>valueArgs\<in>set columnValues. length valueArgs = Len tableColumns"
    and "length whereArgs = Len tableColumns"
    and "IsSubsetOf sharedColumns tableColumns"
    and "Len sharedColumns \<noteq> 0"
  shows "((\<exists>p. BuildDMLUpdateQuery Unquote ConvertArg databaseName tableName tableColumns
                 sharedColumns mappedSharedColumns columnValues whereArgs = Inl p)
          \<or> (\<exists>sharedArgs uniqueKeyArgs.
                BuildDMLUpdateQuery Unquote ConvertArg databaseName tableName tableColumns
                  sharedColumns mappedSharedColumns columnValues whereArgs =
                Inr (NL @ '' '' @ TAB @ TAB @ TAB @ ''update'' @ NL
                     @ '' '' @ TAB @ TAB @ TAB @ TAB @ TAB
                       @ EscapeName Unquote databaseName @ ''.''
                       @ EscapeName Unquote tableName @ NL
                     @ TAB @ TAB @ TAB @ TAB @ ''set'' @ NL
                     @ TAB @ TAB @ TAB @ TAB @ TAB
                       @ fst (BuildSetPreparedClause Unquote mappedSharedColumns) @ NL
                     @ TAB @ TAB @ TAB @ TAB @ ''where'' @ NL
                     @ '' '' @ TAB @ TAB @ TAB @ TAB @ TAB
                       @ fst (BuildEqualsPreparedComparison Unquote (Names tableColumns)) @ NL
                     @ '' '' @ TAB @ TAB,
                     sharedArgs, uniqueKeyArgs, None)))
       \<and> ((\<forall>name i. Ordinals tableColumns name = Some i \<longrightarrow> i < Len tableColumns) \<longrightarrow>
            BuildDMLUpdateQuery Unquote ConvertArg databaseName tableName tableColumns
              sharedColumns mappedSharedColumns columnValues whereArgs =
            Inr (NL @ '' '' @ TAB @ TAB @ TAB @ ''update'' @ NL
                 @ '' '' @ TAB @ TAB @ TAB @ TAB @ TAB
                   @ EscapeName Unquote databaseName @ ''.'' @ EscapeName Unquote tableName @ NL
                 @ TAB @ TAB @ TAB @ TAB @ ''set'' @ NL
                 @ TAB @ TAB @ TAB @ TAB @ TAB
                   @ fst (BuildSetPreparedClause Unquote mappedSharedColumns) @ NL
                 @ TAB @ TAB @ TAB @ TAB @ ''where'' @ NL
                 @ '' '' @ TAB @ TAB @ TAB @ TAB @ TAB
                   @ fst (BuildEqualsPreparedComparison Unquote (Names tableColumns)) @ NL
                 @ '' '' @ TAB @ TAB,
                 concat (map (\<lambda>row. map (\<lambda>c. ConvertArg c (row ! ordinal tableColumns (Name c)))
                                       (columns sharedColumns)) columnValues),
                 map (\<lambda>c. ConvertArg c (whereArgs ! ordinal tableColumns (Name c)))
                   (columns tableColumns),
                 None))
       \<and> (Len mappedSharedColumns = 0 \<longrightarrow>
            BuildSetPreparedClause Unquote mappedSharedColumns =
              ([], Some ''Got 0 columns in BuildSetPreparedClause''))"
proof -
  have never: "(\<exists>p. BuildDMLUpdateQuery Unquote ConvertArg databaseName tableName tableColumns
                 sharedColumns mappedSharedColumns columnValues whereArgs = Inl p)
          \<or> (\<exists>sharedArgs uniqueKeyArgs.
                BuildDMLUpdateQuery Unquote ConvertArg databaseName tableName tableColumns
                  sharedColumns mappedSharedColumns columnValues whereArgs =
                Inr (NL @ '' '' @ TAB @ TAB @ TAB @ ''update'' @ NL
                     @ '' '' @ TAB @ TAB @ TAB @ TAB @ TAB
                       @ EscapeName Unquote databaseName @ ''.''
                       @ EscapeName Unquote tableName @ NL
                     @ TAB @ TAB @ TAB @ TAB @ ''set'' @ NL
                     @ TAB @ TAB @ TAB @ TAB @ TAB
                       @ fst (BuildSetPreparedClause Unquote mappedSharedColumns) @ NL
                     @ TAB @ TAB @ TAB @ TAB @ ''where'' @ NL
                     @ '' '' @ TAB @ TAB @ TAB @ TAB @ TAB
                       @ fst (BuildEqualsPreparedComparison Unquote (Names tableColumns)) @ NL
                     @ '' '' @ TAB @ TAB,
                     sharedArgs, uniqueKeyArgs, None))"
  proof (cases "convert_rows ConvertArg tableColumns (columns sharedColumns) columnValues []")
    case (Inl p)
    with assms show ?thesis
      by (simp add: BuildDMLUpdateQuery_def Let_def)
  next
    case rows: (Inr sharedArgs)
    show ?thesis
    proof (cases "convert_columns ConvertArg tableColumns (columns tableColumns) whereArgs []")
      case (Inl p)
      with assms rows show ?thesis
        by (simp add: BuildDMLUpdateQuery_def Let_def)
    next
      case (Inr uniqueKeyArgs)
      with assms rows show ?thesis
        by (simp add: BuildDMLUpdateQuery_def Let_def split_beta)
    qed
  qed
  have exact: "BuildDMLUpdateQuery Unquote ConvertArg databaseName tableName tableColumns
              sharedColumns mappedSharedColumns columnValues whereArgs =
            Inr (NL @ '' '' @ TAB @ TAB @ TAB @ ''update'' @ NL
                 @ '' '' @ TAB @ TAB @ TAB @ TAB @ TAB
                   @ EscapeName Unquote databaseName @ ''.'' @ EscapeName Unquote tableName @ NL
                 @ TAB @ TAB @ TAB @ TAB @ ''set'' @ NL
                 @ TAB @ TAB @ TAB @ TAB @ TAB
                   @ fst (BuildSetPreparedClause Unquote mappedSharedColumns) @ NL
                 @ TAB @ TAB @ TAB @ TAB @ ''where'' @ NL
                 @ '' '' @ TAB @ TAB @ TAB @ TAB @ TAB
                   @ fst (BuildEqualsPreparedComparison Unquote (Names tableColumns)) @ NL
                 @ '' '' @ TAB @ TAB,
                 concat (map (\<lambda>row. map (\<lambda>c. ConvertArg c (row ! ordinal tableColumns (Name c)))
                                       (columns sharedColumns)) columnValues),
                 map (\<lambda>c. ConvertArg c (whereArgs ! ordinal tableColumns (Name c)))
                   (columns tableColumns),
                 None)"
    if inrange: "\<forall>name i. Ordinals tableColumns name = Some i \<longrightarrow> i < Len tableColumns"
  proof -
    have pos: "0 < Len tableColumns"
      using assms(3,4) inrange by (rule subset_nonempty)
    have ord: "ordinal tableColumns name < Len tableColumns" for name
      using inrange pos by (rule ordinal_in_range)
    have rows: "convert_rows ConvertArg tableColumns (columns sharedColumns) columnValues [] =
        Inr ([] @ concat (map (\<lambda>row. map (\<lambda>c. ConvertArg c (row ! ordinal tableColumns (Name c)))
                                      (columns sharedColumns)) columnValues))"
      using assms(1) ord by (intro convert_rows_ok) simp
    have wh: "convert_columns ConvertArg tableColumns (columns tableColumns) whereArgs [] =
        Inr ([] @ map (\<lambda>c. ConvertArg c (whereArgs ! ordinal tableColumns (Name c)))
                  (columns tableColumns))"
      using assms(2) ord by (intro convert_columns_ok) simp
    show ?thesis
      using assms rows wh
      by (simp add: BuildDMLUpdateQuery_def Let_def split_beta)
  qed
  have empty: "Len mappedSharedColumns = 0 \<longrightarrow>
            BuildSetPreparedClause Unquote mappedSharedColumns =
              ([], Some ''Got 0 columns in BuildSetPreparedClause'')"
    by (simp add: BuildSetPreparedClause_def)
  from never exact empty show ?thesis by blast
qed

theorem BuildDMLUpdateQuery_drops_clause_errors_witness:
  "BuildDMLUpdateQuery (\<lambda>name. None) (\<lambda>c a. a) ''db'' ''t''
     \<lparr>columns = [\<lparr>Name = ''id'', ColType = OtherColumnType, TimezoneConversion = None\<rparr>,
                 \<lparr>Name = [], ColType = OtherColumnType, TimezoneConversion = None\<rparr>],
      Ordinals = [''id'' \<mapsto> 0, [] \<mapsto> 1]\<rparr>
     \<lparr>columns = [\<lparr>Name = ''id'', ColType = OtherColumnType, TimezoneConversion = None\<rparr>],
      Ordinals = [''id'' \<mapsto> 0]\<rparr>
     \<lparr>columns = [], Ordinals = Map.empty\<rparr>
     [ [10, 20 :: nat] ] [1, 2]
   = Inr (NL @ '' '' @ TAB @ TAB @ TAB @ ''update'' @ NL
          @ '' '' @ TAB @ TAB @ TAB @ TAB @ TAB @ ''`db`.`t`'' @ NL
          @ TAB @ TAB @ TAB @ TAB @ ''set'' @ NL
          @ TAB @ TAB @ TAB @ TAB @ TAB @ NL
          @ TAB @ TAB @ TAB @ TAB @ ''where'' @ NL
          @ '' '' @ TAB @ TAB @ TAB @ TAB @ TAB @ NL
          @ '' '' @ TAB @ TAB,
          [10], [1, 2], None)
   \<and> BuildSetPreparedClause (\<lambda>name. None) \<lparr>columns = [], Ordinals = Map.empty\<rparr>
       = ([], Some ''Got 0 columns in BuildSetPreparedClause'')
   \<and> BuildEqualsPreparedComparison (\<lambda>name. None) [''id'', [] ]
       = ([], Some ''Empty column in GetValueComparison'')"
proof -
  let ?tc = "\<lparr>columns = [\<lparr>Name = ''id'', ColType = OtherColumnType, TimezoneConversion = None\<rparr>,
                 \<lparr>Name = [], ColType = OtherColumnType, TimezoneConversion = None\<rparr>],
      Ordinals = [''id'' \<mapsto> 0, [] \<mapsto> 1]\<rparr>"
  let ?sc = "\<lparr>columns = [\<lparr>Name = ''id'', ColType = OtherColumnType, TimezoneConversion = None\<rparr>],
      Ordinals = [''id'' \<mapsto> 0 :: nat]\<rparr>"
  let ?mc = "\<lparr>columns = [], Ordinals = (Map.empty :: string \<rightharpoonup> nat)\<rparr>"
  have eq: "BuildEqualsPreparedComparison (\<lambda>name. None) [''id'', [] ]
       = ([], Some ''Empty column in GetValueComparison'')"
    by (simp add: BuildEqualsPreparedComparison_def buildPreparedValues_replicate
        BuildEqualsComparison_def upt_2 equals_round_def BuildValueComparison_def
        numeral_2_eq_2)
  have checks: "\<forall>valueArgs\<in>set [ [10, 20 :: nat] ]. length valueArgs = Len ?tc"
    "length [1, 2 :: nat] = Len ?tc" "IsSubsetOf ?sc ?tc" "Len ?sc \<noteq> 0"
    by (simp_all add: Len_def IsSubsetOf_def)
  have inrange: "\<forall>name i. Ordinals ?tc name = Some i \<longrightarrow> i < Len ?tc"
    by (simp add: Len_def)
  have "BuildDMLUpdateQuery (\<lambda>name. None) (\<lambda>c a. a) ''db'' ''t'' ?tc ?sc ?mc
          [ [10, 20 :: nat] ] [1, 2] =
         Inr (NL @ '' '' @ TAB @ TAB @ TAB @ ''update'' @ NL
              @ '' '' @ TAB @ TAB @ TAB @ TAB @ TAB
                @ EscapeName (\<lambda>name. None) ''db'' @ ''.'' @ EscapeName (\<lambda>name. None) ''t'' @ NL
              @ TAB @ TAB @ TAB @ TAB @ ''set'' @ NL
              @ TAB @ TAB @ TAB @ TAB @ TAB
                @ fst (BuildSetPreparedClause (\<lambda>name. None) ?mc) @ NL
              @ TAB @ TAB @ TAB @ TAB @ ''where'' @ NL
              @ '' '' @ TAB @ TAB @ TAB @ TAB @ TAB
                @ fst (BuildEqualsPreparedComparison (\<lambda>name. None) (Names ?tc)) @ NL
              @ '' '' @ TAB @ TAB,
              concat (map (\<lambda>row. map (\<lambda>c. row ! ordinal ?tc (Name c)) (columns ?sc))
                        [ [10, 20] ]),
              map (\<lambda>c. [1, 2] ! ordinal ?tc (Name c)) (columns ?tc),
              None)
       \<and> (Len ?mc = 0 \<longrightarrow>
            BuildSetPreparedClause (\<lambda>name. None) ?mc =
              ([], Some ''Got 0 columns in BuildSetPreparedClause''))"
    using BuildDMLUpdateQuery_drops_clause_errors [OF checks, of "\<lambda>name. None" "\<lambda>c a. a"
        "''db''" "''t''" ?mc] inrange
    by blast
  moreover have "Names ?tc = [''id'', [] ]" "Len ?mc = 0"
    by (simp_all add: Names_def Len_def)
  ultimately show ?thesis
    using eq by (simp add: EscapeName_def ordinal_def)
qed

section \<open>The state symbols of a run\<close>

lemma logf_fields [simp]:
  "updater (logf fmt args r) = updater r" "task (logf fmt args r) = task r"
  "running (logf fmt args r) = running r" "handle (logf fmt args r) = handle r"
  "destroy (logf fmt args r) = destroy r" "destroyCh (logf fmt args r) = destroyCh r"
  "destroyEvent (logf fmt args r) = destroyEvent r" "alloc (logf fmt args r) = alloc r"
  "restartTracker (logf fmt args r) = restartTracker r" "waitCh (logf fmt args r) = waitCh r"
  "startCh (logf fmt args r) = startCh r" "config (logf fmt args r) = config r"
  by (simp_all add: logf_def)

lemma live_simps [simp]:
  "live_symbol TaskStatePending" "live_symbol TaskStateRunning" "\<not> live_symbol TaskStateDead"
  "\<not> live_symbol []" "TaskStateDead \<noteq> []" "[] \<noteq> TaskStateDead"
  by (simp_all add: live_symbol_def TaskStateDead_def TaskStatePending_def TaskStateRunning_def)

lemma lives_simps [simp]:
  "lives []" "lives (us @ vs) = (lives us \<and> lives vs)"
  "lives [u] = (upd_state u = [] \<or> live_symbol (upd_state u))"
  by (simp_all add: lives_def)

lemma crashed_simps [simp]:
  "crashed (panic p m)" "crashed (m\<lparr>pc := Crashed p\<rparr>)" "\<not> crashed (m\<lparr>pc := Exited e\<rparr>)"
  "\<not> crashed (m\<lparr>pc := AtWait\<rparr>)" "\<not> crashed (m\<lparr>pc := RestartDrain\<rparr>)"
  "\<not> crashed (m\<lparr>pc := DestroyDrain\<rparr>)" "\<not> crashed (m\<lparr>pc := RestartSleep w\<rparr>)"
  by (simp_all add: crashed_def panic_def)

lemma crashed_wk [simp]:
  "crashed (m\<lparr>wk := r\<rparr>) = crashed m" "crashed (m\<lparr>dsk := d\<rparr>) = crashed m"
  "crashed (m\<lparr>stopCollection := c\<rparr>) = crashed m"
  "crashed (m\<lparr>handleWaitCh := b\<rparr>) = crashed m"
  "crashed (m\<lparr>prestartResultCh := ch\<rparr>) = crashed m"
  "crashed (m\<lparr>collectors := k\<rparr>) = crashed m"
  by (simp_all add: crashed_def)

lemma blocked_not_crashed: "blocked (pc m) \<Longrightarrow> \<not> crashed m"
  by (simp add: blocked_def crashed_def split: location.splits)

lemma fine_blocked: "blocked (pc m) \<Longrightarrow> fine us m = lives us"
  by (simp add: fine_def blocked_def split: location.splits)

lemma fine_crashed:
  "crashed m \<Longrightarrow> fine us m = (\<exists>live fin. us = live @ fin \<and> lives live \<and> dying fin)"
  by (simp add: fine_def crashed_def split: location.splits)

lemma fine_exited:
  "pc m = Exited e \<Longrightarrow>
   fine us m = (\<exists>live fin. us = live @ fin \<and> lives live \<and> finals e (destroyEvent (wk m)) fin)"
  by (simp add: fine_def)

lemma dying_Nil [simp]: "dying []"
  by (simp add: dying_def)

lemma fine_crashed_lives: "crashed m \<Longrightarrow> lives us \<Longrightarrow> fine us m"
  unfolding fine_crashed by (rule exI [of _ us], rule exI [of _ "[]"]) simp

lemma fine_prepend: "lives vs \<Longrightarrow> fine us m \<Longrightarrow> fine (vs @ us) m"
proof (cases "pc m")
  case (Exited e)
  assume "lives vs" "fine us m"
  then obtain live fin where "us = live @ fin" "lives live" "finals e (destroyEvent (wk m)) fin"
    using Exited by (auto simp: fine_exited)
  then have "vs @ us = (vs @ live) @ fin \<and> lives (vs @ live)
             \<and> finals e (destroyEvent (wk m)) fin"
    using \<open>lives vs\<close> by simp
  then show ?thesis unfolding fine_exited [OF Exited] by blast
next
  case (Crashed p)
  then have c: "crashed m" by (simp add: crashed_def)
  assume "lives vs" "fine us m"
  then obtain live fin where "us = live @ fin" "lives live" "dying fin"
    using c by (auto simp: fine_crashed)
  then have "vs @ us = (vs @ live) @ fin \<and> lives (vs @ live) \<and> dying fin"
    using \<open>lives vs\<close> by simp
  then show ?thesis unfolding fine_crashed [OF c] by blast
qed (simp_all add: fine_def)

lemma gives_refl [simp]: "gives m [] m"
  by (simp add: gives_def)

lemma gives_trans: "gives m us m1 \<Longrightarrow> gives m1 vs m2 \<Longrightarrow> gives m (us @ vs) m2"
  by (simp add: gives_def)

lemma quiet_refl [simp]: "quiet m m"
  unfolding quiet_def by (auto intro: exI [of _ "[]"])

lemma quiet_same:
  "updater (wk m') = updater (wk m) \<Longrightarrow> crashed m' \<or> pc m' = pc m \<Longrightarrow> quiet m m'"
  unfolding quiet_def gives_def by (auto intro: exI [of _ "[]"])

lemma quiet_trans:
  assumes "quiet m m1" and "quiet m1 m2"
  shows "quiet m m2"
proof -
  from assms(1) obtain us where us: "gives m us m1" "lives us" "crashed m1 \<or> pc m1 = pc m"
    by (auto simp: quiet_def)
  from assms(2) obtain vs where vs: "gives m1 vs m2" "lives vs" "crashed m2 \<or> pc m2 = pc m1"
    by (auto simp: quiet_def)
  from us(1) vs(1) have "gives m (us @ vs) m2" by (rule gives_trans)
  moreover from us(2) vs(2) have "lives (us @ vs)" by simp
  moreover from us(3) vs(3) have "crashed m2 \<or> pc m2 = pc m" by (auto simp: crashed_def)
  ultimately show ?thesis unfolding quiet_def by blast
qed

lemma quiet_pre:
  "updater (wk m0) = updater (wk m) \<Longrightarrow> pc m0 = pc m \<Longrightarrow> quiet m0 m' \<Longrightarrow> quiet m m'"
  by (rule quiet_trans [where ?m1.0 = m0]) (simp_all add: quiet_same)

lemma quiet_andthen:
  assumes "quiet m m1" and "\<not> crashed m1 \<Longrightarrow> quiet m1 (f m1)"
  shows "quiet m (andthen m1 f)"
proof (cases "crashed m1")
  case True
  with assms(1) show ?thesis by (simp add: andthen_def)
next
  case False
  with assms(2) have "quiet m1 (f m1)" by simp
  with assms(1) have "quiet m (f m1)" by (rule quiet_trans)
  with False show ?thesis by (simp add: andthen_def)
qed

lemma advance_after:
  assumes "gives m0 us m" and "lives us" and "advance m m'"
  shows "advance m0 m'"
proof -
  from assms(3) obtain vs where vs: "gives m vs m'" "fine vs m'"
    by (auto simp: advance_def)
  from assms(1) vs(1) have "gives m0 (us @ vs) m'" by (rule gives_trans)
  moreover from assms(2) vs(2) have "fine (us @ vs) m'" by (rule fine_prepend)
  ultimately show ?thesis unfolding advance_def by blast
qed

lemma advance_same:
  "updater (wk m) = updater (wk m0) \<Longrightarrow> advance m m' \<Longrightarrow> advance m0 m'"
  by (rule advance_after [where us = "[]" and m = m]) (simp_all add: gives_def)

lemma quiet_imp_advance:
  assumes "quiet m m'" and "blocked (pc m)"
  shows "advance m m'"
proof -
  from assms(1) obtain us where us: "gives m us m'" "lives us" "crashed m' \<or> pc m' = pc m"
    by (auto simp: quiet_def)
  have "fine us m'"
  proof (cases "crashed m'")
    case True
    then show ?thesis using us(2) by (rule fine_crashed_lives)
  next
    case False
    with us(3) assms(2) have "blocked (pc m')" by simp
    then show ?thesis using us(2) by (simp add: fine_blocked)
  qed
  with us(1) show ?thesis unfolding advance_def by blast
qed

lemma quiet_advance:
  assumes "quiet m m1" and "\<not> crashed m1 \<Longrightarrow> pc m1 = pc m \<Longrightarrow> advance m1 (f m1)"
  shows "advance m (andthen m1 f)"
proof -
  from assms(1) obtain us where us: "gives m us m1" "lives us" "crashed m1 \<or> pc m1 = pc m"
    by (auto simp: quiet_def)
  show ?thesis
  proof (cases "crashed m1")
    case True
    then have "fine us m1" using us(2) by (rule fine_crashed_lives)
    with us(1) True show ?thesis unfolding advance_def andthen_def by auto
  next
    case False
    with assms(2) us(3) have "advance m1 (f m1)" by simp
    with us(1,2) have "advance m (f m1)" by (rule advance_after)
    with False show ?thesis by (simp add: andthen_def)
  qed
qed

lemma advance_panic [simp]: "advance m (panic p m)"
  unfolding advance_def
  by (rule exI [of _ "[]"]) (simp add: gives_def panic_def fine_crashed_lives crashed_def)

lemma quiet_panic [simp]: "quiet m (panic p m)"
  by (rule quiet_same) (simp_all add: panic_def)

lemma advance_to:
  "updater (wk m') = updater (wk m) \<Longrightarrow> blocked (pc m') \<Longrightarrow> advance m m'"
  unfolding advance_def
  by (rule exI [of _ "[]"]) (simp add: gives_def fine_blocked)

text \<open>\<open>setState\<close>: it panics and gives nothing, or it gives the update and goes on.\<close>

lemma setState_cases:
  obtains (panics) "crashed (setState X s e m)"
      "updater (wk (setState X s e m)) = updater (wk m)"
  | (goes) t where "task (wk m) = Some t" "pc (setState X s e m) = pc m"
      "updater (wk (setState X s e m))
         = updater (wk m) @ [\<lparr>upd_task = TaskType t, upd_state = s, upd_event = e\<rparr>]"
      "destroyEvent (wk (setState X s e m)) = destroyEvent (wk m)"
      "waitCh (wk (setState X s e m)) = waitCh (wk m)"
      "running (wk (setState X s e m)) = running (wk m)"
      "handle (wk (setState X s e m)) = handle (wk m)"
      "task (wk (setState X s e m)) = task (wk m)"
      "handleWaitCh (setState X s e m) = handleWaitCh m"
      "stopCollection (setState X s e m) = stopCollection m"
proof (cases "SaveState (ext_md5hex X) (wk m) (dsk m)")
  case (Inl p)
  then show ?thesis by (intro panics) (simp_all add: setState_def panic_def)
next
  case (Inr res)
  obtain err d where res: "res = (err, d)" by (cases res)
  show ?thesis
  proof (cases "task (wk m)")
    case None
    with Inr res show ?thesis by (intro panics) (simp_all add: setState_def panic_def)
  next
    case (Some t)
    with Inr res show ?thesis
      by (intro goes [of t]) (simp_all add: setState_def Let_def split: option.split)
  qed
qed

lemma setState_quiet:
  "s = [] \<or> live_symbol s \<Longrightarrow> quiet m (setState X s e m)"
  by (rule setState_cases [of X s e m]) (auto simp: quiet_def gives_def)

lemma exit_run_cases:
  obtains (panics) "crashed (exit_run why m)"
      "updater (wk (exit_run why m)) = updater (wk m)"
  | (returns) "pc (exit_run why m) = Exited why"
      "updater (wk (exit_run why m)) = updater (wk m)"
      "destroyEvent (wk (exit_run why m)) = destroyEvent (wk m)"
  by (cases "close_chan (waitCh (wk m))") (simp_all add: exit_run_def)

text \<open>One \<open>Dead\<close> and the return.\<close>

lemma dead_exit_advance:
  assumes "deaths why = 1"
    and "dead_event_types why (destroyEvent (wk m)) = [map_option Type e]"
  shows "advance m (andthen (setState X TaskStateDead e m) (exit_run why))"
proof (rule setState_cases [of X TaskStateDead e m])
  assume c: "crashed (setState X TaskStateDead e m)"
    and u: "updater (wk (setState X TaskStateDead e m)) = updater (wk m)"
  from c have "fine [] (setState X TaskStateDead e m)" by (simp add: fine_crashed_lives)
  with c u show ?thesis unfolding advance_def andthen_def gives_def by auto
next
  fix t
  let ?m1 = "setState X TaskStateDead e m"
  let ?u = "\<lparr>upd_task = TaskType t, upd_state = TaskStateDead, upd_event = e\<rparr>"
  assume u: "updater (wk ?m1) = updater (wk m) @ [?u]"
    and de: "destroyEvent (wk ?m1) = destroyEvent (wk m)"
  have d: "dying [?u]" by (simp add: dying_def)
  show ?thesis
  proof (cases "crashed ?m1")
    case True
    then have "fine [?u] ?m1" unfolding fine_crashed [OF True] using d
      by (intro exI [of _ "[]"] exI [of _ "[?u]"]) simp
    with True u show ?thesis unfolding advance_def andthen_def gives_def by auto
  next
    case False
    show ?thesis
    proof (rule exit_run_cases [of why ?m1])
      assume c: "crashed (exit_run why ?m1)"
        and u2: "updater (wk (exit_run why ?m1)) = updater (wk ?m1)"
      have "fine [?u] (exit_run why ?m1)" unfolding fine_crashed [OF c] using d
        by (intro exI [of _ "[]"] exI [of _ "[?u]"]) simp
      with False u u2 show ?thesis unfolding advance_def andthen_def gives_def by auto
    next
      assume p: "pc (exit_run why ?m1) = Exited why"
        and u2: "updater (wk (exit_run why ?m1)) = updater (wk ?m1)"
        and de2: "destroyEvent (wk (exit_run why ?m1)) = destroyEvent (wk ?m1)"
      have "finals why (destroyEvent (wk (exit_run why ?m1))) [?u]"
        using assms de de2 by (simp add: finals_def)
      then have "fine [?u] (exit_run why ?m1)" unfolding fine_exited [OF p]
        by (intro exI [of _ "[]"] exI [of _ "[?u]"]) simp
      with False u u2 show ?thesis unfolding advance_def andthen_def gives_def by auto
    qed
  qed
qed

text \<open>The \<open>Dead\<close> of \<open>shouldRestart\<close>, the \<open>Dead\<close> of \<open>run\<close>, and the return.\<close>

lemma two_dead_exit_advance:
  assumes "deaths why = 2"
    and "dead_event_types why (destroyEvent (wk m)) = [map_option Type e, None]"
  shows "advance m (andthen (setState X TaskStateDead e m) (not_restarting X why))"
proof (rule setState_cases [of X TaskStateDead e m])
  assume c: "crashed (setState X TaskStateDead e m)"
    and u: "updater (wk (setState X TaskStateDead e m)) = updater (wk m)"
  from c have "fine [] (setState X TaskStateDead e m)" by (simp add: fine_crashed_lives)
  with c u show ?thesis unfolding advance_def andthen_def gives_def by auto
next
  fix t
  let ?m1 = "setState X TaskStateDead e m"
  let ?u = "\<lparr>upd_task = TaskType t, upd_state = TaskStateDead, upd_event = e\<rparr>"
  assume u: "updater (wk ?m1) = updater (wk m) @ [?u]"
    and de: "destroyEvent (wk ?m1) = destroyEvent (wk m)"
  have d: "dying [?u]" by (simp add: dying_def)
  show ?thesis
  proof (cases "crashed ?m1")
    case True
    then have "fine [?u] ?m1" unfolding fine_crashed [OF True] using d
      by (intro exI [of _ "[]"] exI [of _ "[?u]"]) simp
    with True u show ?thesis unfolding advance_def andthen_def gives_def by auto
  next
    case False
    let ?m2 = "setState X TaskStateDead None ?m1"
    have nr: "andthen ?m1 (not_restarting X why) = andthen ?m2 (exit_run why)"
      using False by (simp add: andthen_def not_restarting_def)
    have "advance m (andthen ?m2 (exit_run why))"
    proof (rule setState_cases [of X TaskStateDead None ?m1])
      assume c: "crashed ?m2" and u2: "updater (wk ?m2) = updater (wk ?m1)"
      have "fine [?u] ?m2" unfolding fine_crashed [OF c] using d
        by (intro exI [of _ "[]"] exI [of _ "[?u]"]) simp
      with c u u2 show "advance m (andthen ?m2 (exit_run why))" unfolding advance_def andthen_def gives_def by auto
    next
      fix t'
      let ?v = "\<lparr>upd_task = TaskType t', upd_state = TaskStateDead, upd_event = None\<rparr>"
      assume u2: "updater (wk ?m2) = updater (wk ?m1) @ [?v]"
        and de2: "destroyEvent (wk ?m2) = destroyEvent (wk ?m1)"
      have d2: "dying [?u, ?v]" by (simp add: dying_def)
      have uu: "updater (wk ?m2) = updater (wk m) @ [?u, ?v]" using u u2 by simp
      show "advance m (andthen ?m2 (exit_run why))"
      proof (cases "crashed ?m2")
        case True
        then have "fine [?u, ?v] ?m2" unfolding fine_crashed [OF True] using d2
          by (intro exI [of _ "[]"] exI [of _ "[?u, ?v]"]) simp
        with True uu show "advance m (andthen ?m2 (exit_run why))" unfolding advance_def andthen_def gives_def by auto
      next
        case nc: False
        show "advance m (andthen ?m2 (exit_run why))"
        proof (rule exit_run_cases [of why ?m2])
          assume c: "crashed (exit_run why ?m2)"
            and u3: "updater (wk (exit_run why ?m2)) = updater (wk ?m2)"
          have "fine [?u, ?v] (exit_run why ?m2)" unfolding fine_crashed [OF c] using d2
            by (intro exI [of _ "[]"] exI [of _ "[?u, ?v]"]) simp
          with nc uu u3 show "advance m (andthen ?m2 (exit_run why))" unfolding advance_def andthen_def gives_def by auto
        next
          assume p: "pc (exit_run why ?m2) = Exited why"
            and u3: "updater (wk (exit_run why ?m2)) = updater (wk ?m2)"
            and de3: "destroyEvent (wk (exit_run why ?m2)) = destroyEvent (wk ?m2)"
          have "finals why (destroyEvent (wk (exit_run why ?m2))) [?u, ?v]"
            using assms de de2 de3 by (simp add: finals_def numeral_2_eq_2)
          then have "fine [?u, ?v] (exit_run why ?m2)" unfolding fine_exited [OF p]
            by (intro exI [of _ "[]"] exI [of _ "[?u, ?v]"]) simp
          with nc uu u3 show "advance m (andthen ?m2 (exit_run why))" unfolding advance_def andthen_def gives_def by auto
        qed
      qed
    qed
    with nr show ?thesis by simp
  qed
qed

lemma not_restarting_advance:
  "deaths why = 1 \<Longrightarrow> dead_event_types why (destroyEvent (wk m)) = [None] \<Longrightarrow>
   advance m (not_restarting X why m)"
  unfolding not_restarting_def by (rule dead_exit_advance) simp_all

lemma killTask_quiet: "quiet m (killTask X ke m)"
proof (cases "running (wk m)")
  case False
  then show ?thesis by (simp add: killTask_def)
next
  case True
  let ?ev = "(case ke of Some e \<Rightarrow> e\<lparr>Type := TaskKilling\<rparr> | None \<Rightarrow> NewTaskEvent TaskKilling)
               \<lparr>KillTimeout := DefaultKillTimeout X\<rparr>"
  let ?m0 = "case ke of Some e \<Rightarrow> m\<lparr>wk := (wk m)\<lparr>destroyEvent := Some ?ev\<rparr>\<rparr> | None \<Rightarrow> m"
  let ?rest = "\<lambda>m. case handle (wk m) of
                None \<Rightarrow> panic nil_deref m
              | Some h \<Rightarrow>
                 (case task (wk m) of
                    None \<Rightarrow> panic nil_deref m
                  | Some t \<Rightarrow>
                     (case handleDestroy (Shutdown h) of
                        ((destroySuccess, err), eff) \<Rightarrow>
                          (let r = (wk m)\<lparr>logger := logger (wk m) @ kill_log t (alloc (wk m)) eff\<rparr>;
                               r = (if \<not> destroySuccess
                                    then logf ''[ERR] client: failed to kill task %q. Resources may have been leaked: %v''
                                           [S (TaskType t), E err] r
                                    else r);
                               r = r\<lparr>running := False\<rparr>
                           in setState X []
                                (Some ((NewTaskEvent TaskKilled)\<lparr>KillError := err\<rparr>))
                                (m\<lparr>wk := r\<rparr>))))"
  have eq: "killTask X ke m = andthen (setState X TaskStateRunning (Some ?ev) ?m0) ?rest"
    using True by (simp add: killTask_def Let_def)
  have m0: "updater (wk ?m0) = updater (wk m)" "pc ?m0 = pc m"
    by (simp_all split: option.split)
  have rest: "quiet m1 (?rest m1)" for m1 :: "'a machine"
  proof (cases "handle (wk m1)")
    case None
    then show ?thesis by simp
  next
    case (Some h)
    show ?thesis
    proof (cases "task (wk m1)")
      case None
      with Some show ?thesis by simp
    next
      case t: (Some t)
      obtain destroySuccess err eff where
        hd: "handleDestroy (Shutdown h) = ((destroySuccess, err), eff)"
        by (metis prod.exhaust)
      show ?thesis
        using Some t hd
        by (auto simp: Let_def intro!: quiet_pre [OF _ _ setState_quiet])
    qed
  qed
  have "quiet ?m0 (andthen (setState X TaskStateRunning (Some ?ev) ?m0) ?rest)"
    by (rule quiet_andthen) (simp_all add: setState_quiet rest)
  with m0 show ?thesis unfolding eq by (rule quiet_pre)
qed

lemma close_stopCollection_quiet: "quiet m (close_stopCollection m)"
  by (rule quiet_same)
     (auto simp: close_stopCollection_def panic_def split: option.splits sum.splits)

lemma startTask_quiet: "quiet m (snd (startTask X nd m))"
  by (rule quiet_same)
     (auto simp: startTask_def panic_def Let_def split: option.splits sum.splits)

lemma loop_head_eq:
  "loop_head m =
     m\<lparr>wk := (if startCh (wk m) < 1 then (wk m)\<lparr>startCh := startCh (wk m) + 1\<rparr> else wk m),
       prestartResultCh := \<lparr>cap = 1, buf = [True]\<rparr>, pc := AtWait\<rparr>"
  by (simp add: loop_head_def prestart_returns)

lemma blocked_simps [simp]:
  "blocked AtWait" "blocked RestartDrain" "blocked DestroyDrain" "blocked (RestartSleep w)"
  "\<not> blocked (Exited why)" "\<not> blocked (Crashed p)"
  by (simp_all add: blocked_def)

lemma loop_head_advance:
  "updater (wk m) = updater (wk m0) \<Longrightarrow> advance m0 (loop_head m)"
  by (rule advance_to) (simp_all add: loop_head_eq)

lemma restart_gate_advance: "advance m (restart_gate X m)"
proof -
  obtain state w rt where g: "GetState X (restartTracker (wk m)) = ((state, w), rt)"
    by (metis prod.exhaust)
  let ?m = "m\<lparr>wk := (wk m)\<lparr>restartTracker := rt\<rparr>\<rparr>"
  show ?thesis
  proof (cases "task (wk m)")
    case None
    with g have "restart_gate X m = panic nil_deref ?m"
      by (simp add: restart_gate_def Let_def)
    then show ?thesis by (simp add: advance_same [OF _ advance_panic])
  next
    case (Some t)
    consider (never) "state = TaskNotRestarting" | (ended) "state = TaskTerminated"
      | (again) "state = TaskRestarting"
      | (other) "state \<noteq> TaskNotRestarting" "state \<noteq> TaskTerminated" "state \<noteq> TaskRestarting"
      by blast
    then show ?thesis
    proof cases
      case never
      let ?m1 = "?m\<lparr>wk := logf ''[INFO] client: Not restarting task: %v for alloc: %v ''
                            [S (TaskType t), S (AllocID (alloc (wk ?m)))] (wk ?m)\<rparr>"
      let ?ev = "(NewTaskEvent TaskNotRestarting)
                   \<lparr>RestartReason := GetReason X rt, FailsTask := True\<rparr>"
      from never g Some have eq: "restart_gate X m =
          andthen (setState X TaskStateDead (Some ?ev) ?m1) (not_restarting X ExitNotRestarting)"
        by (simp add: restart_gate_def Let_def)
      have "advance ?m1
              (andthen (setState X TaskStateDead (Some ?ev) ?m1)
                 (not_restarting X ExitNotRestarting))"
        by (rule two_dead_exit_advance) (simp_all add: NewTaskEvent_def)
      then show ?thesis unfolding eq by (rule advance_same [rotated]) simp
    next
      case ended
      let ?m1 = "?m\<lparr>wk := logf ''[INFO] client: Not restarting task: %v for alloc: %v ''
                            [S (TaskType t), S (AllocID (alloc (wk ?m)))] (wk ?m)\<rparr>"
      from ended g Some have eq: "restart_gate X m = not_restarting X ExitTerminated ?m1"
        by (simp add: restart_gate_def Let_def)
      have "advance ?m1 (not_restarting X ExitTerminated ?m1)"
        by (rule not_restarting_advance) simp_all
      then show ?thesis unfolding eq by (rule advance_same [rotated]) simp
    next
      case again
      let ?m1 = "?m\<lparr>wk := logf ''[INFO] client: Restarting task %q for alloc %q in %v''
                            [S (TaskType t), S (AllocID (alloc (wk ?m))), D w] (wk ?m)\<rparr>"
      let ?ev = "(NewTaskEvent TaskRestarting)
                   \<lparr>StartDelay := w, RestartReason := GetReason X rt\<rparr>"
      from again g Some have eq: "restart_gate X m =
          andthen (setState X TaskStatePending (Some ?ev) ?m1) (\<lambda>m. m\<lparr>pc := RestartSleep w\<rparr>)"
        by (simp add: restart_gate_def Let_def)
      have "advance ?m1
              (andthen (setState X TaskStatePending (Some ?ev) ?m1)
                 (\<lambda>m. m\<lparr>pc := RestartSleep w\<rparr>))"
        by (rule quiet_advance) (simp_all add: setState_quiet advance_to)
      then show ?thesis unfolding eq by (rule advance_same [rotated]) simp
    next
      case other
      let ?m1 = "?m\<lparr>wk := logf ''[ERR] client: restart tracker returned unknown store: %q''
                            [S (case state of TaskOther s \<Rightarrow> s | _ \<Rightarrow> [])] (wk ?m)\<rparr>"
      from other g Some have eq: "restart_gate X m = not_restarting X ExitUnknownState ?m1"
        by (simp add: restart_gate_def Let_def)
      have "advance ?m1 (not_restarting X ExitUnknownState ?m1)"
        by (rule not_restarting_advance) simp_all
      then show ?thesis unfolding eq by (rule advance_same [rotated]) simp
    qed
  qed
qed

lemma wait_prestart_advance:
  assumes "blocked (pc m)"
  shows "advance m (wait_prestart X m)"
proof (cases "buf (prestartResultCh m)")
  case Nil
  with assms show ?thesis by (simp add: wait_prestart_def quiet_imp_advance)
next
  case (Cons success rest)
  let ?m = "m\<lparr>prestartResultCh := (prestartResultCh m)\<lparr>buf := rest\<rparr>\<rparr>"
  show ?thesis
  proof (cases success)
    case True
    with Cons have "wait_prestart X m = ?m" by (simp add: wait_prestart_def)
    with assms show ?thesis by (simp add: advance_to)
  next
    case False
    with Cons have eq: "wait_prestart X m
        = andthen (setState X TaskStateDead None ?m) (exit_run ExitPrestart)"
      by (simp add: wait_prestart_def)
    have "advance ?m (andthen (setState X TaskStateDead None ?m) (exit_run ExitPrestart))"
      by (rule dead_exit_advance) simp_all
    then show ?thesis unfolding eq by (rule advance_same [rotated]) simp
  qed
qed

lemma wait_start_advance:
  assumes "blocked (pc m)"
  shows "advance m (wait_start X nd m)"
proof (cases "startCh (wk m) = 0 \<or> handle (wk m) \<noteq> None")
  case True
  with assms show ?thesis
    by (auto simp: wait_start_def Let_def quiet_imp_advance advance_to)
next
  case False
  let ?m1 = "m\<lparr>wk := (wk m)\<lparr>startCh := startCh (wk m) - 1\<rparr>\<rparr>"
  obtain startErr m2 where st: "startTask X nd ?m1 = (startErr, m2)"
    by (metis prod.exhaust)
  let ?track = "\<lambda>m. m\<lparr>wk := (wk m)\<lparr>restartTracker :=
                        SetStartError X startErr (restartTracker (wk m))\<rparr>\<rparr>"
  let ?started = "\<lambda>m. let m = m\<lparr>wk := (wk m)\<lparr>running := True\<rparr>\<rparr>;
                          m = (if stopCollection m = None then start_collector m else m)
                      in m\<lparr>handleWaitCh := True\<rparr>"
  let ?rest = "\<lambda>m. case startErr of
                 Some e \<Rightarrow>
                   andthen (setState X []
                              (Some ((NewTaskEvent TaskDriverFailure)\<lparr>DriverError := Some e\<rparr>))
                              (?track m))
                     (restart_gate X)
               | None \<Rightarrow>
                   andthen (setState X TaskStateRunning (Some (NewTaskEvent TaskStarted))
                              (?track m))
                     ?started"
  from False st have eq: "wait_start X nd m = andthen m2 ?rest"
    by (simp add: wait_start_def Let_def)
  from startTask_quiet [of ?m1 X nd] st have "quiet ?m1 m2" by simp
  then have q: "quiet m m2" by (rule quiet_pre [rotated 2]) simp_all
  have "advance m (andthen m2 ?rest)"
  proof (rule quiet_advance [OF q])
    assume pc2: "pc m2 = pc m"
    show "advance m2 (?rest m2)"
    proof (cases startErr)
      case (Some e)
      have "advance (?track m2)
              (andthen (setState X []
                          (Some ((NewTaskEvent TaskDriverFailure)\<lparr>DriverError := Some e\<rparr>))
                          (?track m2))
                 (restart_gate X))"
        by (rule quiet_advance) (simp_all add: setState_quiet restart_gate_advance)
      then show ?thesis unfolding Some option.case by (rule advance_same [rotated]) simp
    next
      case None
      have s: "quiet m3 (?started m3)" for m3 :: "'a machine"
        by (rule quiet_same) (simp_all add: Let_def start_collector_def)
      have "quiet (?track m2)
              (andthen (setState X TaskStateRunning (Some (NewTaskEvent TaskStarted))
                          (?track m2))
                 ?started)"
        by (rule quiet_andthen) (simp_all only: setState_quiet live_simps s simp_thms)
      then have "quiet m2 (?rest m2)" unfolding None option.case
        by (rule quiet_pre [rotated 2]) simp_all
      then show ?thesis using assms pc2 by (intro quiet_imp_advance) simp_all
    qed
  qed
  then show ?thesis unfolding eq .
qed

lemma wait_handle_advance:
  assumes "blocked (pc m)"
  shows "advance m (wait_handle X waitRes m)"
proof (cases "handleWaitCh m")
  case False
  with assms show ?thesis by (simp add: wait_handle_def quiet_imp_advance)
next
  case True
  show ?thesis
  proof (cases waitRes)
    case None
    with True show ?thesis by (simp add: wait_handle_def)
  next
    case (Some res)
    let ?m0 = "m\<lparr>wk := (wk m)\<lparr>running := False\<rparr>\<rparr>"
    let ?track = "\<lambda>m. m\<lparr>wk := (wk m)\<lparr>restartTracker :=
                          SetWaitResult X res (restartTracker (wk m))\<rparr>\<rparr>"
    let ?gate = "\<lambda>m. case task (wk m) of
                    None \<Rightarrow> panic nil_deref m
                  | Some t \<Rightarrow>
                     restart_gate X
                       (m\<lparr>wk := logf ''[ERR] client: task %q for alloc %q failed: %v''
                                   [S (TaskType t), S (AllocID (alloc (wk m))), E (Some res)]
                                   (wk m)\<rparr>)"
    let ?rest = "\<lambda>m. andthen (setState X [] (Some (waitErrorToEvent res)) (?track m)) ?gate"
    from True Some have eq: "wait_handle X waitRes m
        = andthen (close_stopCollection ?m0) ?rest"
      by (simp add: wait_handle_def)
    have gate: "advance m3 (?gate m3)" for m3 :: "'a machine"
    proof (cases "task (wk m3)")
      case None
      then show ?thesis by simp
    next
      case t: (Some t)
      show ?thesis unfolding t option.case
        by (rule advance_same [OF _ restart_gate_advance]) simp
    qed
    have rest: "advance m1 (?rest m1)" for m1 :: "'a machine"
    proof -
      have "advance (?track m1) (?rest m1)"
        by (rule quiet_advance) (simp_all add: setState_quiet gate)
      then show ?thesis by (rule advance_same [rotated]) simp
    qed
    have "quiet ?m0 (close_stopCollection ?m0)" by (rule close_stopCollection_quiet)
    then have "quiet m (close_stopCollection ?m0)" by (rule quiet_pre [rotated 2]) simp_all
    then show ?thesis unfolding eq by (rule quiet_advance) (rule rest)
  qed
qed

lemma after_restart_drain_advance: "advance m (after_restart_drain X m)"
  unfolding after_restart_drain_def
  by (rule advance_same [OF _ restart_gate_advance]) simp

lemma wait_restart_advance:
  assumes "blocked (pc m)"
  shows "advance m (wait_restart X event m)"
proof (cases "task (wk m)")
  case None
  then show ?thesis by (simp add: wait_restart_def)
next
  case (Some t)
  show ?thesis
  proof (cases "running (wk m)")
    case False
    with Some assms show ?thesis by (simp add: wait_restart_def advance_to)
  next
    case True
    let ?m0 = "m\<lparr>wk := logf ''[DEBUG] client: restarting %s: %v''
                         [S (TaskType t), S (AllocID (alloc (wk m))),
                          S (RestartReason event)] (wk m)\<rparr>"
    let ?last = "\<lambda>m. if handleWaitCh m then m\<lparr>pc := RestartDrain\<rparr>
                     else after_restart_drain X m"
    let ?close = "\<lambda>m. andthen (close_stopCollection m) ?last"
    let ?kill = "\<lambda>m. andthen (killTask X None m) ?close"
    from True Some have eq: "wait_restart X event m
        = andthen (setState X TaskStateRunning (Some event) ?m0) ?kill"
      by (simp add: wait_restart_def)
    have last: "advance m3 (?last m3)" for m3 :: "'a machine"
      by (simp add: advance_to after_restart_drain_advance)
    have close: "advance m2 (?close m2)" for m2 :: "'a machine"
      by (rule quiet_advance [OF close_stopCollection_quiet]) (rule last)
    have kill: "advance m1 (?kill m1)" for m1 :: "'a machine"
      by (rule quiet_advance [OF killTask_quiet]) (rule close)
    have "advance ?m0 (andthen (setState X TaskStateRunning (Some event) ?m0) ?kill)"
      by (rule quiet_advance [OF setState_quiet]) (simp_all add: kill)
    then show ?thesis unfolding eq by (rule advance_same [rotated]) simp
  qed
qed

lemma wait_destroy_advance:
  assumes "blocked (pc m)"
  shows "advance m (wait_destroy X m)"
proof (cases "destroyCh (wk m) = Closed_chan")
  case False
  with assms show ?thesis by (simp add: wait_destroy_def quiet_imp_advance)
next
  case True
  show ?thesis
  proof (cases "running (wk m)")
    case False
    with True have eq: "wait_destroy X m
        = andthen (setState X TaskStateDead (destroyEvent (wk m)) m) (exit_run ExitDestroyIdle)"
      by (simp add: wait_destroy_def)
    show ?thesis unfolding eq by (rule dead_exit_advance) simp_all
  next
    case run: True
    show ?thesis
    proof (cases "destroyEvent (wk m)")
      case None
      with True run show ?thesis by (simp add: wait_destroy_def)
    next
      case (Some de)
      let ?pair = "if Type de \<noteq> TaskKilled then
                     (if Type de = TaskKilling then (Some de, m)
                      else (None, setState X TaskStateRunning (Some de) m))
                   else (None, m)"
      let ?last = "\<lambda>m. m\<lparr>pc := DestroyDrain\<rparr>"
      let ?close = "\<lambda>m. andthen (close_stopCollection m) ?last"
      let ?kill = "\<lambda>ke m. andthen (killTask X ke m) ?close"
      from True run Some have eq: "wait_destroy X m
          = andthen (snd ?pair) (?kill (fst ?pair))"
        by (simp add: wait_destroy_def)
      have q: "quiet m (snd ?pair)" by (simp add: setState_quiet)
      have close: "advance m2 (?close m2)" for m2 :: "'a machine"
        by (rule quiet_advance [OF close_stopCollection_quiet]) (simp add: advance_to)
      have kill: "advance m1 (?kill ke m1)" for m1 :: "'a machine" and ke
        by (rule quiet_advance [OF killTask_quiet]) (rule close)
      show ?thesis unfolding eq by (rule quiet_advance [OF q]) (rule kill)
    qed
  qed
qed

lemma after_destroy_drain_advance: "advance m (after_destroy_drain X m)"
  unfolding after_destroy_drain_def by (rule dead_exit_advance) simp_all

lemma after_sleep_advance: "advance m (after_sleep X m)"
proof (cases "destroy (wk m)")
  case False
  then show ?thesis by (simp add: after_sleep_def loop_head_advance)
next
  case True
  show ?thesis
  proof (cases "task (wk m)")
    case None
    with True show ?thesis by (simp add: after_sleep_def)
  next
    case (Some t)
    let ?m0 = "m\<lparr>wk := logf ''[DEBUG] client: Not restarting task: %v because it has been destroyed''
                         [S (TaskType t)] (wk m)\<rparr>"
    from True Some have eq: "after_sleep X m
        = andthen (setState X TaskStateDead (destroyEvent (wk m)) ?m0)
            (not_restarting X ExitDestroyedInDelay)"
      by (simp add: after_sleep_def)
    have "advance ?m0
            (andthen (setState X TaskStateDead (destroyEvent (wk m)) ?m0)
               (not_restarting X ExitDestroyedInDelay))"
      by (rule two_dead_exit_advance) simp_all
    then show ?thesis unfolding eq by (rule advance_same [rotated]) simp
  qed
qed

lemma Destroy_updater: "Destroy event r = Inr r' \<Longrightarrow> updater r' = updater r"
  by (auto simp: Destroy_def split: if_splits sum.splits)

lemma call_destroy_advance:
  assumes "blocked (pc m)"
  shows "advance m (step_at X l (CallDestroy event) m)"
proof (cases "Destroy event (wk m)")
  case (Inl p)
  let ?m' = "m\<lparr>wk := (wk m)\<lparr>destroy := True, destroyEvent := event\<rparr>, pc := Crashed p\<rparr>"
  have "gives m [] ?m'" "fine [] ?m'" by (simp_all add: gives_def fine_crashed_lives)
  then have "advance m ?m'" unfolding advance_def by blast
  with Inl show ?thesis by simp
next
  case (Inr r)
  with assms show ?thesis by (simp add: advance_to Destroy_updater)
qed

lemma step_at_advance:
  assumes "blocked (pc m)"
  shows "advance m (step_at X (pc m) i m)"
proof (cases i)
  case (CallDestroy event)
  with assms show ?thesis by (simp only: call_destroy_advance)
next
  case RecvPrestart
  with assms show ?thesis
    by (cases "pc m") (simp_all add: wait_prestart_advance quiet_imp_advance)
next
  case (RecvStart nd)
  with assms show ?thesis
    by (cases "pc m") (simp_all add: wait_start_advance quiet_imp_advance)
next
  case (RecvHandleWait waitRes)
  with assms show ?thesis
    by (cases "pc m")
       (simp_all add: wait_handle_advance after_restart_drain_advance
          after_destroy_drain_advance quiet_imp_advance)
next
  case (RecvRestart event)
  with assms show ?thesis
    by (cases "pc m") (simp_all add: wait_restart_advance quiet_imp_advance)
next
  case RecvDestroy
  with assms show ?thesis
    by (cases "pc m")
       (simp_all add: wait_destroy_advance after_sleep_advance quiet_imp_advance)
next
  case TimerFired
  with assms show ?thesis
    by (cases "pc m") (simp_all add: after_sleep_advance quiet_imp_advance)
qed

lemma step_blocked: "blocked (pc m) \<Longrightarrow> step X i m = step_at X (pc m) i m"
  by (cases "pc m") (simp_all add: step_def)

lemma step_done: "\<not> blocked (pc m) \<Longrightarrow> step X i m = m"
  by (cases "pc m") (simp_all add: step_def)

lemma lifecycle_inv_advance:
  assumes "lifecycle_inv r m" and "blocked (pc m)" and "advance m m'"
  shows "lifecycle_inv r m'"
proof -
  from assms(1,2) obtain us where us: "updater (wk m) = updater r @ us" "lives us"
    by (auto simp: lifecycle_inv_def fine_blocked)
  from assms(3) obtain vs where vs: "updater (wk m') = updater (wk m) @ vs" "fine vs m'"
    by (auto simp: advance_def gives_def)
  from us(1) vs(1) have "updater (wk m') = updater r @ (us @ vs)" by simp
  moreover from us(2) vs(2) have "fine (us @ vs) m'" by (rule fine_prepend)
  ultimately show ?thesis unfolding lifecycle_inv_def by blast
qed

lemma step_inv: "lifecycle_inv r m \<Longrightarrow> lifecycle_inv r (step X i m)"
proof (cases "blocked (pc m)")
  case True
  assume inv: "lifecycle_inv r m"
  from True have "advance m (step X i m)"
    by (simp add: step_blocked step_at_advance)
  with inv True show ?thesis by (rule lifecycle_inv_advance)
next
  case False
  assume "lifecycle_inv r m"
  with False show ?thesis by (simp add: step_done)
qed

lemma fold_step_inv: "lifecycle_inv r m \<Longrightarrow> lifecycle_inv r (fold (step X) ins m)"
  by (induction ins arbitrary: m) (simp_all add: step_inv)

lemma Run_inv: "lifecycle_inv r (Run X nd r d)"
proof -
  let ?m0 = "\<lparr>wk = r, dsk = d, pc = AtWait, stopCollection = None, handleWaitCh = False,
              prestartResultCh = \<lparr>cap = 1, buf = []\<rparr>, collectors = 0\<rparr>"
  have inv0: "lifecycle_inv r ?m0" by (simp add: lifecycle_inv_def fine_blocked)
  have "advance ?m0 (Run X nd r d)"
  proof (cases "task r")
    case None
    then show ?thesis by (simp add: Run_def)
  next
    case (Some t)
    let ?m1 = "?m0\<lparr>wk := logf (''[DEBUG] client: starting task context for '' @ SQ
                                        @ ''%s'' @ SQ @ '' (alloc '' @ SQ @ ''%s'' @ SQ @ '')'')
                                      [S (TaskType t), S (AllocID (alloc r))] r\<rparr>"
    show ?thesis
    proof (cases nd)
      case (Inl err)
      let ?ev = "(NewTaskEvent TaskSetupFailure)
                    \<lparr>SetupError :=
                       Some (''failed to create driver of task ''
                             @ ext_quote X (TaskType t) @ '' for alloc ''
                             @ ext_quote X (AllocID (alloc r)) @ '': ''
                             @ (''failed to create driver '' @ SQ @ TaskDriver t @ SQ
                                @ '' for alloc '' @ AllocID (alloc r) @ '': '' @ err)),
                     FailsTask := True\<rparr>"
      from Some Inl have eq: "Run X nd r d
          = andthen (setState X TaskStateDead (Some ?ev) ?m1) (exit_run ExitSetupFailure)"
        by (simp add: Run_def createDriver_def Let_def)
      have "advance ?m1
              (andthen (setState X TaskStateDead (Some ?ev) ?m1) (exit_run ExitSetupFailure))"
        by (rule dead_exit_advance) (simp_all add: NewTaskEvent_def)
      then show ?thesis unfolding eq by (rule advance_same [rotated]) simp
    next
      case (Inr drv)
      with Some have eq: "Run X nd r d = run_entry ?m1"
        by (simp add: Run_def createDriver_def Let_def)
      show ?thesis unfolding eq run_entry_def
        by (rule loop_head_advance) (simp add: start_collector_def)
    qed
  qed
  then show ?thesis by (rule lifecycle_inv_advance [OF inv0, rotated]) simp
qed

lemma ends_with_deads_append:
  "list_all live_symbol xs \<Longrightarrow> ends_with_deads n (xs @ replicate n TaskStateDead)"
  by (simp add: ends_with_deads_def)

lemma lives_symbols:
  "lives us \<Longrightarrow> list_all live_symbol (filter (\<lambda>s. s \<noteq> []) (map upd_state us))"
  by (induction us) (auto simp: lives_def)

lemma lives_no_dead: "lives us \<Longrightarrow> filter (\<lambda>u. upd_state u = TaskStateDead) us = []"
  by (induction us) (auto simp: lives_def)

lemma deads_symbols:
  "map upd_state fin = replicate n TaskStateDead \<Longrightarrow>
   filter (\<lambda>s. s \<noteq> []) (map upd_state fin) = replicate n TaskStateDead
   \<and> filter (\<lambda>u. upd_state u = TaskStateDead) fin = fin"
proof (induction fin arbitrary: n)
  case Nil
  then show ?case by simp
next
  case (Cons u fin)
  then obtain k where "n = Suc k" by (cases n) simp_all
  with Cons show ?case by simp
qed

lemma dying_symbols: "dying fin \<Longrightarrow> map upd_state fin = replicate (length fin) TaskStateDead"
  by (induction fin) (simp_all add: dying_def)

lemma live_then_dead_symbols:
  assumes "lives live" and "map upd_state fin = replicate n TaskStateDead"
  shows "ends_with_deads n (filter (\<lambda>s. s \<noteq> []) (map upd_state (live @ fin)))"
    and "map upd_event (filter (\<lambda>u. upd_state u = TaskStateDead) (live @ fin))
         = map upd_event fin"
  using assms
  by (simp_all add: deads_symbols lives_no_dead lives_symbols ends_with_deads_append)

text \<open>
  Claim C1, as stated, fails: on the run of scenario S1 (the task starts, its handle
  reports the exit, and the restart tracker answers \<open>TaskNotRestarting\<close>)
  \<open>shouldRestart\<close> gives \<open>Dead\<close> to the updater with the \<open>TaskNotRestarting\<close> event and
  returns false, whereupon \<open>run\<close> gives it \<open>Dead\<close> once more, with no event, and
  returns. The symbols of the run are \<open>running, dead, dead\<close>, which is not in
  \<open>(Running | Pending)* Dead\<close>: a state symbol follows the first \<open>Dead\<close>.
\<close>

theorem dead_emitted_twice_counterexample:
  "pc (run_trace sample_externals (Inr sample_driver) sample_worker empty_disk
         [RecvStart (Inr sample_driver), RecvHandleWait (Some ''exit 0'')])
     = Exited ExitNotRestarting
   \<and> symbols_since sample_worker
        (run_trace sample_externals (Inr sample_driver) sample_worker empty_disk
           [RecvStart (Inr sample_driver), RecvHandleWait (Some ''exit 0'')])
       = [TaskStateRunning, TaskStateDead, TaskStateDead]
   \<and> \<not> dead_final
        (symbols_since sample_worker
           (run_trace sample_externals (Inr sample_driver) sample_worker empty_disk
              [RecvStart (Inr sample_driver), RecvHandleWait (Some ''exit 0'')]))"
  by code_simp

text \<open>
  Claim C1, amended. Take any run of the run loop: \<open>Run\<close> is called on a worker, and
  receives, timer expiries and calls of \<open>Destroy\<close> happen in any order and number. Of
  the state symbols that the updater has received since the call, the empty ones left
  out:

  \<^item> When \<open>Run\<close> has returned, they are \<open>Pending\<close> and \<open>Running\<close> symbols followed by
    exactly one \<open>Dead\<close>, or by exactly two. They are two when \<open>shouldRestart\<close> has
    returned false after giving \<open>Dead\<close> itself, which it does for the answer
    \<open>TaskNotRestarting\<close> of the restart tracker and when the worker is destroyed during
    the restart delay: the first \<open>Dead\<close> then comes with the event of \<open>shouldRestart\<close>
    (the \<open>TaskNotRestarting\<close> event, or the destroy event) and the second is the one
    of \<open>run\<close>, with no event. They are one at every other return: after the driver
    could not be created (with the \<open>TaskSetupFailure\<close> event), after a failed prestart,
    after a destroy (with the destroy event if the task was not running), and after
    the answer \<open>TaskTerminated\<close> or an unknown answer of the restart tracker.
  \<^item> Where the run loop waits (at a \<open>select\<close> or at a receive), they are all \<open>Pending\<close>
    or \<open>Running\<close>: a \<open>Dead\<close> is given only on the way from the last wait to the return.
  \<^item> After a panic they are \<open>Pending\<close> and \<open>Running\<close> symbols followed by at most two
    \<open>Dead\<close>.

  So no \<open>Pending\<close> and no \<open>Running\<close> ever follows a \<open>Dead\<close>, and the only symbol that
  does is the second \<open>Dead\<close> of the two returns named.
\<close>

theorem run_symbols_lifecycle:
  "(\<forall>why. pc (run_trace X nd r d ins) = Exited why \<longrightarrow>
      ends_with_deads (deaths why) (symbols_since r (run_trace X nd r d ins))
      \<and> map (map_option Type) (dead_events_since r (run_trace X nd r d ins))
          = dead_event_types why (destroyEvent (wk (run_trace X nd r d ins))))
   \<and> (blocked (pc (run_trace X nd r d ins)) \<longrightarrow>
      list_all live_symbol (symbols_since r (run_trace X nd r d ins)))
   \<and> ((\<exists>p. pc (run_trace X nd r d ins) = Crashed p) \<longrightarrow>
      (\<exists>n\<le>2. ends_with_deads n (symbols_since r (run_trace X nd r d ins))))"
proof -
  let ?M = "run_trace X nd r d ins"
  have "lifecycle_inv r ?M"
    unfolding run_trace_def by (rule fold_step_inv [OF Run_inv])
  then obtain us where us: "updater (wk ?M) = updater r @ us" and f: "fine us ?M"
    by (auto simp: lifecycle_inv_def)
  from us have sym: "symbols_since r ?M = filter (\<lambda>s. s \<noteq> []) (map upd_state us)"
    and ev: "dead_events_since r ?M
             = map upd_event (filter (\<lambda>u. upd_state u = TaskStateDead) us)"
    by (simp_all add: symbols_since_def dead_events_since_def)
  have "ends_with_deads (deaths why) (symbols_since r ?M)
        \<and> map (map_option Type) (dead_events_since r ?M)
            = dead_event_types why (destroyEvent (wk ?M))"
    if p: "pc ?M = Exited why" for why
  proof -
    from f obtain live fin where lf: "us = live @ fin" "lives live"
      "finals why (destroyEvent (wk ?M)) fin"
      unfolding fine_exited [OF p] by blast
    from lf(3) have st: "map upd_state fin = replicate (deaths why) TaskStateDead"
      and ty: "map (\<lambda>u. map_option Type (upd_event u)) fin
               = dead_event_types why (destroyEvent (wk ?M))"
      by (simp_all add: finals_def)
    from live_then_dead_symbols [OF lf(2) st] ty show ?thesis
      unfolding sym ev lf(1) by (simp add: comp_def)
  qed
  moreover have "list_all live_symbol (symbols_since r ?M)" if "blocked (pc ?M)"
    using f that unfolding sym by (simp add: fine_blocked lives_symbols)
  moreover have "\<exists>n\<le>2. ends_with_deads n (symbols_since r ?M)" if p: "pc ?M = Crashed p" for p
  proof -
    from p have c: "crashed ?M" by (simp add: crashed_def)
    from f obtain live fin where lf: "us = live @ fin" "lives live" "dying fin"
      unfolding fine_crashed [OF c] by blast
    from lf(3) have "map upd_state fin = replicate (length fin) TaskStateDead"
      by (rule dying_symbols)
    from live_then_dead_symbols(1) [OF lf(2) this] lf(3) show ?thesis
      unfolding sym lf(1) dying_def by blast
  qed
  ultimately show ?thesis by blast
qed

theorem run_symbols_lifecycle_witness:
  "pc (run_trace sample_externals (Inr sample_driver) sample_worker empty_disk
         [RecvPrestart, RecvStart (Inr sample_driver),
          CallDestroy (Some (NewTaskEvent TaskKilling)), RecvDestroy,
          RecvHandleWait (Some ''killed'')]) = Exited ExitDestroyKilled
   \<and> ends_with_deads 1
        (symbols_since sample_worker
           (run_trace sample_externals (Inr sample_driver) sample_worker empty_disk
              [RecvPrestart, RecvStart (Inr sample_driver),
               CallDestroy (Some (NewTaskEvent TaskKilling)), RecvDestroy,
               RecvHandleWait (Some ''killed'')]))
   \<and> map (map_option Type)
        (dead_events_since sample_worker
           (run_trace sample_externals (Inr sample_driver) sample_worker empty_disk
              [RecvPrestart, RecvStart (Inr sample_driver),
               CallDestroy (Some (NewTaskEvent TaskKilling)), RecvDestroy,
               RecvHandleWait (Some ''killed'')])) = [None]
   \<and> blocked (pc (run_trace sample_externals (Inr sample_driver) sample_worker empty_disk
         [RecvPrestart, RecvStart (Inr sample_driver)]))
   \<and> list_all live_symbol
        (symbols_since sample_worker
           (run_trace sample_externals (Inr sample_driver) sample_worker empty_disk
              [RecvPrestart, RecvStart (Inr sample_driver)]))
   \<and> pc (run_trace sample_externals (Inl ''no driver'')
           (sample_worker\<lparr>waitCh := Closed_chan\<rparr>) empty_disk [])
       = Crashed ''close of closed channel''
   \<and> (\<exists>n\<le>2. ends_with_deads n
        (symbols_since (sample_worker\<lparr>waitCh := Closed_chan\<rparr>)
           (run_trace sample_externals (Inl ''no driver'')
              (sample_worker\<lparr>waitCh := Closed_chan\<rparr>) empty_disk [])))"
proof -
  have a: "pc (run_trace sample_externals (Inr sample_driver) sample_worker empty_disk
         [RecvPrestart, RecvStart (Inr sample_driver),
          CallDestroy (Some (NewTaskEvent TaskKilling)), RecvDestroy,
          RecvHandleWait (Some ''killed'')]) = Exited ExitDestroyKilled"
    by code_simp
  have b: "blocked (pc (run_trace sample_externals (Inr sample_driver) sample_worker empty_disk
         [RecvPrestart, RecvStart (Inr sample_driver)]))"
    by code_simp
  have c: "pc (run_trace sample_externals (Inl ''no driver'')
           (sample_worker\<lparr>waitCh := Closed_chan\<rparr>) empty_disk [])
       = Crashed ''close of closed channel''"
    by code_simp
  have d: "deaths ExitDestroyKilled = 1" "dead_event_types ExitDestroyKilled de = [None]" for de
    by simp_all
  from a b c
    run_symbols_lifecycle [of sample_externals "Inr sample_driver" sample_worker empty_disk
      "[RecvPrestart, RecvStart (Inr sample_driver),
        CallDestroy (Some (NewTaskEvent TaskKilling)), RecvDestroy,
        RecvHandleWait (Some ''killed'')]"]
    run_symbols_lifecycle [of sample_externals "Inr sample_driver" sample_worker empty_disk
      "[RecvPrestart, RecvStart (Inr sample_driver)]"]
    run_symbols_lifecycle [of sample_externals "Inl ''no driver''"
      "sample_worker\<lparr>waitCh := Closed_chan\<rparr>" empty_disk "[]"]
  show ?thesis by (simp add: d)
qed


end
